(* ===== verification/Fluence_Prelude.thy ===== *)
theory Fluence_Prelude
  imports Main "HOL-Library.Word" "HOL-Library.Char_ord" "HOL-Library.List_Lexorder"
begin

text \<open>
  Prelude of the Fluence development: Go's fixed-width integers, the functions of
  Go's standard library the sources call (\<open>fmt.Sprintf\<close> with \<open>%d\<close>, \<open>strconv.ParseInt\<close>,
  \<open>strings.Contains\<close>, \<open>strings.HasPrefix\<close>, \<open>strings.Join\<close>, \<open>path.Clean\<close>), the error values shared by
  the components, and the generic lemmas their proofs use.
\<close>

section \<open>Collections of facts\<close>

named_theorems go_int \<open>ranges of the wrapped integers\<close>
named_theorems go_fmt \<open>decimal formatting and parsing\<close>

section \<open>Go integers\<close>

text \<open>
  An \<open>int32\<close> or \<open>int64\<close> value is an \<open>int\<close> in the range of its width. Every
  arithmetic operation and every conversion of the source is followed by the
  wrap-around of the width, written out below. A \<open>uint64\<close> job id is a \<open>64 word\<close>.
\<close>

type_synonym int32 = int
type_synonym int64 = int
type_synonym duration = int64
type_synonym instant = int

definition wrap32 :: "int \<Rightarrow> int32" where
  "wrap32 x = (x + 2 ^ 31) mod 2 ^ 32 - 2 ^ 31"

definition wrap64 :: "int \<Rightarrow> int64" where
  "wrap64 x = (x + 2 ^ 63) mod 2 ^ 64 - 2 ^ 63"

definition in_int32 :: "int \<Rightarrow> bool" where
  "in_int32 x \<longleftrightarrow> - (2 ^ 31) \<le> x \<and> x < 2 ^ 31"

definition in_int64 :: "int \<Rightarrow> bool" where
  "in_int64 x \<longleftrightarrow> - (2 ^ 63) \<le> x \<and> x < 2 ^ 63"

lemma wrap32_id [simp]: "in_int32 x \<Longrightarrow> wrap32 x = x"
  by (simp add: wrap32_def in_int32_def)

lemma wrap64_id [simp]: "in_int64 x \<Longrightarrow> wrap64 x = x"
  by (simp add: wrap64_def in_int64_def)

lemma wrap_zero [simp]: "wrap32 0 = 0" "wrap64 0 = 0"
  by (simp_all add: in_int32_def in_int64_def)

lemma wrap32_range [simp, go_int]: "in_int32 (wrap32 x)"
proof -
  have "0 \<le> (x + 2 ^ 31) mod 2 ^ 32" and "(x + 2 ^ 31) mod 2 ^ 32 < 2 ^ 32"
    by simp_all
  then show ?thesis by (simp add: wrap32_def in_int32_def)
qed

lemma wrap64_range [simp, go_int]: "in_int64 (wrap64 x)"
proof -
  have "0 \<le> (x + 2 ^ 63) mod 2 ^ 64" and "(x + 2 ^ 63) mod 2 ^ 64 < 2 ^ 64"
    by simp_all
  then show ?thesis by (simp add: wrap64_def in_int64_def)
qed

lemma in_int32_imp_in_int64 [go_int]: "in_int32 x \<Longrightarrow> in_int64 x"
  by (simp add: in_int32_def in_int64_def)

lemma wrap64_in_int32 [simp]: "in_int32 x \<Longrightarrow> wrap64 x = x"
  by (simp add: in_int32_imp_in_int64)

text \<open>The wrap-around is two's complement at the width of the word type.\<close>

lemma wrap32_sint: "wrap32 x = sint (word_of_int x :: 32 word)"
  by (simp add: wrap32_def signed_of_int signed_take_bit_eq_take_bit_shift take_bit_eq_mod)

lemma wrap64_sint: "wrap64 x = sint (word_of_int x :: 64 word)"
  by (simp add: wrap64_def signed_of_int signed_take_bit_eq_take_bit_shift take_bit_eq_mod)

lemma wrap64_add_wrap: "wrap64 (wrap64 x + y) = wrap64 (x + y)"
proof -
  have "(wrap64 x + y + 2 ^ 63) mod 2 ^ 64 = ((x + 2 ^ 63) mod 2 ^ 64 + y) mod 2 ^ 64"
    by (simp add: wrap64_def)
  also have "\<dots> = (x + y + 2 ^ 63) mod 2 ^ 64"
    by (subst mod_add_left_eq) (simp add: ac_simps)
  finally show ?thesis by (simp add: wrap64_def)
qed

lemma wrap32_add_wrap: "wrap32 (wrap32 x + y) = wrap32 (x + y)"
proof -
  have "(wrap32 x + y + 2 ^ 31) mod 2 ^ 32 = ((x + 2 ^ 31) mod 2 ^ 32 + y) mod 2 ^ 32"
    by (simp add: wrap32_def)
  also have "\<dots> = (x + y + 2 ^ 31) mod 2 ^ 32"
    by (subst mod_add_left_eq) (simp add: ac_simps)
  finally show ?thesis by (simp add: wrap32_def)
qed

text \<open>Go's integer division truncates towards zero.\<close>

definition go_quot :: "int \<Rightarrow> int \<Rightarrow> int" where
  "go_quot a b = sgn a * sgn b * (\<bar>a\<bar> div \<bar>b\<bar>)"

lemma go_quot_nonneg: "0 \<le> a \<Longrightarrow> 0 < b \<Longrightarrow> go_quot a b = a div b"
  by (cases "a = 0") (simp_all add: go_quot_def)

lemma go_quot_neg: "a \<le> 0 \<Longrightarrow> 0 < b \<Longrightarrow> go_quot a b \<le> 0"
  by (cases "a = 0") (simp_all add: go_quot_def pos_imp_zdiv_nonneg_iff)


section \<open>Errors\<close>

text \<open>
  A call that fails returns an error value; a call that panics (an index out of
  range, a failed type assertion, a nil dereference, a division by zero, a nil map
  write) does not return at all. Both are the left value of a sum.
\<close>

datatype go_panic = IndexOutOfRange | NilDereference | NilMapWrite | BadTypeAssertion
  | DivideByZero | PanicCalled

datatype go_error = Err string | Panic go_panic

type_synonym 'a result = "go_error + 'a"

text \<open>\<open>fmt.Errorf\<close> with the verb \<open>%w\<close>; a panic is not an error value and passes through.\<close>

fun wrap_error :: "string \<Rightarrow> go_error \<Rightarrow> go_error" where
  "wrap_error prefix (Err msg) = Err (prefix @ msg)"
| "wrap_error prefix (Panic p) = Panic p"

fun bind_result :: "'a result \<Rightarrow> ('a \<Rightarrow> 'b result) \<Rightarrow> 'b result" where
  "bind_result (Inl e) f = Inl e"
| "bind_result (Inr x) f = f x"

lemma bind_result_Inr_iff [simp]:
  "bind_result r f = Inr y \<longleftrightarrow> (\<exists>x. r = Inr x \<and> f x = Inr y)"
  by (cases r) auto

lemma bind_result_Inl_iff:
  "bind_result r f = Inl e \<longleftrightarrow> r = Inl e \<or> (\<exists>x. r = Inr x \<and> f x = Inl e)"
  by (cases r) auto

text \<open>The loop of a body that may fail, over the elements of a slice.\<close>

fun fold_result :: "('a \<Rightarrow> 's \<Rightarrow> 's result) \<Rightarrow> 'a list \<Rightarrow> 's \<Rightarrow> 's result" where
  "fold_result f [] s = Inr s"
| "fold_result f (x # xs) s = bind_result (f x s) (fold_result f xs)"

lemma fold_result_append:
  "fold_result f (xs @ ys) s = bind_result (fold_result f xs s) (fold_result f ys)"
proof (induction xs arbitrary: s)
  case Nil
  then show ?case by simp
next
  case (Cons x xs)
  then show ?case by (cases "f x s") simp_all
qed

lemma fold_result_error: "fold_result f xs s = Inl e \<Longrightarrow> \<exists>x s'. f x s' = Inl e"
  by (induction xs arbitrary: s) (auto simp: bind_result_Inl_iff)

lemma fold_result_invariant:
  assumes "fold_result f xs s = Inr t" and "P s"
    and "\<And>x s s'. x \<in> set xs \<Longrightarrow> P s \<Longrightarrow> f x s = Inr s' \<Longrightarrow> P s'"
  shows "P t"
  using assms
proof (induction xs arbitrary: s)
  case Nil
  then show ?case by simp
next
  case (Cons x xs)
  from Cons.prems(1) obtain s' where step: "f x s = Inr s'" and rest: "fold_result f xs s' = Inr t"
    by auto
  from Cons.prems(3) Cons.prems(2) step have "P s'" by (meson list.set_intros(1))
  with rest show ?case by (rule Cons.IH) (use Cons.prems(3) in auto)
qed

section \<open>Decimal strings\<close>

text \<open>\<open>fmt.Sprintf\<close> with the verb \<open>%d\<close>.\<close>

definition digit_char :: "nat \<Rightarrow> char" where
  "digit_char d = char_of (48 + d)"

fun dec_nat :: "nat \<Rightarrow> string" where
  "dec_nat n = (if n < 10 then [digit_char n] else dec_nat (n div 10) @ [digit_char (n mod 10)])"

declare dec_nat.simps [simp del]

definition fmt_d :: "int \<Rightarrow> string" where
  "fmt_d i = (if i < 0 then CHR ''-'' # dec_nat (nat (- i)) else dec_nat (nat i))"

text \<open>
  \<open>strconv.ParseInt\<close> with base 10: an optional sign, then one or more decimal digits.
  The callers only test whether the error is nil, so an error is \<open>None\<close>.
\<close>

definition is_dec_digit :: "char \<Rightarrow> bool" where
  "is_dec_digit c \<longleftrightarrow> 48 \<le> (of_char c :: nat) \<and> (of_char c :: nat) < 58"

fun parse_digits :: "string \<Rightarrow> nat \<Rightarrow> nat option" where
  "parse_digits [] acc = Some acc"
| "parse_digits (c # cs) acc =
     (if is_dec_digit c then parse_digits cs (10 * acc + (of_char c - 48)) else None)"

definition parse_uint :: "string \<Rightarrow> nat option" where
  "parse_uint s = (if s = [] then None else parse_digits s 0)"

definition ParseInt :: "nat \<Rightarrow> string \<Rightarrow> int option" where
  "ParseInt bits s =
     (case s of
        [] \<Rightarrow> None
      | c # cs \<Rightarrow>
          if c = CHR ''-'' then
            (case parse_uint cs of None \<Rightarrow> None
             | Some n \<Rightarrow> if int n \<le> 2 ^ (bits - 1) then Some (- int n) else None)
          else
            (case parse_uint (if c = CHR ''+'' then cs else s) of None \<Rightarrow> None
             | Some n \<Rightarrow> if int n < 2 ^ (bits - 1) then Some (int n) else None))"

lemma of_char_digit_char [simp]: "d < 10 \<Longrightarrow> (of_char (digit_char d) :: nat) = 48 + d"
  by (simp add: digit_char_def)

lemma is_dec_digit_digit_char [simp]: "d < 10 \<Longrightarrow> is_dec_digit (digit_char d)"
  by (simp add: is_dec_digit_def)

lemma parse_digits_append:
  "parse_digits (xs @ ys) acc = Option.bind (parse_digits xs acc) (parse_digits ys)"
  by (induction xs arbitrary: acc) auto

lemma dec_nat_nonempty [simp]: "dec_nat n \<noteq> []"
  by (subst dec_nat.simps) simp

lemma dec_nat_digits: "c \<in> set (dec_nat n) \<Longrightarrow> is_dec_digit c"
proof (induction n rule: dec_nat.induct)
  case (1 n)
  show ?case
  proof (cases "n < 10")
    case True
    with "1.prems" show ?thesis by (subst (asm) dec_nat.simps) simp
  next
    case False
    with "1" show ?thesis by (subst (asm) dec_nat.simps) auto
  qed
qed

lemma parse_digits_dec_nat: "parse_digits (dec_nat n) 0 = Some n"
proof (induction n rule: dec_nat.induct)
  case (1 n)
  show ?case
  proof (cases "n < 10")
    case True
    then show ?thesis by (subst dec_nat.simps) simp
  next
    case False
    with "1" have "parse_digits (dec_nat (n div 10)) 0 = Some (n div 10)" by simp
    with False show ?thesis
      by (subst dec_nat.simps) (simp add: parse_digits_append)
  qed
qed

lemma parse_uint_dec_nat [simp, go_fmt]: "parse_uint (dec_nat n) = Some n"
  by (simp add: parse_uint_def parse_digits_dec_nat)

lemma dec_nat_inj [simp]: "dec_nat m = dec_nat n \<longleftrightarrow> m = n"
  by (metis option.inject parse_uint_dec_nat)

lemma hd_dec_nat_not_sign: "dec_nat n = c # cs \<Longrightarrow> c \<noteq> CHR ''-'' \<and> c \<noteq> CHR ''+''"
  using dec_nat_digits [of c n] by (auto simp: is_dec_digit_def)

lemma ParseInt_fmt_d:
  assumes "- (2 ^ (bits - 1)) \<le> i" and "i < 2 ^ (bits - 1)"
  shows "ParseInt bits (fmt_d i) = Some i"
proof (cases "i < 0")
  case True
  with assms show ?thesis by (simp add: fmt_d_def ParseInt_def)
next
  case False
  obtain c cs where d: "dec_nat (nat i) = c # cs" by (cases "dec_nat (nat i)") auto
  have "parse_uint (c # cs) = Some (nat i)" by (simp flip: d)
  with False d assms hd_dec_nat_not_sign [OF d] show ?thesis
    by (simp add: fmt_d_def ParseInt_def)
qed

lemma ParseInt32_fmt_d [go_fmt]: "in_int32 i \<Longrightarrow> ParseInt 32 (fmt_d i) = Some i"
  by (rule ParseInt_fmt_d) (simp_all add: in_int32_def)

lemma ParseInt32_range [go_int]: "ParseInt 32 s = Some i \<Longrightarrow> in_int32 i"
  by (auto simp: ParseInt_def in_int32_def split: list.splits option.splits if_splits)

lemma fmt_d_inj [simp]: "fmt_d i = fmt_d j \<longleftrightarrow> i = j"
proof
  assume eq: "fmt_d i = fmt_d j"
  show "i = j"
  proof (cases "i < 0"; cases "j < 0")
    assume "i < 0" "\<not> j < 0"
    with eq show ?thesis
      by (auto simp: fmt_d_def dest: sym dest!: hd_dec_nat_not_sign)
  next
    assume "\<not> i < 0" "j < 0"
    with eq show ?thesis by (auto simp: fmt_d_def dest!: hd_dec_nat_not_sign)
  qed (use eq in \<open>auto simp: fmt_d_def\<close>)
qed simp

lemma fmt_d_chars: "c \<in> set (fmt_d i) \<Longrightarrow> is_dec_digit c \<or> c = CHR ''-''"
  by (auto simp: fmt_d_def dest: dec_nat_digits split: if_splits)

lemma fmt_d_no_slash [simp]: "CHR ''/'' \<notin> set (fmt_d i)"
  by (auto dest!: fmt_d_chars simp: is_dec_digit_def)

lemma fmt_d_nonempty [simp]: "fmt_d i \<noteq> []"
  by (simp add: fmt_d_def)


section \<open>Strings and paths\<close>

definition HasPrefix :: "string \<Rightarrow> string \<Rightarrow> bool" where
  "HasPrefix s p \<longleftrightarrow> take (length p) s = p"

fun Contains :: "string \<Rightarrow> string \<Rightarrow> bool" where
  "Contains [] sub \<longleftrightarrow> sub = []"
| "Contains (c # cs) sub \<longleftrightarrow> HasPrefix (c # cs) sub \<or> Contains cs sub"

fun Join :: "string list \<Rightarrow> string \<Rightarrow> string" where
  "Join [] sep = []"
| "Join [x] sep = x"
| "Join (x # xs) sep = x @ sep @ Join xs sep"

text \<open>The elements of a path between its slashes.\<close>

fun path_elems :: "string \<Rightarrow> string list" where
  "path_elems [] = [[]]"
| "path_elems (c # cs) =
     (if c = CHR ''/'' then [] # path_elems cs
      else case path_elems cs of [] \<Rightarrow> [[c]] | e # es \<Rightarrow> (c # e) # es)"

text \<open>
  \<open>path.Clean\<close>: drop empty elements and \<open>.\<close>, let \<open>..\<close> remove the element before it,
  drop \<open>..\<close> at the start of a rooted path. The stack holds the elements kept, last first.
\<close>

fun clean_elems :: "bool \<Rightarrow> string list \<Rightarrow> string list \<Rightarrow> string list" where
  "clean_elems rooted [] stack = rev stack"
| "clean_elems rooted (e # es) stack =
     (if e = [] \<or> e = ''.'' then clean_elems rooted es stack
      else if e = ''..'' then
        (case stack of
           [] \<Rightarrow> clean_elems rooted es (if rooted then [] else [''..''])
         | t # ts \<Rightarrow> clean_elems rooted es (if t = ''..'' then ''..'' # t # ts else ts))
      else clean_elems rooted es (e # stack))"

definition path_Clean :: "string \<Rightarrow> string" where
  "path_Clean p =
     (if HasPrefix p ''/'' then ''/'' @ Join (clean_elems True (path_elems p) []) ''/''
      else let q = Join (clean_elems False (path_elems p) []) ''/''
           in if q = [] then ''.'' else q)"

definition plain_elem :: "string \<Rightarrow> bool" where
  "plain_elem e \<longleftrightarrow> e \<noteq> [] \<and> e \<noteq> ''.'' \<and> e \<noteq> ''..'' \<and> CHR ''/'' \<notin> set e"

lemma path_elems_slash_free: "CHR ''/'' \<notin> set e \<Longrightarrow> path_elems e = [e]"
  by (induction e) auto

lemma path_elems_append_slash:
  "CHR ''/'' \<notin> set e \<Longrightarrow> path_elems (e @ ''/'' @ p) = e # path_elems p"
  by (induction e) auto

lemma path_elems_Join:
  "es \<noteq> [] \<Longrightarrow> \<forall>e\<in>set es. CHR ''/'' \<notin> set e \<Longrightarrow> path_elems (Join es ''/'') = es"
proof (induction es rule: induct_list012)
  case (3 x y zs)
  then have "path_elems (Join (y # zs) ''/'') = y # zs" by simp
  with "3.prems" path_elems_append_slash [of x "Join (y # zs) ''/''"] show ?case by simp
qed (auto simp: path_elems_slash_free)

lemma clean_elems_plain:
  "\<forall>e\<in>set es. plain_elem e \<Longrightarrow> clean_elems r es stack = rev stack @ es"
  by (induction es arbitrary: stack) (auto simp: plain_elem_def)

lemma path_Clean_plain:
  assumes "es \<noteq> []" and "\<forall>e\<in>set es. plain_elem e"
  shows "path_Clean (''/'' @ Join es ''/'') = ''/'' @ Join es ''/''"
proof -
  have "path_elems (''/'' @ Join es ''/'') = [] # es"
    using assms path_elems_Join [of es] by (auto simp: plain_elem_def)
  with assms(2) show ?thesis
    by (simp add: path_Clean_def HasPrefix_def clean_elems_plain)
qed

lemma Join_slash_inj:
  assumes "es \<noteq> []" "fs \<noteq> []"
    and "\<forall>e\<in>set es. CHR ''/'' \<notin> set e" "\<forall>e\<in>set fs. CHR ''/'' \<notin> set e"
    and "Join es ''/'' = Join fs ''/''"
  shows "es = fs"
  using assms by (metis path_elems_Join)

text \<open>A name with an index appended is never an element \<open>path.Clean\<close> touches.\<close>

lemma fmt_d_last_digit: "is_dec_digit (last (fmt_d i))"
  using dec_nat_digits [OF last_in_set [OF dec_nat_nonempty]] by (simp add: fmt_d_def)

lemma indexed_name_plain: "CHR ''/'' \<notin> set n \<Longrightarrow> plain_elem (n @ fmt_d i)"
proof -
  assume n: "CHR ''/'' \<notin> set n"
  have l: "is_dec_digit (last (n @ fmt_d i))" by (simp add: fmt_d_last_digit)
  have "\<not> is_dec_digit (last ''.'')" "\<not> is_dec_digit (last ''..'')"
    by (simp_all add: is_dec_digit_def)
  with l n show ?thesis unfolding plain_elem_def
    by (metis Un_iff append_is_Nil_conv fmt_d_no_slash fmt_d_nonempty set_append)
qed

text \<open>Two names joined by a slash-free separator word: a namespaced name is unambiguous.\<close>

lemma slash_split_inj:
  "CHR ''/'' \<notin> set a \<Longrightarrow> CHR ''/'' \<notin> set c \<Longrightarrow>
   a @ CHR ''/'' # b = c @ CHR ''/'' # d \<longleftrightarrow> a = c \<and> b = d"
proof (induction a arbitrary: c)
  case Nil
  then show ?case by (cases c) auto
next
  case (Cons x a)
  then show ?case by (cases c) auto
qed

section \<open>Simulations\<close>

text \<open>
  A step relation and what is promised of it: seen through \<open>view\<close>, every step from a reachable
  state is a step of the specification. Runs of the one are then runs of the other, and
  invariants of the specification hold of what is seen.
\<close>

locale simulation =
  fixes reach :: "'c \<Rightarrow> bool" and step :: "'c \<Rightarrow> 'c \<Rightarrow> bool"
    and spec :: "'a \<Rightarrow> 'a \<Rightarrow> bool" and view :: "'c \<Rightarrow> 'a"
  assumes reach_step: "reach x \<Longrightarrow> step x y \<Longrightarrow> reach y"
    and simulates: "reach x \<Longrightarrow> step x y \<Longrightarrow> spec (view x) (view y)"
begin

lemma run: "step\<^sup>*\<^sup>* x y \<Longrightarrow> reach x \<Longrightarrow> reach y \<and> spec\<^sup>*\<^sup>* (view x) (view y)"
  by (induction rule: rtranclp_induct) (auto intro: reach_step rtranclp.rtrancl_into_rtrancl simulates)

lemma invariant:
  assumes "step\<^sup>*\<^sup>* x y" and "reach x" and "I (view x)" and "\<And>a b. spec a b \<Longrightarrow> I a \<Longrightarrow> I b"
  shows "I (view y)"
proof -
  have "spec\<^sup>*\<^sup>* (view x) (view y)" using run assms(1,2) by blast
  then show ?thesis using assms(3,4) by (induction rule: rtranclp_induct) blast+
qed

end

end
