(* ===== verification/K8s_Types.thy ===== *)
theory K8s_Types
  imports Fluence_Prelude
begin

text \<open>
  The Kubernetes objects the sources read and write: pods with their labels, phases
  and container resources, and the PodGroup resource of
  \<open>sig-scheduler-plugins/apis/scheduling/v1alpha1/types.go\<close>. An object holds the
  fields the modelled code touches. A Go map that may be nil is an \<open>option\<close>: reading
  a nil map finds nothing, writing to it panics.
\<close>

section \<open>Labels\<close>

type_synonym labels = "(string \<rightharpoonup> string) option"

definition label :: "labels \<Rightarrow> string \<Rightarrow> string option" where
  "label m k = (case m of None \<Rightarrow> None | Some f \<Rightarrow> f k)"

text \<open>\<open>m[k]\<close> without the second result: the empty string for a key that is absent.\<close>

definition label_or_empty :: "labels \<Rightarrow> string \<Rightarrow> string" where
  "label_or_empty m k = (case label m k of None \<Rightarrow> '''' | Some v \<Rightarrow> v)"

text \<open>\<open>if m == nil { m = map[string]string{} }\<close> and the assignment \<open>m[k] = v\<close>.\<close>

definition make_labels :: "labels \<Rightarrow> labels" where
  "make_labels m = (case m of None \<Rightarrow> Some Map.empty | Some f \<Rightarrow> Some f)"

definition set_label :: "labels \<Rightarrow> string \<Rightarrow> string \<Rightarrow> labels result" where
  "set_label m k v = (case m of None \<Rightarrow> Inl (Panic NilMapWrite) | Some f \<Rightarrow> Inr (Some (f(k \<mapsto> v))))"

lemma label_make_labels [simp]: "label (make_labels m) k = label m k"
  by (simp add: label_def make_labels_def split: option.splits)

lemma make_labels_not_None [simp]: "make_labels m \<noteq> None"
  by (simp add: make_labels_def split: option.splits)

lemma set_label_make [simp]: "set_label (make_labels m) k v \<noteq> Inl e"
  by (simp add: set_label_def make_labels_def split: option.splits)

lemma label_Some [simp]: "label (Some f) k = f k"
  by (simp add: label_def)

lemma label_None [simp]: "label None k = None"
  by (simp add: label_def)

lemma set_label_Inr_iff: "set_label m k v = Inr m' \<longleftrightarrow> (\<exists>f. m = Some f \<and> m' = Some (f(k \<mapsto> v)))"
  by (auto simp: set_label_def split: option.splits)

section \<open>Resources\<close>

text \<open>
  A \<open>resource.Quantity\<close> is seen only through its readings \<open>Value()\<close> and \<open>MilliValue()\<close>;
  its addition is a parameter of the definitions that add quantities. The zero
  Quantity reads 0 both ways.
\<close>

record Quantity =
  Value :: int64
  MilliValue :: int64

type_synonym ResourceList = "string \<rightharpoonup> Quantity"

definition zero_Quantity :: Quantity where
  "zero_Quantity = \<lparr>Value = 0, MilliValue = 0\<rparr>"

text \<open>The accessors \<open>Cpu()\<close>, \<open>Memory()\<close>, \<open>StorageEphemeral()\<close> and plain indexing.\<close>

definition resource_of :: "ResourceList \<Rightarrow> string \<Rightarrow> Quantity" where
  "resource_of rl name = (case rl name of None \<Rightarrow> zero_Quantity | Some q \<Rightarrow> q)"

record Container =
  Requests :: ResourceList
  Limits :: ResourceList

section \<open>Pods\<close>

datatype PodPhase = PodPending | PodRunning | PodSucceeded | PodFailed | PodUnknown
  | PodPhaseOther string

fun phase_string :: "PodPhase \<Rightarrow> string" where
  "phase_string PodPending = ''Pending''"
| "phase_string PodRunning = ''Running''"
| "phase_string PodSucceeded = ''Succeeded''"
| "phase_string PodFailed = ''Failed''"
| "phase_string PodUnknown = ''Unknown''"
| "phase_string (PodPhaseOther s) = s"

record OwnerReference =
  or_Name :: string
  or_UID :: string

record Pod =
  pod_Name :: string
  pod_Namespace :: string
  pod_UID :: string
  pod_Labels :: labels
  pod_DeletionTimestamp :: "instant option"
  pod_OwnerReferences :: "OwnerReference list"
  pod_NodeName :: string
  pod_Containers :: "Container list"
  pod_Phase :: PodPhase

section \<open>The PodGroup resource\<close>

text \<open>
  \<open>types.go\<close>, the phases of a pod group. A fresh group has the empty phase.
\<close>

datatype PodGroupPhase = PodGroupNoPhase | PodGroupPending | PodGroupRunning
  | PodGroupScheduling | PodGroupUnknown | PodGroupFinished | PodGroupFailed

text \<open>
  \<open>PodGroup\<close> with its \<open>PodGroupSpec\<close> and \<open>PodGroupStatus\<close>. An \<open>instant\<close> counts
  nanoseconds from Go's zero time, so \<open>IsZero\<close> is equality with 0.
\<close>

record PodGroupSpec =
  MinMember :: int32
  MinResources :: ResourceList
  ScheduleTimeoutSeconds :: "int32 option"

record PodGroupStatus =
  Phase :: PodGroupPhase
  OccupiedBy :: string
  Running :: int32
  Succeeded :: int32
  Failed :: int32
  CreationTime :: instant
  ScheduleStartTime :: instant

record PodGroup =
  pg_Name :: string
  pg_Namespace :: string
  pg_CreationTimestamp :: instant
  pg_OwnerReferences :: "OwnerReference list"
  Spec :: PodGroupSpec
  Status :: PodGroupStatus

definition IsZero :: "instant \<Rightarrow> bool" where
  "IsZero t \<longleftrightarrow> t = 0"

text \<open>The zero values of the Go structs, which a composite literal starts from.\<close>

definition zero_PodGroupSpec :: PodGroupSpec where
  "zero_PodGroupSpec = \<lparr>MinMember = 0, MinResources = Map.empty, ScheduleTimeoutSeconds = None\<rparr>"

definition zero_PodGroupStatus :: PodGroupStatus where
  "zero_PodGroupStatus = \<lparr>Phase = PodGroupNoPhase, OccupiedBy = '''', Running = 0, Succeeded = 0,
     Failed = 0, CreationTime = 0, ScheduleStartTime = 0\<rparr>"

definition zero_PodGroup :: PodGroup where
  "zero_PodGroup = \<lparr>pg_Name = '''', pg_Namespace = '''', pg_CreationTimestamp = 0,
     pg_OwnerReferences = [], Spec = zero_PodGroupSpec, Status = zero_PodGroupStatus\<rparr>"

text \<open>
  What an API server keeps of a status when the custom resource is installed with the definition
  that the repository ships: its schema has no member for the creation time, so the server
  drops that one.
\<close>

definition crd_status :: "PodGroupStatus \<Rightarrow> PodGroupStatus" where
  "crd_status s = s\<lparr>CreationTime := 0\<rparr>"

text \<open>A pod with the given name, namespace and labels and every other field at its zero value.\<close>

definition plain_pod :: "string \<Rightarrow> string \<Rightarrow> labels \<Rightarrow> Pod" where
  "plain_pod ns n ls = \<lparr>pod_Name = n, pod_Namespace = ns, pod_UID = ns @ ''/'' @ n, pod_Labels = ls,
     pod_DeletionTimestamp = None, pod_OwnerReferences = [], pod_NodeName = '''',
     pod_Containers = [], pod_Phase = PodPending\<rparr>"

lemmas k8s_zero_defs = zero_PodGroup_def zero_PodGroupSpec_def zero_PodGroupStatus_def
  zero_Quantity_def

end
