(* ===== verification/Group_Labels.thy ===== *)
theory Group_Labels
  imports K8s_Types
begin

text \<open>
  The label helpers of \<open>pkg/fluence/labels/labels.go\<close> and the group helpers of
  \<open>pkg/fluence/group/group.go\<close>, with the facts the scheduler plugin relies on: a
  namespaced group name determines namespace and group, and a group's wait time
  never overflows.
\<close>

section \<open>labels.go\<close>

definition PodGroupLabel :: string where
  "PodGroupLabel = ''scheduling.x-k8s.io/pod-group''"

definition PodGroupSizeLabel :: string where
  "PodGroupSizeLabel = ''fluence.group-size''"

definition PodGroupTimeCreated :: string where
  "PodGroupTimeCreated = ''flunce.created-at''"

lemmas label_consts = PodGroupLabel_def PodGroupSizeLabel_def PodGroupTimeCreated_def

lemma label_consts_distinct [simp]:
  "PodGroupLabel \<noteq> PodGroupSizeLabel" "PodGroupSizeLabel \<noteq> PodGroupLabel"
  "PodGroupTimeCreated \<noteq> PodGroupSizeLabel" "PodGroupTimeCreated \<noteq> PodGroupLabel"
  by (simp_all add: label_consts)

definition GetPodGroupLabel :: "Pod \<Rightarrow> string" where
  "GetPodGroupLabel pod = label_or_empty (pod_Labels pod) PodGroupLabel"

definition GetPodGroupFullName :: "Pod \<Rightarrow> string" where
  "GetPodGroupFullName pod =
     (let groupName = GetPodGroupLabel pod
      in if length groupName = 0 then ''''
         else pod_Namespace pod @ ''/'' @ groupName)"

definition GetPodGroupSize :: "Pod \<Rightarrow> string" where
  "GetPodGroupSize pod = label_or_empty (pod_Labels pod) PodGroupSizeLabel"

text \<open>
  \<open>GetTimeCreated\<close> formats the current time; \<open>MarshalJSON\<close> belongs to Kubernetes'
  \<open>MicroTime\<close>, so it is an argument.
\<close>

definition GetTimeCreated :: "(instant \<Rightarrow> string result) \<Rightarrow> instant \<Rightarrow> string" where
  "GetTimeCreated MarshalJSON now =
     (case MarshalJSON now of Inl err \<Rightarrow> '''' | Inr timeCreated \<Rightarrow> timeCreated)"

section \<open>group.go\<close>

definition Second :: duration where
  "Second = 1000000000"

definition DefaultWaitTime :: duration where
  "DefaultWaitTime = 60 * Second"

definition fakeGroupName :: "Pod \<Rightarrow> string" where
  "fakeGroupName pod = ''fluence-solo-'' @ pod_Namespace pod @ ''-'' @ pod_Name pod"

definition CreateFakeGroup :: "Pod \<Rightarrow> PodGroup" where
  "CreateFakeGroup pod = zero_PodGroup
     \<lparr>pg_Name := fakeGroupName pod, pg_Namespace := pod_Namespace pod,
      Spec := zero_PodGroupSpec\<lparr>MinMember := 1\<rparr>\<rparr>"

text \<open>
  The scheduler framework's queue entry: the pod and the time of its first
  scheduling attempt, a pointer that is nil before the first attempt.
\<close>

record QueuedPodInfo =
  qpi_Pod :: Pod
  InitialAttemptTimestamp :: "instant option"

definition deref :: "'a option \<Rightarrow> 'a result" where
  "deref p = (case p of None \<Rightarrow> Inl (Panic NilDereference) | Some v \<Rightarrow> Inr v)"

definition GetCreationTimestamp ::
    "string \<Rightarrow> PodGroup option \<Rightarrow> QueuedPodInfo \<Rightarrow> instant result" where
  "GetCreationTimestamp groupName podGroup podInfo =
     (case podGroup of
        None \<Rightarrow> deref (InitialAttemptTimestamp podInfo)
      | Some pg \<Rightarrow>
          if \<not> IsZero (ScheduleStartTime (Status pg)) then Inr (ScheduleStartTime (Status pg))
          else deref (InitialAttemptTimestamp podInfo))"

definition GetWaitTimeDuration :: "PodGroup option \<Rightarrow> duration option \<Rightarrow> duration" where
  "GetWaitTimeDuration podGroup scheduleTimeout =
     (case Option.bind podGroup (\<lambda>pg. ScheduleTimeoutSeconds (Spec pg)) of
        Some secs \<Rightarrow> wrap64 (secs * Second)
      | None \<Rightarrow>
          (case scheduleTimeout of
             Some t \<Rightarrow> if t \<noteq> 0 then t else DefaultWaitTime
           | None \<Rightarrow> DefaultWaitTime))"

section \<open>Names\<close>

text \<open>
  Kubernetes namespaces and object names are DNS names, so they hold no slash; a
  well-named pod has that form.
\<close>

definition slash_free :: "string \<Rightarrow> bool" where
  "slash_free s \<longleftrightarrow> CHR ''/'' \<notin> set s"

definition well_named :: "Pod \<Rightarrow> bool" where
  "well_named pod \<longleftrightarrow> slash_free (pod_Namespace pod) \<and> slash_free (pod_Name pod)"

lemma slash_free_append [simp]: "slash_free (a @ b) \<longleftrightarrow> slash_free a \<and> slash_free b"
  by (auto simp: slash_free_def)

lemma fakeGroupName_slash_free: "well_named pod \<Longrightarrow> slash_free (fakeGroupName pod)"
  by (simp add: well_named_def fakeGroupName_def slash_free_def)

lemma namespaced_not_slash_free [simp]: "\<not> slash_free (ns @ ''/'' @ n)"
  by (simp add: slash_free_def)

lemma namespaced_inj:
  "slash_free ns \<Longrightarrow> slash_free ns' \<Longrightarrow> ns @ ''/'' @ n = ns' @ ''/'' @ n' \<longleftrightarrow> ns = ns' \<and> n = n'"
  by (simp add: slash_free_def slash_split_inj)

text \<open>
  \<open>GetPodGroupFullName\<close> identifies gangs: two labelled pods have the same full
  name exactly when they are in the same namespace and carry the same group label.
\<close>

theorem GetPodGroupFullName_eq_iff:
  assumes "slash_free (pod_Namespace p)" and "slash_free (pod_Namespace q)"
    and "GetPodGroupLabel p \<noteq> ''''" and "GetPodGroupLabel q \<noteq> ''''"
  shows "GetPodGroupFullName p = GetPodGroupFullName q \<longleftrightarrow>
           pod_Namespace p = pod_Namespace q \<and> GetPodGroupLabel p = GetPodGroupLabel q"
  using assms namespaced_inj by (simp add: GetPodGroupFullName_def)

theorem GetPodGroupFullName_eq_iff_witness:
  "GetPodGroupFullName (plain_pod ''ns1'' ''a'' (Some [PodGroupLabel \<mapsto> ''g'']))
     \<noteq> GetPodGroupFullName (plain_pod ''ns2'' ''a'' (Some [PodGroupLabel \<mapsto> ''g'']))"
  by (subst GetPodGroupFullName_eq_iff)
    (simp_all add: plain_pod_def slash_free_def GetPodGroupLabel_def label_or_empty_def)

text \<open>
  \<open>GetWaitTimeDuration\<close> follows its documented precedence and its multiplication
  by a second never overflows 64 bits for an int32 number of seconds.
\<close>

theorem GetWaitTimeDuration_spec:
  assumes "\<And>pg secs. podGroup = Some pg \<Longrightarrow> ScheduleTimeoutSeconds (Spec pg) = Some secs \<Longrightarrow> in_int32 secs"
  shows "GetWaitTimeDuration podGroup scheduleTimeout =
    (case podGroup of
       Some pg \<Rightarrow> (case ScheduleTimeoutSeconds (Spec pg) of
                    Some secs \<Rightarrow> secs * 10 ^ 9
                  | None \<Rightarrow> if scheduleTimeout \<in> {None, Some 0} then 60 * 10 ^ 9 else the scheduleTimeout)
     | None \<Rightarrow> if scheduleTimeout \<in> {None, Some 0} then 60 * 10 ^ 9 else the scheduleTimeout)"
proof -
  have "wrap64 (secs * Second) = secs * 10 ^ 9" if "in_int32 secs" for secs
    using that by (simp add: in_int32_def in_int64_def Second_def)
  with assms show ?thesis
    by (auto simp: GetWaitTimeDuration_def DefaultWaitTime_def Second_def split: option.splits)
qed

theorem GetWaitTimeDuration_spec_witness:
  "GetWaitTimeDuration (Some (zero_PodGroup\<lparr>Spec := zero_PodGroupSpec\<lparr>ScheduleTimeoutSeconds := Some 30\<rparr>\<rparr>))
     (Some 5) = 30 * 10 ^ 9"
  by (subst GetWaitTimeDuration_spec) (auto simp: in_int32_def)

end
