(* ===== verification/JSON.thy ===== *)
theory JSON
  imports Fluence_Prelude
begin

text \<open>
  Go's \<open>encoding/json\<close> as far as the sidecar uses it: \<open>MarshalIndent\<close> writes the
  resource graph and \<open>Unmarshal\<close> reads the allocation that Fluxion returns into
  values of dynamic type. A number keeps its text. Strings are byte strings; bytes
  above 127 are copied, as Go does for valid UTF-8 text. The round trip at the end
  says that what is written is read back.
\<close>

section \<open>Values\<close>

datatype json = JNull | JBool bool | JNum string | JStr string | JArr "json list"
  | JObj "(string \<times> json) list"

text \<open>A member of an object: of two members with the same key the last one counts.\<close>

definition obj_get :: "(string \<times> json) list \<Rightarrow> string \<Rightarrow> json option" where
  "obj_get ms k = map_of (rev ms) k"

section \<open>Tokens\<close>

datatype token = LBrace | RBrace | LBracket | RBracket | Colon | Comma
  | TNull | TTrue | TFalse | TNum string | TStr string

definition quote_char :: char where "quote_char = CHR 0x22"
definition backslash :: char where "backslash = CHR 0x5C"

definition is_ws :: "char \<Rightarrow> bool" where
  "is_ws c \<longleftrightarrow> c = CHR '' '' \<or> c = CHR 0x09 \<or> c = CHR 0x0A \<or> c = CHR 0x0D"

definition num_char :: "char \<Rightarrow> bool" where
  "num_char c \<longleftrightarrow> is_dec_digit c \<or> c \<in> {CHR ''-'', CHR ''+'', CHR ''.'', CHR ''e'', CHR ''E''}"

text \<open>The grammar of numbers: sign, integer part, fraction, exponent.\<close>

definition skip_digits :: "string \<Rightarrow> string option" where
  "skip_digits s = (case s of
       c # cs \<Rightarrow> if is_dec_digit c then Some (dropWhile is_dec_digit cs) else None
     | [] \<Rightarrow> None)"

definition skip_sign :: "string \<Rightarrow> string" where
  "skip_sign s = (case s of c # cs \<Rightarrow> if c = CHR ''-'' then cs else s | [] \<Rightarrow> [])"

definition skip_int :: "string \<Rightarrow> string option" where
  "skip_int s = (case s of c # cs \<Rightarrow> if c = CHR ''0'' then Some cs else skip_digits s | [] \<Rightarrow> None)"

definition skip_frac :: "string \<Rightarrow> string option" where
  "skip_frac s = (case s of c # cs \<Rightarrow> if c = CHR ''.'' then skip_digits cs else Some s | [] \<Rightarrow> Some [])"

definition skip_exp :: "string \<Rightarrow> string option" where
  "skip_exp s = (case s of
       [] \<Rightarrow> Some []
     | c # cs \<Rightarrow>
         if c = CHR ''e'' \<or> c = CHR ''E'' then
           (case cs of
              d # ds \<Rightarrow> skip_digits (if d = CHR ''+'' \<or> d = CHR ''-'' then ds else cs)
            | [] \<Rightarrow> None)
         else Some s)"

definition valid_number :: "string \<Rightarrow> bool" where
  "valid_number s \<longleftrightarrow>
     Option.bind (Option.bind (skip_int (skip_sign s)) skip_frac) skip_exp = Some []"

section \<open>Strings\<close>

definition hexval :: "char \<Rightarrow> nat option" where
  "hexval c =
     (let n = (of_char c :: nat) in
      if 48 \<le> n \<and> n < 58 then Some (n - 48)
      else if 97 \<le> n \<and> n < 103 then Some (n - 87)
      else if 65 \<le> n \<and> n < 71 then Some (n - 55)
      else None)"

definition hex4 :: "string \<Rightarrow> (nat \<times> string) option" where
  "hex4 s =
     (case s of
        a # b # c # d # rest \<Rightarrow>
          (case (hexval a, hexval b, hexval c, hexval d) of
             (Some w, Some x, Some y, Some z) \<Rightarrow> Some (((w * 16 + x) * 16 + y) * 16 + z, rest)
           | _ \<Rightarrow> None)
      | _ \<Rightarrow> None)"

definition utf8 :: "nat \<Rightarrow> string" where
  "utf8 n =
     (if n < 128 then [char_of n]
      else if n < 2048 then [char_of (192 + n div 64), char_of (128 + n mod 64)]
      else if n < 65536 then
        [char_of (224 + n div 4096), char_of (128 + n div 64 mod 64), char_of (128 + n mod 64)]
      else [char_of (240 + n div 262144), char_of (128 + n div 4096 mod 64),
            char_of (128 + n div 64 mod 64), char_of (128 + n mod 64)])"

text \<open>The escape \<open>\u\<close>: surrogate pairs are joined, a lone surrogate becomes U+FFFD.\<close>

definition lex_unicode :: "string \<Rightarrow> (string \<times> string) option" where
  "lex_unicode s =
     (case hex4 s of
        None \<Rightarrow> None
      | Some (n, rest) \<Rightarrow>
          if 55296 \<le> n \<and> n < 57344 then
            (case rest of
               x # y # rest2 \<Rightarrow>
                 (case hex4 rest2 of
                    Some (m, rest3) \<Rightarrow>
                      if x = backslash \<and> y = CHR ''u'' \<and> n < 56320 \<and> 56320 \<le> m \<and> m < 57344
                      then Some (utf8 ((n - 55296) * 1024 + (m - 56320) + 65536), rest3)
                      else Some (utf8 65533, rest)
                  | None \<Rightarrow> Some (utf8 65533, rest))
             | _ \<Rightarrow> Some (utf8 65533, rest))
          else Some (utf8 n, rest))"

definition simple_escape :: "char \<Rightarrow> char option" where
  "simple_escape e =
     (if e = quote_char \<or> e = backslash \<or> e = CHR ''/'' then Some e
      else if e = CHR ''b'' then Some (CHR 0x08)
      else if e = CHR ''f'' then Some (CHR 0x0C)
      else if e = CHR ''n'' then Some (CHR 0x0A)
      else if e = CHR ''r'' then Some (CHR 0x0D)
      else if e = CHR ''t'' then Some (CHR 0x09)
      else None)"

definition lex_escape :: "string \<Rightarrow> (string \<times> string) option" where
  "lex_escape s =
     (case s of
        [] \<Rightarrow> None
      | e # rest \<Rightarrow>
          if e = CHR ''u'' then lex_unicode rest
          else map_option (\<lambda>c. ([c], rest)) (simple_escape e))"

lemma hex4_length: "hex4 s = Some (n, rest) \<Longrightarrow> length rest < length s"
  by (auto simp: hex4_def split: list.splits option.splits)

lemma lex_unicode_length: "lex_unicode s = Some (b, rest) \<Longrightarrow> length rest < length s"
  by (auto simp: lex_unicode_def dest!: hex4_length split: option.splits if_splits list.splits prod.splits)

lemma lex_escape_length: "lex_escape s = Some (b, rest) \<Longrightarrow> length rest < length s"
  by (auto simp: lex_escape_def dest!: lex_unicode_length split: list.splits if_splits)

text \<open>The text after an opening quote: the string read and what follows the closing quote.\<close>

function lex_str :: "string \<Rightarrow> string \<Rightarrow> (string \<times> string) option" where
  "lex_str [] acc = None"
| "lex_str (c # cs) acc =
     (if c = quote_char then Some (rev acc, cs)
      else if (of_char c :: nat) < 32 then None
      else if c \<noteq> backslash then lex_str cs (c # acc)
      else (case lex_escape cs of None \<Rightarrow> None | Some (b, rest) \<Rightarrow> lex_str rest (rev b @ acc)))"
  by pat_completeness auto
termination
  by (relation "measure (length \<circ> fst)") (auto dest: lex_escape_length)

lemma lex_str_length: "lex_str s acc = Some (x, rest) \<Longrightarrow> length rest < length s"
  by (induction s acc rule: lex_str.induct) (fastforce split: if_splits option.splits dest: lex_escape_length)+

section \<open>The scanner\<close>

function lex :: "string \<Rightarrow> token list option" where
  "lex [] = Some []"
| "lex (c # cs) =
     (if is_ws c then lex cs
      else if c = CHR ''{'' then map_option ((#) LBrace) (lex cs)
      else if c = CHR ''}'' then map_option ((#) RBrace) (lex cs)
      else if c = CHR ''['' then map_option ((#) LBracket) (lex cs)
      else if c = CHR '']'' then map_option ((#) RBracket) (lex cs)
      else if c = CHR '':'' then map_option ((#) Colon) (lex cs)
      else if c = CHR '','' then map_option ((#) Comma) (lex cs)
      else if c = quote_char then
        (case lex_str cs [] of None \<Rightarrow> None | Some (s, rest) \<Rightarrow> map_option ((#) (TStr s)) (lex rest))
      else if num_char c then
        (if valid_number (c # takeWhile num_char cs)
         then map_option ((#) (TNum (c # takeWhile num_char cs))) (lex (dropWhile num_char cs)) else None)
      else if HasPrefix (c # cs) ''true'' then map_option ((#) TTrue) (lex (drop 3 cs))
      else if HasPrefix (c # cs) ''false'' then map_option ((#) TFalse) (lex (drop 4 cs))
      else if HasPrefix (c # cs) ''null'' then map_option ((#) TNull) (lex (drop 3 cs))
      else None)"
  by pat_completeness auto
termination
  by (relation "measure length")
    (auto dest: lex_str_length simp: le_imp_less_Suc length_dropWhile_le)

section \<open>The parser\<close>

text \<open>
  A stack of open arrays and objects, each with the elements read so far (last first)
  and, for an object, the key whose value is being read; and what may come next.
\<close>

datatype frame = FArr "json list" | FObj "(string \<times> json) list" string

datatype mode = Val | FirstElem | FirstKey "(string \<times> json) list" | NextKey "(string \<times> json) list"
  | AfterKey "(string \<times> json) list" string | AfterValue json

type_synonym pstate = "frame list \<times> mode"

definition maxNestingDepth :: nat where
  "maxNestingDepth = 10000"

fun begin_value :: "frame list \<Rightarrow> token \<Rightarrow> pstate option" where
  "begin_value st LBrace = (if length st < maxNestingDepth then Some (st, FirstKey []) else None)"
| "begin_value st LBracket = (if length st < maxNestingDepth then Some (FArr [] # st, FirstElem) else None)"
| "begin_value st TNull = Some (st, AfterValue JNull)"
| "begin_value st TTrue = Some (st, AfterValue (JBool True))"
| "begin_value st TFalse = Some (st, AfterValue (JBool False))"
| "begin_value st (TNum n) = Some (st, AfterValue (JNum n))"
| "begin_value st (TStr s) = Some (st, AfterValue (JStr s))"
| "begin_value st _ = None"

fun pstep :: "pstate \<Rightarrow> token \<Rightarrow> pstate option" where
  "pstep (st, Val) t = begin_value st t"
| "pstep (FArr vs # st, FirstElem) t =
     (if t = RBracket then Some (st, AfterValue (JArr [])) else begin_value (FArr vs # st) t)"
| "pstep (st, FirstKey ms) t =
     (case t of RBrace \<Rightarrow> Some (st, AfterValue (JObj [])) | TStr k \<Rightarrow> Some (st, AfterKey ms k) | _ \<Rightarrow> None)"
| "pstep (st, NextKey ms) t = (case t of TStr k \<Rightarrow> Some (st, AfterKey ms k) | _ \<Rightarrow> None)"
| "pstep (st, AfterKey ms k) t = (if t = Colon then Some (FObj ms k # st, Val) else None)"
| "pstep (FArr vs # st, AfterValue v) t =
     (case t of Comma \<Rightarrow> Some (FArr (v # vs) # st, Val)
      | RBracket \<Rightarrow> Some (st, AfterValue (JArr (rev (v # vs)))) | _ \<Rightarrow> None)"
| "pstep (FObj ms k # st, AfterValue v) t =
     (case t of Comma \<Rightarrow> Some (st, NextKey ((k, v) # ms))
      | RBrace \<Rightarrow> Some (st, AfterValue (JObj (rev ((k, v) # ms)))) | _ \<Rightarrow> None)"
| "pstep _ t = None"

fun prun :: "pstate \<Rightarrow> token list \<Rightarrow> pstate option" where
  "prun p [] = Some p"
| "prun p (t # ts) = (case pstep p t of None \<Rightarrow> None | Some p' \<Rightarrow> prun p' ts)"

text \<open>\<open>json.Unmarshal\<close> into an empty interface; \<open>None\<close> is an error.\<close>

definition json_parse :: "string \<Rightarrow> json option" where
  "json_parse s =
     (case lex s of
        None \<Rightarrow> None
      | Some ts \<Rightarrow> (case prun ([], Val) ts of Some ([], AfterValue v) \<Rightarrow> Some v | _ \<Rightarrow> None))"


section \<open>The encoder\<close>

definition hex_char :: "nat \<Rightarrow> char" where
  "hex_char d = (if d < 10 then char_of (48 + d) else char_of (87 + d))"

text \<open>Go escapes quotes, backslashes, control characters and the HTML characters.\<close>

definition esc :: "char \<Rightarrow> string" where
  "esc c =
     (let n = (of_char c :: nat) in
      if c = quote_char \<or> c = backslash then [backslash, c]
      else if c = CHR 0x08 then [backslash, CHR ''b'']
      else if c = CHR 0x0C then [backslash, CHR ''f'']
      else if c = CHR 0x0A then [backslash, CHR ''n'']
      else if c = CHR 0x0D then [backslash, CHR ''r'']
      else if c = CHR 0x09 then [backslash, CHR ''t'']
      else if n < 32 \<or> c = CHR ''<'' \<or> c = CHR ''>'' \<or> c = CHR ''&'' then
        [backslash, CHR ''u'', CHR ''0'', CHR ''0'', hex_char (n div 16), hex_char (n mod 16)]
      else [c])"

definition quoted :: "string \<Rightarrow> string" where
  "quoted s = quote_char # concat (map esc s) @ [quote_char]"

fun sep_by :: "'a list \<Rightarrow> 'a list list \<Rightarrow> 'a list" where
  "sep_by sep [] = []"
| "sep_by sep [x] = x"
| "sep_by sep (x # y # xs) = x @ sep @ sep_by sep (y # xs)"

definition newline :: "string \<Rightarrow> nat \<Rightarrow> string" where
  "newline indent d = CHR 0x0A # concat (replicate d indent)"

text \<open>\<open>json.MarshalIndent\<close> with an empty prefix.\<close>

fun json_print :: "string \<Rightarrow> nat \<Rightarrow> json \<Rightarrow> string" where
  "json_print indent d JNull = ''null''"
| "json_print indent d (JBool b) = (if b then ''true'' else ''false'')"
| "json_print indent d (JNum n) = n"
| "json_print indent d (JStr s) = quoted s"
| "json_print indent d (JArr vs) =
     (if vs = [] then ''[]''
      else CHR ''['' # newline indent (Suc d)
        @ sep_by (CHR '','' # newline indent (Suc d)) (map (json_print indent (Suc d)) vs)
        @ newline indent d @ '']'')"
| "json_print indent d (JObj ms) =
     (if ms = [] then ''{}''
      else CHR ''{'' # newline indent (Suc d)
        @ sep_by (CHR '','' # newline indent (Suc d))
            (map (\<lambda>(k, v). quoted k @ '': '' @ json_print indent (Suc d) v) ms)
        @ newline indent d @ ''}'')"

section \<open>Reading back strings\<close>

lemma hexval_hex_char [simp]: "d < 16 \<Longrightarrow> hexval (hex_char d) = Some d"
  by (auto simp: hexval_def hex_char_def)

lemma lex_str_esc: "lex_str (esc c @ t) acc = lex_str t (c # acc)"
proof -
  let ?n = "of_char c :: nat"
  have esc: "lex_str (backslash # cs) acc =
      (case lex_escape cs of None \<Rightarrow> None | Some (b, rest) \<Rightarrow> lex_str rest (rev b @ acc))" for cs
    by (simp add: quote_char_def backslash_def)
  have u: "lex_escape (CHR ''u'' # CHR ''0'' # CHR ''0'' # hex_char (?n div 16) # hex_char (?n mod 16) # t)
      = Some ([c], t)" if "?n < 128"
  proof -
    have "hexval CHR ''0'' = Some 0" by (simp add: hexval_def)
    moreover have "?n div 16 < 16" "?n mod 16 < 16" using that by simp_all
    ultimately have "hex4 (CHR ''0'' # CHR ''0'' # hex_char (?n div 16) # hex_char (?n mod 16) # t) = Some (?n, t)"
      by (simp add: hex4_def)
    with that show ?thesis by (simp add: lex_escape_def lex_unicode_def utf8_def)
  qed
  show ?thesis
  proof (cases "?n < 32 \<or> c = CHR ''<'' \<or> c = CHR ''>'' \<or> c = CHR ''&''")
    case True
    then have "?n < 128" by auto
    with u True show ?thesis
      by (auto simp: esc_def Let_def esc lex_escape_def simple_escape_def quote_char_def backslash_def)
  next
    case False
    then show ?thesis
      by (auto simp: esc_def Let_def esc lex_escape_def simple_escape_def quote_char_def backslash_def)
  qed
qed

lemma lex_str_quoted: "lex_str (concat (map esc s) @ quote_char # rest) acc = Some (rev acc @ s, rest)"
  by (induction s arbitrary: acc) (simp_all add: lex_str_esc)


section \<open>Reading back tokens\<close>

fun toks :: "json \<Rightarrow> token list" where
  "toks JNull = [TNull]"
| "toks (JBool b) = [if b then TTrue else TFalse]"
| "toks (JNum n) = [TNum n]"
| "toks (JStr s) = [TStr s]"
| "toks (JArr vs) = LBracket # sep_by [Comma] (map toks vs) @ [RBracket]"
| "toks (JObj ms) = LBrace # sep_by [Comma] (map (\<lambda>(k, v). TStr k # Colon # toks v) ms) @ [RBrace]"

text \<open>A value whose numbers are valid number texts.\<close>

fun numbers_ok :: "json \<Rightarrow> bool" where
  "numbers_ok (JNum n) \<longleftrightarrow> valid_number n \<and> n \<noteq> [] \<and> (\<forall>c\<in>set n. num_char c)"
| "numbers_ok (JArr vs) \<longleftrightarrow> (\<forall>v\<in>set vs. numbers_ok v)"
| "numbers_ok (JObj ms) \<longleftrightarrow> (\<forall>(k, v)\<in>set ms. numbers_ok v)"
| "numbers_ok _ \<longleftrightarrow> True"

definition delimited :: "string \<Rightarrow> bool" where
  "delimited s \<longleftrightarrow> (case s of [] \<Rightarrow> True | c # _ \<Rightarrow> \<not> num_char c)"

definition lexes :: "string \<Rightarrow> token list \<Rightarrow> bool" where
  "lexes p ts \<longleftrightarrow> (\<forall>s. delimited s \<longrightarrow> lex (p @ s) = map_option ((@) ts) (lex s))"

lemma map_prepend:
  "map_option ((@) []) r = r"
  "map_option ((@) (a # xs)) r = map_option ((#) a) (map_option ((@) xs) r)"
  "map_option ((@) (xs @ ys)) r = map_option ((@) xs) (map_option ((@) ys) r)"
  by (cases r; simp)+

declare lex.simps(2) [simp del]

lemma lex_ws: "\<forall>c\<in>set w. is_ws c \<Longrightarrow> lex (w @ s) = lex s"
  by (induction w) (auto simp: lex.simps(2))

lemmas char_classes = is_ws_def num_char_def is_dec_digit_def quote_char_def

lemma lex_punct [simp]:
  "lex (CHR ''{'' # s) = map_option ((#) LBrace) (lex s)" "lex (CHR ''}'' # s) = map_option ((#) RBrace) (lex s)"
  "lex (CHR ''['' # s) = map_option ((#) LBracket) (lex s)" "lex (CHR '']'' # s) = map_option ((#) RBracket) (lex s)"
  "lex (CHR '':'' # s) = map_option ((#) Colon) (lex s)" "lex (CHR '','' # s) = map_option ((#) Comma) (lex s)"
  "lex (CHR '' '' # s) = lex s"
  by (simp_all add: lex.simps(2) char_classes)

lemma lex_quoted: "lex (quoted s @ rest) = map_option ((#) (TStr s)) (lex rest)"
  using lex_str_quoted [of s rest "[]"] by (simp add: quoted_def lex.simps(2) char_classes)

lemma lexes_number:
  assumes "valid_number n" and "n \<noteq> []" and "\<forall>c\<in>set n. num_char c"
  shows "lexes n [TNum n]"
proof -
  obtain c cs where n: "n = c # cs" using assms(2) by (cases n) auto
  have c: "num_char c" and cs: "\<forall>x\<in>set cs. num_char x" using assms(3) n by auto
  have "lex (n @ s) = map_option ((#) (TNum n)) (lex s)" if "delimited s" for s
  proof -
    have "takeWhile num_char (cs @ s) = cs" "dropWhile num_char (cs @ s) = s"
      using cs that by (auto simp: takeWhile_append2 delimited_def split: list.splits)
    moreover have "\<not> is_ws c" "c \<notin> {CHR ''{'', CHR ''}'', CHR ''['', CHR '']'', CHR '':'', CHR '','', quote_char}"
      using c by (auto simp: char_classes)
    ultimately show ?thesis using assms(1) c by (auto simp: n lex.simps(2))
  qed
  then show ?thesis by (simp add: lexes_def map_prepend)
qed

lemma lexes_literals: "lexes ''null'' [TNull]" "lexes ''true'' [TTrue]" "lexes ''false'' [TFalse]"
  by (auto simp: lexes_def lex.simps(2) char_classes HasPrefix_def map_prepend)

lemma lexes_sep:
  assumes "\<forall>x\<in>set xs. lexes (p x) (t x)" and "\<forall>c\<in>set w. is_ws c"
  shows "lexes (sep_by (CHR '','' # w) (map p xs)) (sep_by [Comma] (map t xs))"
  using assms(1)
proof (induction xs rule: induct_list012)
  case 1
  then show ?case by (simp add: lexes_def map_prepend)
next
  case (3 x y zs)
  then have x: "lexes (p x) (t x)" and rest: "lexes (sep_by (CHR '','' # w) (map p (y # zs))) (sep_by [Comma] (map t (y # zs)))"
    by simp_all
  have "lex (p x @ CHR '','' # w @ r) = map_option ((@) (t x @ [Comma])) (lex r)" for r
    using x lex_ws [OF assms(2)] by (simp add: lexes_def delimited_def num_char_def is_dec_digit_def map_prepend)
  with rest show ?case by (simp add: lexes_def map_prepend)
qed simp


lemma delimited_Nil: "delimited []"
  by (simp add: delimited_def)

lemma newline_ws: "\<forall>c\<in>set indent. is_ws c \<Longrightarrow> \<forall>c\<in>set (newline indent d). is_ws c"
  by (auto simp: newline_def is_ws_def)

lemma delimited_simps [simp]: "delimited (newline indent d @ s)"
  by (simp add: delimited_def newline_def char_classes)

lemma lexes_json_print:
  assumes "\<forall>c\<in>set indent. is_ws c"
  shows "numbers_ok v \<Longrightarrow> lexes (json_print indent d v) (toks v)"
proof (induction v arbitrary: d)
  case (JNum n)
  then show ?case by (simp add: lexes_number)
next
  case (JStr s)
  then show ?case by (simp add: lexes_def lex_quoted map_prepend)
next
  case (JArr vs)
  have "lexes (sep_by (CHR '','' # newline indent (Suc d)) (map (json_print indent (Suc d)) vs))
      (sep_by [Comma] (map toks vs))"
    using JArr newline_ws [OF assms] by (intro lexes_sep) auto
  then show ?case using lex_ws [OF newline_ws [OF assms]] by (simp add: lexes_def map_prepend)
next
  case (JObj ms)
  let ?p = "\<lambda>(k, v). quoted k @ '': '' @ json_print indent (Suc d) v"
    and ?t = "\<lambda>(k, v). TStr k # Colon # toks v"
  have "lexes (?p m) (?t m)" if "m \<in> set ms" for m
  proof -
    obtain k v where m: "m = (k, v)" by (cases m)
    with JObj that have "lexes (json_print indent (Suc d) v) (toks v)" by (fastforce simp: snds.simps)
    then show ?thesis by (simp add: m lexes_def lex_quoted map_prepend)
  qed
  then have "lexes (sep_by (CHR '','' # newline indent (Suc d)) (map ?p ms)) (sep_by [Comma] (map ?t ms))"
    using newline_ws [OF assms] by (intro lexes_sep) auto
  then show ?case using lex_ws [OF newline_ws [OF assms]] by (simp add: lexes_def map_prepend)
qed (simp_all add: lexes_literals)

section \<open>Reading back values\<close>

fun depth :: "json \<Rightarrow> nat" where
  "depth (JArr vs) = Suc (foldr max (map depth vs) 0)"
| "depth (JObj ms) = Suc (foldr max (map (\<lambda>(k, v). depth v) ms) 0)"
| "depth _ = 0"

lemma foldr_max_ge: "x \<in> set xs \<Longrightarrow> x \<le> foldr max xs (0::nat)"
  by (induction xs) auto

definition parses :: "json \<Rightarrow> bool" where
  "parses v \<longleftrightarrow> (\<forall>st ts. length st + depth v \<le> maxNestingDepth \<longrightarrow>
     prun (st, Val) (toks v @ ts) = prun (st, AfterValue v) ts)"

lemma prun_elements:
  assumes "vs \<noteq> []" and "\<forall>v\<in>set vs. parses v \<and> length st + 1 + depth v \<le> maxNestingDepth"
  shows "prun (FArr acc # st, Val) (sep_by [Comma] (map toks vs) @ RBracket # ts)
    = prun (st, AfterValue (JArr (rev acc @ vs))) ts"
  using assms
proof (induction vs arbitrary: acc rule: induct_list012)
  case (3 x y zs)
  then have "prun (FArr acc # st, Val) (toks x @ Comma # r) = prun (FArr (x # acc) # st, Val) r" for r
    by (simp add: parses_def)
  with 3 show ?case by simp
qed (simp_all add: parses_def)

lemma prun_members:
  assumes "ms \<noteq> []" and "\<forall>(k, v)\<in>set ms. parses v \<and> length st + 1 + depth v \<le> maxNestingDepth"
    and "mode = NextKey acc \<or> mode = FirstKey acc"
  shows "prun (st, mode) (sep_by [Comma] (map (\<lambda>(k, v). TStr k # Colon # toks v) ms) @ RBrace # ts)
    = prun (st, AfterValue (JObj (rev acc @ ms))) ts"
  using assms
proof (induction ms arbitrary: acc mode rule: induct_list012)
  case (2 m)
  then show ?case by (cases m) (auto simp: parses_def)
next
  case (3 m m' zs)
  obtain k v where m: "m = (k, v)" by (cases m)
  from 3 m have "prun (st, mode) (TStr k # Colon # toks v @ Comma # r) = prun (st, NextKey ((k, v) # acc)) r" for r
    by (auto simp: parses_def)
  with 3 m show ?case by simp
qed simp

lemma toks_first: "\<exists>t ts. toks v = t # ts \<and> t \<noteq> RBracket"
  by (cases v) auto

lemma parses_all: "parses v"
proof (induction v)
  case (JArr vs)
  have "prun (st, Val) (toks (JArr vs) @ ts) = prun (st, AfterValue (JArr vs)) ts"
    if d: "length st + depth (JArr vs) \<le> maxNestingDepth" for st ts
  proof (cases vs)
    case (Cons v vs')
    have ok: "\<forall>v\<in>set vs. parses v \<and> length st + 1 + depth v \<le> maxNestingDepth"
      using JArr d foldr_max_ge [of _ "map depth vs"] by fastforce
    obtain t r where "toks v = t # r" "t \<noteq> RBracket" using toks_first by blast
    then obtain r' where "sep_by [Comma] (map toks vs) = t # r'" using Cons by (cases vs') auto
    with \<open>t \<noteq> RBracket\<close> prun_elements [of vs st "[]" ts] ok d Cons show ?thesis by simp
  qed (use d in simp)
  then show ?case by (simp add: parses_def)
next
  case (JObj ms)
  have "prun (st, Val) (toks (JObj ms) @ ts) = prun (st, AfterValue (JObj ms)) ts"
    if d: "length st + depth (JObj ms) \<le> maxNestingDepth" for st ts
  proof (cases "ms = []")
    case False
    have "\<forall>(k, v)\<in>set ms. parses v \<and> length st + 1 + depth v \<le> maxNestingDepth"
      using JObj d foldr_max_ge [of _ "map (\<lambda>(k, v). depth v) ms"] by (fastforce simp: snds.simps)
    from prun_members [OF False this, of "FirstKey []" "[]" ts] d show ?thesis by simp
  qed (use d in simp)
  then show ?case by (simp add: parses_def)
qed (auto simp: parses_def)

lemma json_parse_print:
  assumes "\<forall>c\<in>set indent. is_ws c" and "numbers_ok v" and "depth v \<le> maxNestingDepth"
  shows "json_parse (json_print indent 0 v) = Some v"
proof -
  have "lex (json_print indent 0 v @ []) = map_option ((@) (toks v)) (lex [])"
    using lexes_json_print [OF assms(1,2), of 0] delimited_Nil unfolding lexes_def by blast
  then have "lex (json_print indent 0 v) = Some (toks v)" by simp
  moreover have "length ([] :: frame list) + depth v \<le> maxNestingDepth" using assms(3) by simp
  then have "prun ([], Val) (toks v @ []) = prun ([], AfterValue v) []"
    using parses_all [of v] unfolding parses_def by blast
  then have "prun ([], Val) (toks v) = Some ([], AfterValue v)" by simp
  ultimately show ?thesis by (simp add: json_parse_def)
qed


section \<open>Integers\<close>

lemma hd_dec_nat_nonzero: "0 < n \<Longrightarrow> hd (dec_nat n) \<noteq> CHR ''0''"
proof (induction n rule: dec_nat.induct)
  case (1 n)
  show ?case
  proof (cases "n < 10")
    case True
    have "digit_char n \<noteq> CHR ''0''"
    proof
      assume "digit_char n = CHR ''0''"
      then have "(of_char (digit_char n) :: nat) = 48" by simp
      with True "1.prems" show False by simp
    qed
    with True show ?thesis by (subst dec_nat.simps) simp
  next
    case False
    with 1 have "hd (dec_nat (n div 10)) \<noteq> CHR ''0''" by simp
    with False show ?thesis by (subst dec_nat.simps) simp
  qed
qed

lemma skip_int_dec_nat: "skip_int (dec_nat n) = Some []"
proof (cases "n = 0")
  case True
  have "digit_char 0 = CHR ''0''" by code_simp
  with True show ?thesis by (subst dec_nat.simps) (simp add: skip_int_def)
next
  case False
  obtain c cs where d: "dec_nat n = c # cs" by (cases "dec_nat n") auto
  have "c \<noteq> CHR ''0''" using hd_dec_nat_nonzero [of n] False d by simp
  moreover have "is_dec_digit c" "\<forall>x\<in>set cs. is_dec_digit x" using dec_nat_digits [of _ n] d by auto
  moreover have "dropWhile is_dec_digit cs = []" using \<open>\<forall>x\<in>set cs. is_dec_digit x\<close> by simp
  ultimately show ?thesis
    by (simp add: d skip_int_def skip_digits_def)
qed

lemma numbers_ok_fmt_d [simp]: "numbers_ok (JNum (fmt_d i))"
proof -
  have "num_char c" if "c \<in> set (fmt_d i)" for c
    using fmt_d_chars [OF that] by (auto simp: num_char_def)
  moreover have "valid_number (fmt_d i)"
  proof (cases "i < 0")
    case True
    then show ?thesis
      by (simp add: valid_number_def fmt_d_def skip_sign_def skip_int_dec_nat skip_frac_def skip_exp_def)
  next
    case False
    obtain c cs where d: "dec_nat (nat i) = c # cs" by (cases "dec_nat (nat i)") auto
    have "skip_sign (c # cs) = c # cs"
      using hd_dec_nat_not_sign [OF d] by (simp add: skip_sign_def)
    with False d skip_int_dec_nat [of "nat i"] show ?thesis
      by (simp add: valid_number_def fmt_d_def skip_frac_def skip_exp_def)
  qed
  ultimately show ?thesis by simp
qed

end
