(* ===== verification/JGF.thy ===== *)
theory JGF
  imports Group_Labels JSON
begin

text \<open>
  \<open>src/fluence/jgf\<close>: the JSON Graph Format resource graph handed to Fluxion. The five
  operations that add a vertex share the contract \<open>vertex_maker\<close>; the graph invariant
  says that vertices carry the ids 0, 1, 2, \<dots>, that the node map holds exactly the
  vertices, and that edges join vertices of the graph and come in both directions.
\<close>

section \<open>types.go\<close>

record nodeMetadata =
  md_Type :: string
  Basename :: string
  md_Name :: string
  md_Id :: int64
  Uniq_id :: int64
  Rank :: int64
  Exclusive :: bool
  Unit :: string
  Size :: int64
  Paths :: "(string \<times> string) list"

record Node =
  node_Id :: string
  node_Label :: string
  Metadata :: nodeMetadata

record edge =
  Source :: string
  Relation :: string
  Target :: string
  e_Directed :: bool
  Subsystem :: string

record graph =
  Nodes :: "Node list"
  Edges :: "edge list"
  g_Directed :: bool

record ResourceCounter =
  counts :: "string \<rightharpoonup> int64"
  Elements :: int64
  RootName :: string

record FluxJGF =
  Graph :: graph
  NodeMap :: "string \<rightharpoonup> Node"
  Resources :: ResourceCounter

record ResourceCount =
  rc_Name :: string
  rc_Type :: string
  ElementId :: int64
  Index :: int64

definition NameWithIndex :: "ResourceCount \<Rightarrow> string" where
  "NameWithIndex r = rc_Name r @ fmt_d (Index r)"

definition StringElementId :: "ResourceCount \<Rightarrow> string" where
  "StringElementId r = fmt_d (ElementId r)"

definition StringResourceIndex :: "ResourceCount \<Rightarrow> string" where
  "StringResourceIndex r = fmt_d (Index r)"

text \<open>The counter's methods change the counter and return an index.\<close>

definition NextIndex :: "ResourceCounter \<Rightarrow> int64 \<times> ResourceCounter" where
  "NextIndex r = (let nextIndex = Elements r in (nextIndex, r\<lparr>Elements := wrap64 (nextIndex + 1)\<rparr>))"

definition NextResourceIndex :: "ResourceCounter \<Rightarrow> string \<Rightarrow> int64 \<times> ResourceCounter" where
  "NextResourceIndex r resourceType =
     (let nextIndex = (case counts r resourceType of None \<Rightarrow> 0 | Some i \<Rightarrow> i)
      in (nextIndex, r\<lparr>counts := (counts r)(resourceType \<mapsto> wrap64 (nextIndex + 1))\<rparr>))"

definition getCounter :: "ResourceCounter \<Rightarrow> string \<Rightarrow> string \<Rightarrow> ResourceCount \<times> ResourceCounter" where
  "getCounter r resourceName resourceType =
     (let (idx, r1) = NextResourceIndex r resourceName;
          (el, r2) = NextIndex r1
      in (\<lparr>rc_Name = resourceName, rc_Type = resourceType, ElementId = el, Index = idx\<rparr>, r2))"

section \<open>jgf.go\<close>

definition defaultExclusive :: bool where "defaultExclusive = False"
definition defaultRank :: int64 where "defaultRank = -1"
definition defaultSize :: int64 where "defaultSize = 1"
definition defaultUnit :: string where "defaultUnit = ''''"
definition ContainsRelation :: string where "ContainsRelation = ''contains''"
definition InRelation :: string where "InRelation = ''in''"
definition ClusterType :: string where "ClusterType = ''cluster''"
definition NodeType :: string where "NodeType = ''node''"
definition CoreType :: string where "CoreType = ''core''"
definition SubnetType :: string where "SubnetType = ''subnet''"
definition MemoryType :: string where "MemoryType = ''memory''"
definition NvidiaGPU :: string where "NvidiaGPU = ''nvidiagpu''"
definition GPUType :: string where "GPUType = ''gpu''"
definition containmentKey :: string where "containmentKey = ''containment''"

lemmas vertex_types = ClusterType_def NodeType_def CoreType_def SubnetType_def MemoryType_def GPUType_def

definition NewFluxJGF :: FluxJGF where
  "NewFluxJGF =
     \<lparr>Graph = \<lparr>Nodes = [], Edges = [], g_Directed = False\<rparr>,
      NodeMap = Map.empty,
      Resources = \<lparr>counts = [''cluster'' \<mapsto> 1], Elements = 0, RootName = ''''\<rparr>\<rparr>"

definition getNodePath :: "string \<Rightarrow> string \<Rightarrow> string" where
  "getNodePath root subpath =
     path_Clean (if subpath = '''' then ''/'' @ root else ''/'' @ root @ ''/'' @ subpath)"

definition getContainmentPath :: "FluxJGF \<Rightarrow> string \<Rightarrow> (string \<times> string) list" where
  "getContainmentPath g subpath = [(containmentKey, getNodePath (RootName (Resources g)) subpath)]"

definition MakeEdge :: "FluxJGF \<Rightarrow> string \<Rightarrow> string \<Rightarrow> string \<Rightarrow> FluxJGF" where
  "MakeEdge g source target rel =
     (let newedge = \<lparr>Source = source, Relation = '''', Target = target, e_Directed = False,
                     Subsystem = containmentKey\<rparr>
      in g\<lparr>Graph := (Graph g)\<lparr>Edges := Edges (Graph g) @ [newedge]\<rparr>\<rparr>)"

definition MakeBidirectionalEdge :: "FluxJGF \<Rightarrow> string \<Rightarrow> string \<Rightarrow> FluxJGF" where
  "MakeBidirectionalEdge g parent child =
     MakeEdge (MakeEdge g parent child ContainsRelation) child parent InRelation"

definition makeNewNode ::
    "FluxJGF \<Rightarrow> ResourceCount \<Rightarrow> string \<Rightarrow> string \<Rightarrow> int64 \<Rightarrow> Node \<times> FluxJGF" where
  "makeNewNode g resource subpath unit sz =
     (let newNode =
        \<lparr>node_Id = StringElementId resource, node_Label = '''',
         Metadata = \<lparr>md_Type = rc_Type resource, Basename = rc_Name resource,
           md_Name = NameWithIndex resource, md_Id = Index resource, Uniq_id = ElementId resource,
           Rank = defaultRank, Exclusive = defaultExclusive, Unit = unit, Size = sz,
           Paths = getContainmentPath g subpath\<rparr>\<rparr>
      in (newNode,
          g\<lparr>Graph := (Graph g)\<lparr>Nodes := Nodes (Graph g) @ [newNode]\<rparr>,
            NodeMap := (NodeMap g)(node_Id newNode \<mapsto> newNode)\<rparr>))"

definition MakeSubnet :: "FluxJGF \<Rightarrow> string \<Rightarrow> int64 \<Rightarrow> Node \<times> FluxJGF" where
  "MakeSubnet g name index =
     (let (resource0, rs) = getCounter (Resources g) name SubnetType;
          resource = resource0\<lparr>Index := index\<rparr>;
          subpath = NameWithIndex resource
      in makeNewNode (g\<lparr>Resources := rs\<rparr>) resource subpath defaultUnit defaultSize)"

definition MakeNode :: "FluxJGF \<Rightarrow> string \<Rightarrow> string \<Rightarrow> int64 \<Rightarrow> Node \<times> FluxJGF" where
  "MakeNode g name subpath index =
     (let (resource0, rs) = getCounter (Resources g) name NodeType;
          resource = resource0\<lparr>Index := index\<rparr>;
          subpath' = subpath @ ''/'' @ NameWithIndex resource
      in makeNewNode (g\<lparr>Resources := rs\<rparr>) resource subpath' defaultUnit defaultSize)"

definition MakeCore :: "FluxJGF \<Rightarrow> string \<Rightarrow> string \<Rightarrow> int64 \<Rightarrow> Node \<times> FluxJGF" where
  "MakeCore g name subpath index =
     (let (resource0, rs) = getCounter (Resources g) name CoreType;
          resource = resource0\<lparr>Index := index\<rparr>;
          subpath' = subpath @ ''/'' @ NameWithIndex resource
      in makeNewNode (g\<lparr>Resources := rs\<rparr>) resource subpath' defaultUnit defaultSize)"

definition MakeMemory :: "FluxJGF \<Rightarrow> string \<Rightarrow> string \<Rightarrow> int64 \<Rightarrow> int64 \<Rightarrow> Node \<times> FluxJGF" where
  "MakeMemory g name subpath sz index =
     (let unit = ''MB'';
          (resource0, rs) = getCounter (Resources g) name MemoryType;
          resource = resource0\<lparr>Index := index\<rparr>;
          subpath' = subpath @ ''/'' @ NameWithIndex resource
      in makeNewNode (g\<lparr>Resources := rs\<rparr>) resource subpath' unit sz)"

definition MakeGPU :: "FluxJGF \<Rightarrow> string \<Rightarrow> string \<Rightarrow> int64 \<Rightarrow> int64 \<Rightarrow> Node \<times> FluxJGF" where
  "MakeGPU g name subpath sz index =
     (let (resource0, rs) = getCounter (Resources g) name GPUType;
          resource = resource0\<lparr>Index := index\<rparr>;
          subpath' = subpath @ ''/'' @ NameWithIndex resource
      in makeNewNode (g\<lparr>Resources := rs\<rparr>) resource subpath' defaultUnit sz)"

definition InitCluster :: "FluxJGF \<Rightarrow> string \<Rightarrow> (Node \<times> FluxJGF) result" where
  "InitCluster g name =
     (if Elements (Resources g) > 0 then Inl (Err ''init can only be called for a new cluster'')
      else let (resource, rs) =
                 getCounter ((Resources g)\<lparr>RootName := name @ ''0''\<rparr>) name ClusterType
           in Inr (makeNewNode (g\<lparr>Resources := rs\<rparr>) resource '''' defaultUnit defaultSize))"


section \<open>The JSON form of the graph\<close>

text \<open>
  The struct tags of \<open>types.go\<close>: the names of the members, and \<open>omitempty\<close>. A nil slice
  is written as null; a slice of the graph is nil until something is appended. The
  keys of a map are written in order.
\<close>

definition omitempty :: "string \<Rightarrow> string \<Rightarrow> (string \<times> json) list" where
  "omitempty k s = (if s = '''' then [] else [(k, JStr s)])"

definition slice_json :: "('a \<Rightarrow> json) \<Rightarrow> 'a list \<Rightarrow> json" where
  "slice_json f xs = (if xs = [] then JNull else JArr (map f xs))"

definition nodeMetadata_json :: "nodeMetadata \<Rightarrow> json" where
  "nodeMetadata_json m = JObj (
     [(''type'', JStr (md_Type m)), (''basename'', JStr (Basename m)), (''name'', JStr (md_Name m)),
      (''id'', JNum (fmt_d (md_Id m))), (''uniq_id'', JNum (fmt_d (Uniq_id m)))]
     @ (if Rank m = 0 then [] else [(''rank'', JNum (fmt_d (Rank m)))])
     @ [(''exclusive'', JBool (Exclusive m)), (''unit'', JStr (Unit m)), (''size'', JNum (fmt_d (Size m)))]
     @ (if Paths m = [] then []
        else [(''paths'', JObj (map (\<lambda>(k, v). (k, JStr v)) (sort_key fst (Paths m))))]))"

definition Node_json :: "Node \<Rightarrow> json" where
  "Node_json n = JObj ([(''id'', JStr (node_Id n))] @ omitempty ''label'' (node_Label n)
     @ [(''metadata'', nodeMetadata_json (Metadata n))])"

definition edge_json :: "edge \<Rightarrow> json" where
  "edge_json e = JObj ([(''source'', JStr (Source e))] @ omitempty ''relation'' (Relation e)
     @ [(''target'', JStr (Target e))] @ (if e_Directed e then [(''directed'', JBool True)] else [])
     @ [(''metadata'', JObj (omitempty ''subsystem'' (Subsystem e)))])"

definition graph_json :: "graph \<Rightarrow> json" where
  "graph_json g = JObj ([(''nodes'', slice_json Node_json (Nodes g)), (''edges'', slice_json edge_json (Edges g))]
     @ (if g_Directed g then [(''directed'', JBool True)] else []))"

definition FluxJGF_json :: "FluxJGF \<Rightarrow> json" where
  "FluxJGF_json g = JObj [(''graph'', graph_json (Graph g))]"

text \<open>\<open>ToJson\<close> indents the bare graph by tabs, \<open>WriteJGF\<close> the whole value by two spaces.\<close>

definition ToJson :: "FluxJGF \<Rightarrow> string" where
  "ToJson g = json_print [CHR 0x09] 0 (graph_json (Graph g))"

definition encodedJGF :: "FluxJGF \<Rightarrow> string" where
  "encodedJGF g = json_print ''  '' 0 (FluxJGF_json g)"

lemmas json_defs = FluxJGF_json_def graph_json_def slice_json_def Node_json_def edge_json_def
  nodeMetadata_json_def omitempty_def

lemma numbers_ok_FluxJGF: "numbers_ok (FluxJGF_json g)"
  using numbers_ok_fmt_d by (auto simp: json_defs simp del: numbers_ok.simps(1))

lemma foldr_max_le: "\<forall>x\<in>set xs. x \<le> b \<Longrightarrow> foldr max xs (0::nat) \<le> b"
  by (induction xs) auto

lemma depth_nodeMetadata: "depth (nodeMetadata_json m) \<le> 2"
proof -
  have "foldr max (map (\<lambda>(k, v). depth v) (map (\<lambda>(k, v). (k, JStr v)) xs)) 0 = 0"
    for xs :: "(string \<times> string) list"
    by (induction xs) auto
  then show ?thesis by (simp add: nodeMetadata_json_def o_def split_def)
qed

lemma depth_Node: "depth (Node_json n) \<le> 3"
  using depth_nodeMetadata [of "Metadata n"] by (simp add: Node_json_def omitempty_def)

lemma depth_edge: "depth (edge_json e) \<le> 2"
  by (simp add: edge_json_def omitempty_def)

lemma depth_slice: "\<forall>x\<in>set xs. depth (f x) \<le> b \<Longrightarrow> depth (slice_json f xs) \<le> Suc b"
  by (simp add: slice_json_def foldr_max_le)

lemma depth_FluxJGF: "depth (FluxJGF_json g) \<le> maxNestingDepth"
proof -
  have "depth (slice_json Node_json (Nodes (Graph g))) \<le> 4" "depth (slice_json edge_json (Edges (Graph g))) \<le> 4"
    using depth_slice [of "Nodes (Graph g)" Node_json 3] depth_slice [of "Edges (Graph g)" edge_json 3]
      depth_Node depth_edge by (fastforce intro: order_trans)+
  then show ?thesis by (simp add: FluxJGF_json_def graph_json_def maxNestingDepth_def)
qed

lemma encodedJGF_parse: "json_parse (encodedJGF g) = Some (FluxJGF_json g)"
  unfolding encodedJGF_def
  by (rule json_parse_print) (simp_all add: is_ws_def numbers_ok_FluxJGF depth_FluxJGF)

section \<open>The graph invariant\<close>

definition ids :: "FluxJGF \<Rightarrow> string list" where
  "ids g = map node_Id (Nodes (Graph g))"

definition number_of :: "string \<Rightarrow> FluxJGF \<Rightarrow> nat" where
  "number_of ty g = length (filter (\<lambda>n. md_Type (Metadata n) = ty) (Nodes (Graph g)))"

definition vertex_kinds :: "string set" where
  "vertex_kinds = {ClusterType, SubnetType, NodeType, GPUType, CoreType, MemoryType}"

definition edges_ok :: "FluxJGF \<Rightarrow> bool" where
  "edges_ok g \<longleftrightarrow>
     (\<forall>e\<in>set (Edges (Graph g)). Source e \<in> set (ids g) \<and> Target e \<in> set (ids g)
        \<and> (\<exists>e'\<in>set (Edges (Graph g)). Source e' = Target e \<and> Target e' = Source e))"

definition jgf_inv :: "FluxJGF \<Rightarrow> bool" where
  "jgf_inv g \<longleftrightarrow>
     Elements (Resources g) = wrap64 (int (length (Nodes (Graph g))))
   \<and> ids g = map (\<lambda>i. fmt_d (wrap64 (int i))) [0..<length (Nodes (Graph g))]
   \<and> map (\<lambda>n. Uniq_id (Metadata n)) (Nodes (Graph g)) = map (\<lambda>i. wrap64 (int i)) [0..<length (Nodes (Graph g))]
   \<and> NodeMap g = map_of (rev (map (\<lambda>n. (node_Id n, n)) (Nodes (Graph g))))
   \<and> edges_ok g"

lemma jgf_inv_NewFluxJGF: "jgf_inv NewFluxJGF"
  by (simp add: jgf_inv_def NewFluxJGF_def ids_def edges_ok_def in_int64_def)

text \<open>What adding a vertex does, whatever operation adds it.\<close>

definition adds_vertex :: "string \<Rightarrow> FluxJGF \<Rightarrow> Node \<Rightarrow> FluxJGF \<Rightarrow> bool" where
  "adds_vertex ty g n g' \<longleftrightarrow>
     Nodes (Graph g') = Nodes (Graph g) @ [n] \<and> Edges (Graph g') = Edges (Graph g)
   \<and> NodeMap g' = (NodeMap g)(node_Id n \<mapsto> n)
   \<and> Elements (Resources g') = wrap64 (Elements (Resources g) + 1)
   \<and> md_Type (Metadata n) = ty
   \<and> node_Id n = fmt_d (Elements (Resources g)) \<and> Uniq_id (Metadata n) = Elements (Resources g)"

lemma adds_vertex_ids: "adds_vertex ty g n g' \<Longrightarrow> ids g' = ids g @ [node_Id n]"
  by (simp add: adds_vertex_def ids_def)

lemma adds_vertex_inv:
  assumes "jgf_inv g" and "adds_vertex ty g n g'"
  shows "jgf_inv g'"
proof -
  have "wrap64 (wrap64 (int k) + 1) = wrap64 (int (Suc k))" for k
    using wrap64_add_wrap [of "int k" 1] by (simp add: add.commute)
  with assms adds_vertex_ids [OF assms(2)] show ?thesis
    by (auto simp: jgf_inv_def adds_vertex_def edges_ok_def)
qed

lemma adds_vertex_number:
  "adds_vertex ty g n g' \<Longrightarrow> number_of t g' = number_of t g + (if t = ty then 1 else 0)"
  by (auto simp: adds_vertex_def number_of_def)

lemma MakeBidirectionalEdge_simps [simp]:
  "Nodes (Graph (MakeBidirectionalEdge g p c)) = Nodes (Graph g)"
  "NodeMap (MakeBidirectionalEdge g p c) = NodeMap g"
  "Resources (MakeBidirectionalEdge g p c) = Resources g"
  "ids (MakeBidirectionalEdge g p c) = ids g"
  "number_of t (MakeBidirectionalEdge g p c) = number_of t g"
  by (simp_all add: MakeBidirectionalEdge_def MakeEdge_def ids_def number_of_def Let_def)

lemma MakeBidirectionalEdge_edges:
  "Edges (Graph (MakeBidirectionalEdge g p c)) = Edges (Graph g) @
     [\<lparr>Source = p, Relation = '''', Target = c, e_Directed = False, Subsystem = containmentKey\<rparr>,
      \<lparr>Source = c, Relation = '''', Target = p, e_Directed = False, Subsystem = containmentKey\<rparr>]"
  by (simp add: MakeBidirectionalEdge_def MakeEdge_def Let_def)

lemma MakeBidirectionalEdge_inv:
  assumes "jgf_inv g" and "p \<in> set (ids g)" and "c \<in> set (ids g)"
  shows "jgf_inv (MakeBidirectionalEdge g p c)"
proof -
  have "edges_ok g" using assms(1) by (simp add: jgf_inv_def)
  have "edges_ok (MakeBidirectionalEdge g p c)"
    using assms(2,3) \<open>edges_ok g\<close> by (auto simp: edges_ok_def MakeBidirectionalEdge_edges)
  with assms(1) show ?thesis by (simp add: jgf_inv_def)
qed

section \<open>The contract of the vertex operations\<close>

locale vertex_maker =
  fixes mk :: "FluxJGF \<Rightarrow> int64 \<Rightarrow> Node \<times> FluxJGF"
    and ty :: string
  assumes mk_adds: "mk g i = (n, g') \<Longrightarrow> adds_vertex ty g n g'"
    and mk_index: "mk g i = (n, g') \<Longrightarrow> md_Id (Metadata n) = i"
    and mk_root: "mk g i = (n, g') \<Longrightarrow> RootName (Resources g') = RootName (Resources g)"
    and mk_kind: "ty \<in> vertex_kinds"
begin

lemma mk_inv: "jgf_inv g \<Longrightarrow> mk g i = (n, g') \<Longrightarrow> jgf_inv g'"
  by (rule adds_vertex_inv [OF _ mk_adds])

text \<open>Adding a vertex and joining it to a vertex of the graph.\<close>

lemma attach_inv:
  assumes "jgf_inv g" and "parent \<in> set (ids g)" and "mk g i = (n, g')"
  shows "jgf_inv (MakeBidirectionalEdge g' parent (node_Id n))"
  using assms adds_vertex_ids [OF mk_adds [OF assms(3)]] mk_inv [OF assms(1,3)]
  by (intro MakeBidirectionalEdge_inv) auto

end

text \<open>An operation below a parent: the containment path extends the parent's.\<close>

locale child_maker = vertex_maker mk ty for mk :: "FluxJGF \<Rightarrow> int64 \<Rightarrow> Node \<times> FluxJGF" and ty +
  fixes parent_path :: string and base :: string
  assumes mk_name: "mk g i = (n, g') \<Longrightarrow> md_Name (Metadata n) = base @ fmt_d i"
    and mk_path: "mk g i = (n, g') \<Longrightarrow>
      map_of (Paths (Metadata n)) containmentKey
        = Some (getNodePath (RootName (Resources g)) (parent_path @ ''/'' @ base @ fmt_d i))"
begin

text \<open>For plain path elements the path is the elements joined by slashes.\<close>

lemma mk_plain_path:
  assumes "mk g i = (n, g')" and "parent_path = Join es ''/''" and "es \<noteq> []"
    and "\<forall>e\<in>set (RootName (Resources g) # es). plain_elem e" and "slash_free base"
  shows "map_of (Paths (Metadata n)) containmentKey
    = Some (''/'' @ Join (RootName (Resources g) # es @ [base @ fmt_d i]) ''/'')"
proof -
  let ?r = "RootName (Resources g)" and ?c = "base @ fmt_d i"
  have snoc: "Join (es @ [x]) ''/'' = Join es ''/'' @ ''/'' @ x" for x
    using assms(3) by (induction es rule: induct_list012) simp_all
  have cons: "Join (?r # es @ [?c]) ''/'' = ?r @ ''/'' @ Join (es @ [?c]) ''/''"
    using assms(3) by (cases es) simp_all
  have "plain_elem ?c" using assms(5) by (simp add: slash_free_def indexed_name_plain)
  with assms(4) have "path_Clean (''/'' @ Join (?r # es @ [?c]) ''/'') = ''/'' @ Join (?r # es @ [?c]) ''/''"
    by (intro path_Clean_plain) auto
  with mk_path [OF assms(1)] show ?thesis
    by (simp add: getNodePath_def assms(2) cons snoc)
qed

end

lemmas make_defs = getCounter_def NextResourceIndex_def NextIndex_def makeNewNode_def
  StringElementId_def NameWithIndex_def getContainmentPath_def Let_def adds_vertex_def

interpretation mk_subnet: vertex_maker "\<lambda>g i. MakeSubnet g name i" SubnetType for name
  by unfold_locales (auto simp: MakeSubnet_def make_defs vertex_kinds_def)

interpretation mk_node: child_maker "\<lambda>g i. MakeNode g name subpath i" NodeType subpath name for name subpath
  by unfold_locales (auto simp: MakeNode_def make_defs vertex_kinds_def)

interpretation mk_core: child_maker "\<lambda>g i. MakeCore g name subpath i" CoreType subpath name for name subpath
  by unfold_locales (auto simp: MakeCore_def make_defs vertex_kinds_def)

interpretation mk_memory: child_maker "\<lambda>g i. MakeMemory g name subpath sz i" MemoryType subpath name
  for name subpath sz
  by unfold_locales (auto simp: MakeMemory_def make_defs vertex_kinds_def)

interpretation mk_gpu: child_maker "\<lambda>g i. MakeGPU g name subpath sz i" GPUType subpath name
  for name subpath sz
  by unfold_locales (auto simp: MakeGPU_def make_defs vertex_kinds_def)

lemma InitCluster_adds:
  assumes "InitCluster g name = Inr (n, g')"
  shows "adds_vertex ClusterType g n g'" and "Elements (Resources g) \<le> 0"
    and "RootName (Resources g') = name @ ''0''"
  using assms by (auto simp: InitCluster_def make_defs split: if_splits)

end
