(* ===== verification/Resource_JSON.thy ===== *)
theory Resource_JSON
  imports K8s_Types JGF
begin

text \<open>
  The resources of \<open>apis/scheduling/v1alpha1/types.go\<close> as a client and the API server exchange them: the
  JSON form that the struct tags give to \<open>PodGroup\<close> and \<open>ElasticQuota\<close> and their lists, and
  the decoding of it. The forms of the metadata, of quantities and of times belong to other
  packages and are the fields of the record \<open>resource_lib\<close>.
\<close>

section \<open>Fields\<close>

text \<open>A member that is absent or null leaves a field at its zero value.\<close>

definition json_field :: "(json \<Rightarrow> 'a option) \<Rightarrow> 'a \<Rightarrow> (string \<times> json) list \<Rightarrow> string \<Rightarrow> 'a option" where
  "json_field dec zero ms k = (case obj_get ms k of
     None \<Rightarrow> Some zero
   | Some v \<Rightarrow> if v = JNull then Some zero else dec v)"

fun string_of_json :: "json \<Rightarrow> string option" where
  "string_of_json (JStr s) = Some s"
| "string_of_json _ = None"

fun int32_of_json :: "json \<Rightarrow> int32 option" where
  "int32_of_json (JNum s) = ParseInt 32 s"
| "int32_of_json _ = None"

fun list_of_json :: "(json \<Rightarrow> 'a option) \<Rightarrow> json \<Rightarrow> 'a list option" where
  "list_of_json dec (JArr vs) = those (map dec vs)"
| "list_of_json dec _ = None"

text \<open>\<open>omitempty\<close> on an integer.\<close>

definition omitzero :: "string \<Rightarrow> int \<Rightarrow> (string \<times> json) list" where
  "omitzero k i = (if i = 0 then [] else [(k, JNum (fmt_d i))])"

section \<open>Metadata, quantities and times\<close>

type_synonym object_meta = "string \<times> string \<times> instant \<times> OwnerReference list"

text \<open>The inlined \<open>TypeMeta\<close>: the kind and the API version are members of the object itself.\<close>

record TypeMeta =
  Kind :: string
  APIVersion :: string

definition TypeMeta_json :: "TypeMeta \<Rightarrow> (string \<times> json) list" where
  "TypeMeta_json tm = omitempty ''kind'' (Kind tm) @ omitempty ''apiVersion'' (APIVersion tm)"

definition TypeMeta_of_json :: "(string \<times> json) list \<Rightarrow> TypeMeta option" where
  "TypeMeta_of_json ms =
     Option.bind (json_field string_of_json '''' ms ''kind'') (\<lambda>k.
     Option.bind (json_field string_of_json '''' ms ''apiVersion'') (\<lambda>a. Some \<lparr>Kind = k, APIVersion = a\<rparr>))"

record 'm resource_lib =
  ObjectMeta_json :: "object_meta \<Rightarrow> json"
  ObjectMeta_of_json :: "json \<Rightarrow> object_meta option"
  ListMeta_json :: "'m \<Rightarrow> json"
  ListMeta_of_json :: "json \<Rightarrow> 'm option"
  Quantity_String :: "Quantity \<Rightarrow> string"
  ParseQuantity :: "string \<Rightarrow> Quantity option"
  MicroTime_String :: "instant \<Rightarrow> string"
  MicroTime_Parse :: "string \<Rightarrow> instant option"

text \<open>
  What the library documents: metadata and quantities read back as they were written, a
  \<open>MicroTime\<close> of the years that have four digits reads back cut to microseconds.
\<close>

definition micro :: "instant \<Rightarrow> instant" where
  "micro t = t - t mod 1000"

definition four_digit_year :: "instant \<Rightarrow> bool" where
  "four_digit_year t \<longleftrightarrow> 0 \<le> t \<and> t < 315537897600 * 10 ^ 9"

definition whole_second :: "instant \<Rightarrow> bool" where
  "whole_second t \<longleftrightarrow> t mod 10 ^ 9 = 0"

definition resource_laws :: "'m resource_lib \<Rightarrow> bool" where
  "resource_laws L \<longleftrightarrow>
     (\<forall>name ns t os. whole_second t \<longrightarrow>
        ObjectMeta_of_json L (ObjectMeta_json L (name, ns, t, os)) = Some (name, ns, t, os))
   \<and> (\<forall>m. ListMeta_of_json L (ListMeta_json L m) = Some m)
   \<and> (\<forall>m. ObjectMeta_json L m \<noteq> JNull) \<and> (\<forall>m. ListMeta_json L m \<noteq> JNull)
   \<and> (\<forall>q. ParseQuantity L (Quantity_String L q) = Some q)
   \<and> (\<forall>t. four_digit_year t \<longrightarrow> MicroTime_Parse L (MicroTime_String L t) = Some (micro t))"

lemma resource_lawsD:
  assumes "resource_laws L"
  shows "whole_second t \<Longrightarrow> ObjectMeta_of_json L (ObjectMeta_json L (name, ns, t, os)) = Some (name, ns, t, os)"
    and "ListMeta_of_json L (ListMeta_json L m) = Some m" and "ObjectMeta_json L om \<noteq> JNull" and "ListMeta_json L m \<noteq> JNull"
    and "ParseQuantity L (Quantity_String L q) = Some q"
    and "four_digit_year t \<Longrightarrow> MicroTime_Parse L (MicroTime_String L t) = Some (micro t)"
  using assms unfolding resource_laws_def by blast+

text \<open>A \<open>MicroTime\<close> is a struct: \<open>omitempty\<close> never leaves it out, and the zero time is null.\<close>

definition MicroTime_json :: "'m resource_lib \<Rightarrow> instant \<Rightarrow> json" where
  "MicroTime_json L t = (if IsZero t then JNull else JStr (MicroTime_String L t))"

fun MicroTime_of_json :: "'m resource_lib \<Rightarrow> json \<Rightarrow> instant option" where
  "MicroTime_of_json L (JStr s) = MicroTime_Parse L s"
| "MicroTime_of_json L _ = None"

text \<open>The keys of a map are written in order; \<open>omitempty\<close> leaves an empty map out.\<close>

definition ResourceList_json :: "'m resource_lib \<Rightarrow> string \<Rightarrow> ResourceList \<Rightarrow> (string \<times> json) list" where
  "ResourceList_json L k rl = (if dom rl = {} then [] else
     [(k, JObj (map (\<lambda>n. (n, JStr (Quantity_String L (the (rl n))))) (sorted_list_of_set (dom rl))))])"

definition quantity_of_json :: "'m resource_lib \<Rightarrow> json \<Rightarrow> Quantity option" where
  "quantity_of_json L v = Option.bind (string_of_json v) (ParseQuantity L)"

fun ResourceList_of_json :: "'m resource_lib \<Rightarrow> json \<Rightarrow> ResourceList option" where
  "ResourceList_of_json L (JObj ms) =
     map_option (\<lambda>qs. map_of (rev (zip (map fst ms) qs))) (those (map (\<lambda>(n, v). quantity_of_json L v) ms))"
| "ResourceList_of_json L _ = None"

section \<open>PodGroup\<close>

fun PodGroupPhase_name :: "PodGroupPhase \<Rightarrow> string" where
  "PodGroupPhase_name PodGroupNoPhase = ''''"
| "PodGroupPhase_name PodGroupPending = ''Pending''"
| "PodGroupPhase_name PodGroupRunning = ''Running''"
| "PodGroupPhase_name PodGroupScheduling = ''Scheduling''"
| "PodGroupPhase_name PodGroupUnknown = ''Unknown''"
| "PodGroupPhase_name PodGroupFinished = ''Finished''"
| "PodGroupPhase_name PodGroupFailed = ''Failed''"

text \<open>The phases that the package declares; any other string is outside the model.\<close>

definition phase_of_json :: "json \<Rightarrow> PodGroupPhase option" where
  "phase_of_json v = Option.bind (string_of_json v) (\<lambda>s.
     find (\<lambda>p. PodGroupPhase_name p = s)
       [PodGroupNoPhase, PodGroupPending, PodGroupRunning, PodGroupScheduling, PodGroupUnknown, PodGroupFinished, PodGroupFailed])"

definition PodGroupSpec_json :: "'m resource_lib \<Rightarrow> PodGroupSpec \<Rightarrow> json" where
  "PodGroupSpec_json L s = JObj (omitzero ''minMember'' (MinMember s)
     @ ResourceList_json L ''minResources'' (MinResources s)
     @ (case ScheduleTimeoutSeconds s of None \<Rightarrow> [] | Some t \<Rightarrow> [(''scheduleTimeoutSeconds'', JNum (fmt_d t))]))"

fun PodGroupSpec_of_json :: "'m resource_lib \<Rightarrow> json \<Rightarrow> PodGroupSpec option" where
  "PodGroupSpec_of_json L (JObj ms) =
     Option.bind (json_field int32_of_json 0 ms ''minMember'') (\<lambda>n.
     Option.bind (json_field (ResourceList_of_json L) Map.empty ms ''minResources'') (\<lambda>rl.
     Option.bind (json_field (map_option Some \<circ> int32_of_json) None ms ''scheduleTimeoutSeconds'') (\<lambda>t.
     Some \<lparr>MinMember = n, MinResources = rl, ScheduleTimeoutSeconds = t\<rparr>)))"
| "PodGroupSpec_of_json L _ = None"

definition PodGroupStatus_json :: "'m resource_lib \<Rightarrow> PodGroupStatus \<Rightarrow> json" where
  "PodGroupStatus_json L s = JObj (omitempty ''phase'' (PodGroupPhase_name (Phase s))
     @ omitempty ''occupiedBy'' (OccupiedBy s) @ omitzero ''running'' (Running s)
     @ omitzero ''succeeded'' (Succeeded s) @ omitzero ''failed'' (Failed s)
     @ [(''creationTime'', MicroTime_json L (CreationTime s)), (''scheduleStartTime'', MicroTime_json L (ScheduleStartTime s))])"

fun PodGroupStatus_of_json :: "'m resource_lib \<Rightarrow> json \<Rightarrow> PodGroupStatus option" where
  "PodGroupStatus_of_json L (JObj ms) =
     Option.bind (json_field phase_of_json PodGroupNoPhase ms ''phase'') (\<lambda>p.
     Option.bind (json_field string_of_json '''' ms ''occupiedBy'') (\<lambda>oc.
     Option.bind (json_field int32_of_json 0 ms ''running'') (\<lambda>r.
     Option.bind (json_field int32_of_json 0 ms ''succeeded'') (\<lambda>s.
     Option.bind (json_field int32_of_json 0 ms ''failed'') (\<lambda>f.
     Option.bind (json_field (MicroTime_of_json L) 0 ms ''creationTime'') (\<lambda>c.
     Option.bind (json_field (MicroTime_of_json L) 0 ms ''scheduleStartTime'') (\<lambda>t.
     Some \<lparr>Phase = p, OccupiedBy = oc, Running = r, Succeeded = s, Failed = f, CreationTime = c, ScheduleStartTime = t\<rparr>)))))))"
| "PodGroupStatus_of_json L _ = None"

fun PodGroup_json :: "'m resource_lib \<Rightarrow> TypeMeta \<times> PodGroup \<Rightarrow> json" where
  "PodGroup_json L (tm, pg) = JObj (TypeMeta_json tm @ [(''metadata'', ObjectMeta_json L
       (pg_Name pg, pg_Namespace pg, pg_CreationTimestamp pg, pg_OwnerReferences pg)),
     (''spec'', PodGroupSpec_json L (Spec pg)), (''status'', PodGroupStatus_json L (Status pg))])"

fun PodGroup_of_json :: "'m resource_lib \<Rightarrow> json \<Rightarrow> (TypeMeta \<times> PodGroup) option" where
  "PodGroup_of_json L (JObj ms) =
     Option.bind (TypeMeta_of_json ms) (\<lambda>tm.
     Option.bind (json_field (ObjectMeta_of_json L) ('''', '''', 0, []) ms ''metadata'') (\<lambda>(n, ns, t, os).
     Option.bind (json_field (PodGroupSpec_of_json L) zero_PodGroupSpec ms ''spec'') (\<lambda>spec.
     Option.bind (json_field (PodGroupStatus_of_json L) zero_PodGroupStatus ms ''status'') (\<lambda>status.
     Some (tm, \<lparr>pg_Name = n, pg_Namespace = ns, pg_CreationTimestamp = t, pg_OwnerReferences = os, Spec = spec, Status = status\<rparr>)))))"
| "PodGroup_of_json L _ = None"

section \<open>ElasticQuota\<close>

record ElasticQuotaSpec =
  quota_Min :: ResourceList
  quota_Max :: ResourceList

record ElasticQuotaStatus =
  Used :: ResourceList

record ElasticQuota =
  eq_Type :: TypeMeta
  eq_Meta :: object_meta
  eq_Spec :: ElasticQuotaSpec
  eq_Status :: ElasticQuotaStatus

definition ElasticQuota_json :: "'m resource_lib \<Rightarrow> ElasticQuota \<Rightarrow> json" where
  "ElasticQuota_json L q = JObj (TypeMeta_json (eq_Type q) @ [(''metadata'', ObjectMeta_json L (eq_Meta q)),
     (''spec'', JObj (ResourceList_json L ''min'' (quota_Min (eq_Spec q)) @ ResourceList_json L ''max'' (quota_Max (eq_Spec q)))),
     (''status'', JObj (ResourceList_json L ''used'' (Used (eq_Status q))))])"

fun ElasticQuotaSpec_of_json :: "'m resource_lib \<Rightarrow> json \<Rightarrow> ElasticQuotaSpec option" where
  "ElasticQuotaSpec_of_json L (JObj ms) =
     Option.bind (json_field (ResourceList_of_json L) Map.empty ms ''min'') (\<lambda>lo.
     Option.bind (json_field (ResourceList_of_json L) Map.empty ms ''max'') (\<lambda>hi. Some \<lparr>quota_Min = lo, quota_Max = hi\<rparr>))"
| "ElasticQuotaSpec_of_json L _ = None"

fun ElasticQuotaStatus_of_json :: "'m resource_lib \<Rightarrow> json \<Rightarrow> ElasticQuotaStatus option" where
  "ElasticQuotaStatus_of_json L (JObj ms) =
     Option.bind (json_field (ResourceList_of_json L) Map.empty ms ''used'') (\<lambda>u. Some \<lparr>Used = u\<rparr>)"
| "ElasticQuotaStatus_of_json L _ = None"

fun ElasticQuota_of_json :: "'m resource_lib \<Rightarrow> json \<Rightarrow> ElasticQuota option" where
  "ElasticQuota_of_json L (JObj ms) =
     Option.bind (TypeMeta_of_json ms) (\<lambda>tm.
     Option.bind (json_field (ObjectMeta_of_json L) ('''', '''', 0, []) ms ''metadata'') (\<lambda>meta.
     Option.bind (json_field (ElasticQuotaSpec_of_json L) \<lparr>quota_Min = Map.empty, quota_Max = Map.empty\<rparr> ms ''spec'') (\<lambda>spec.
     Option.bind (json_field (ElasticQuotaStatus_of_json L) \<lparr>Used = Map.empty\<rparr> ms ''status'') (\<lambda>status.
     Some \<lparr>eq_Type = tm, eq_Meta = meta, eq_Spec = spec, eq_Status = status\<rparr>))))"
| "ElasticQuota_of_json L _ = None"

section \<open>Lists\<close>

text \<open>\<open>PodGroupList\<close> and \<open>ElasticQuotaList\<close>: metadata and items; a nil slice is written as null.\<close>

record 'm PodGroupList =
  pgl_Type :: TypeMeta
  pgl_Meta :: 'm
  pgl_Items :: "(TypeMeta \<times> PodGroup) list"

record 'm ElasticQuotaList =
  eql_Type :: TypeMeta
  eql_Meta :: 'm
  eql_Items :: "ElasticQuota list"

definition items_json :: "'m resource_lib \<Rightarrow> ('a \<Rightarrow> json) \<Rightarrow> TypeMeta \<Rightarrow> 'm \<Rightarrow> 'a list \<Rightarrow> json" where
  "items_json L enc tm m xs = JObj (TypeMeta_json tm @ [(''metadata'', ListMeta_json L m), (''items'', slice_json enc xs)])"

fun items_of_json :: "'m resource_lib \<Rightarrow> (json \<Rightarrow> 'a option) \<Rightarrow> 'm \<Rightarrow> json \<Rightarrow> (TypeMeta \<times> 'm \<times> 'a list) option" where
  "items_of_json L dec zero (JObj ms) =
     Option.bind (TypeMeta_of_json ms) (\<lambda>tm.
     Option.bind (json_field (ListMeta_of_json L) zero ms ''metadata'') (\<lambda>m.
     Option.bind (json_field (list_of_json dec) [] ms ''items'') (\<lambda>xs. Some (tm, m, xs))))"
| "items_of_json L dec zero _ = None"

definition PodGroupList_json :: "'m resource_lib \<Rightarrow> 'm PodGroupList \<Rightarrow> json" where
  "PodGroupList_json L l = items_json L (PodGroup_json L) (pgl_Type l) (pgl_Meta l) (pgl_Items l)"

definition PodGroupList_of_json :: "'m resource_lib \<Rightarrow> 'm \<Rightarrow> json \<Rightarrow> 'm PodGroupList option" where
  "PodGroupList_of_json L zero v = map_option (\<lambda>(tm, m, xs). \<lparr>pgl_Type = tm, pgl_Meta = m, pgl_Items = xs\<rparr>)
     (items_of_json L (PodGroup_of_json L) zero v)"

definition ElasticQuotaList_json :: "'m resource_lib \<Rightarrow> 'm ElasticQuotaList \<Rightarrow> json" where
  "ElasticQuotaList_json L l = items_json L (ElasticQuota_json L) (eql_Type l) (eql_Meta l) (eql_Items l)"

definition ElasticQuotaList_of_json :: "'m resource_lib \<Rightarrow> 'm \<Rightarrow> json \<Rightarrow> 'm ElasticQuotaList option" where
  "ElasticQuotaList_of_json L zero v = map_option (\<lambda>(tm, m, xs). \<lparr>eql_Type = tm, eql_Meta = m, eql_Items = xs\<rparr>)
     (items_of_json L (ElasticQuota_of_json L) zero v)"

section \<open>Reading back what was written\<close>

text \<open>The members of a written object.\<close>

lemma obj_get_append: "obj_get (xs @ ys) k = (case obj_get ys k of None \<Rightarrow> obj_get xs k | Some v \<Rightarrow> Some v)"
  by (auto simp: obj_get_def map_add_def split: option.splits)

lemma obj_get_parts:
  "obj_get [] k = None" "obj_get [(n, v)] k = (if n = k then Some v else None)"
  "obj_get ((n, v) # m # ms) k = (case obj_get (m # ms) k of None \<Rightarrow> if n = k then Some v else None | Some u \<Rightarrow> Some u)"
  "obj_get (omitzero n i) k = (if n = k \<and> i \<noteq> 0 then Some (JNum (fmt_d i)) else None)"
  "obj_get (omitempty n t) k = (if n = k \<and> t \<noteq> '''' then Some (JStr t) else None)"
  "obj_get (ResourceList_json L n rl) k = (if n = k then map_of (ResourceList_json L n rl) n else None)"
  by (auto simp: obj_get_def omitzero_def omitempty_def ResourceList_json_def map_add_def split: option.splits)

lemma omitempty_field:
  "obj_get ms k = (if s = '''' then None else Some (JStr s)) \<Longrightarrow> json_field string_of_json '''' ms k = Some s"
  by (auto simp: json_field_def split: if_splits)

lemma type_field:
  assumes "obj_get ms ''kind'' = None" and "obj_get ms ''apiVersion'' = None"
  shows "TypeMeta_of_json (TypeMeta_json tm @ ms) = Some tm"
proof -
  have "json_field string_of_json '''' (TypeMeta_json tm @ ms) ''kind'' = Some (Kind tm)"
    "json_field string_of_json '''' (TypeMeta_json tm @ ms) ''apiVersion'' = Some (APIVersion tm)"
    by (intro omitempty_field; simp add: assms TypeMeta_json_def obj_get_append obj_get_parts)+
  then show ?thesis by (simp add: TypeMeta_of_json_def)
qed

lemma beside_type: "k \<noteq> ''kind'' \<Longrightarrow> k \<noteq> ''apiVersion'' \<Longrightarrow> obj_get (TypeMeta_json tm @ ms) k = obj_get ms k"
  by (simp add: TypeMeta_json_def obj_get_append obj_get_parts split: option.split)

text \<open>A codec: what is written reads back, up to what the form cannot hold.\<close>

locale json_codec =
  fixes enc :: "'a \<Rightarrow> json" and dec :: "json \<Rightarrow> 'a option" and kept :: "'a \<Rightarrow> 'a" and ok :: "'a \<Rightarrow> bool"
  assumes dec_enc: "ok x \<Longrightarrow> dec (enc x) = Some (kept x)" and enc_not_null: "ok x \<Longrightarrow> enc x \<noteq> JNull"
begin

lemma field: "ok x \<Longrightarrow> obj_get ms k = Some (enc x) \<Longrightarrow> json_field dec zero ms k = Some (kept x)"
  by (simp add: json_field_def dec_enc enc_not_null)

lemma elements: "\<forall>x \<in> set xs. ok x \<Longrightarrow> those (map (dec \<circ> enc) xs) = Some (map kept xs)"
  by (induction xs) (simp_all add: dec_enc)

lemma items:
  assumes "resource_laws L" and "\<forall>x \<in> set xs. ok x"
  shows "items_of_json L dec zero (items_json L enc tm m xs) = Some (tm, m, map kept xs)"
  using elements [OF assms(2)] resource_lawsD(2,4) [OF assms(1)]
  by (simp add: items_json_def type_field beside_type json_field_def obj_get_parts slice_json_def)

end

interpretation int32_codec: json_codec "\<lambda>i. JNum (fmt_d i)" int32_of_json "\<lambda>i. i" in_int32
  by unfold_locales (simp_all add: ParseInt32_fmt_d)

interpretation string_codec: json_codec JStr string_of_json "\<lambda>s. s" "\<lambda>s. True"
  by unfold_locales simp_all

interpretation phase_codec: json_codec "\<lambda>p. JStr (PodGroupPhase_name p)" phase_of_json "\<lambda>p. p" "\<lambda>p. True"
proof unfold_locales
  show "phase_of_json (JStr (PodGroupPhase_name p)) = Some p" for p by (cases p) (simp_all add: phase_of_json_def)
qed simp

interpretation time_codec: json_codec "\<lambda>t. JStr (MicroTime_String L t)" "MicroTime_of_json L" micro
    "\<lambda>t. resource_laws L \<and> four_digit_year t" for L
  by unfold_locales (simp_all add: resource_lawsD(6))

interpretation quantity_codec: json_codec "\<lambda>q. JStr (Quantity_String L q)" "quantity_of_json L" "\<lambda>q. q" "\<lambda>q. resource_laws L" for L
  by unfold_locales (simp_all add: quantity_of_json_def resource_lawsD(5))

text \<open>A field of each kind of type, as the struct tags write it.\<close>

lemma omitzero_field:
  "in_int32 i \<Longrightarrow> obj_get ms k = (if i = 0 then None else Some (JNum (fmt_d i))) \<Longrightarrow> json_field int32_of_json 0 ms k = Some i"
  using int32_codec.field [of i ms k 0] by (auto simp: json_field_def split: if_splits)

lemma phase_field:
  assumes "obj_get ms k = (if PodGroupPhase_name p = '''' then None else Some (JStr (PodGroupPhase_name p)))"
  shows "json_field phase_of_json PodGroupNoPhase ms k = Some p"
  using phase_codec.field [where x = p and ms = ms and k = k] assms by (cases p) (simp_all add: json_field_def)

lemma time_field:
  assumes "resource_laws L" and "four_digit_year t" and "obj_get ms k = Some (MicroTime_json L t)"
  shows "json_field (MicroTime_of_json L) 0 ms k = Some (micro t)"
  using time_codec.field [of L t ms k 0] assms
  by (auto simp: MicroTime_json_def json_field_def micro_def IsZero_def split: if_splits)

lemma resources_field:
  assumes "resource_laws L" and "finite (dom rl)" and "obj_get ms k = map_of (ResourceList_json L k rl) k"
  shows "json_field (ResourceList_of_json L) Map.empty ms k = Some rl"
proof (cases "dom rl = {}")
  case True
  with assms(3) show ?thesis by (auto simp: json_field_def ResourceList_json_def)
next
  case False
  let ?ks = "sorted_list_of_set (dom rl)"
  have "those (map (quantity_of_json L \<circ> (\<lambda>q. JStr (Quantity_String L q))) (map (\<lambda>n. the (rl n)) ?ks)) = Some (map (\<lambda>n. the (rl n)) ?ks)"
    using quantity_codec.elements [of "map (\<lambda>n. the (rl n)) ?ks" L] assms(1) by simp
  then have "ResourceList_of_json L (JObj (map (\<lambda>n. (n, JStr (Quantity_String L (the (rl n))))) ?ks)) =
      Some (map_of (rev (zip ?ks (map (\<lambda>n. the (rl n)) ?ks))))"
    by (simp add: o_def)
  also have "map_of (rev (zip ?ks (map (\<lambda>n. the (rl n)) ?ks))) = map_of (zip ?ks (map (\<lambda>n. the (rl n)) ?ks))"
    by (subst map_of_inject_set) (simp_all add: rev_map [symmetric])
  also have "\<dots> = rl"
  proof
    fix n show "map_of (zip ?ks (map (\<lambda>n. the (rl n)) ?ks)) n = rl n"
      using assms(2) by (cases "n \<in> dom rl") (auto simp: map_of_zip_map domIff)
  qed
  finally show ?thesis using assms(3) False by (simp add: json_field_def ResourceList_json_def)
qed

text \<open>What the types of the fields guarantee, and what is kept of a group: times are cut to microseconds.\<close>

definition spec_ok :: "PodGroupSpec \<Rightarrow> bool" where
  "spec_ok s \<longleftrightarrow> in_int32 (MinMember s) \<and> finite (dom (MinResources s))
     \<and> (case ScheduleTimeoutSeconds s of None \<Rightarrow> True | Some t \<Rightarrow> in_int32 t)"

definition status_ok :: "PodGroupStatus \<Rightarrow> bool" where
  "status_ok s \<longleftrightarrow> in_int32 (Running s) \<and> in_int32 (Succeeded s) \<and> in_int32 (Failed s)
     \<and> four_digit_year (CreationTime s) \<and> four_digit_year (ScheduleStartTime s)"

definition group_ok :: "PodGroup \<Rightarrow> bool" where
  "group_ok pg \<longleftrightarrow> whole_second (pg_CreationTimestamp pg) \<and> spec_ok (Spec pg) \<and> status_ok (Status pg)"

definition stored_status :: "PodGroupStatus \<Rightarrow> PodGroupStatus" where
  "stored_status s = s\<lparr>CreationTime := micro (CreationTime s), ScheduleStartTime := micro (ScheduleStartTime s)\<rparr>"

definition stored_group :: "PodGroup \<Rightarrow> PodGroup" where
  "stored_group pg = pg\<lparr>Status := stored_status (Status pg)\<rparr>"

interpretation spec_codec: json_codec "PodGroupSpec_json L" "PodGroupSpec_of_json L" "\<lambda>s. s"
    "\<lambda>s. resource_laws L \<and> spec_ok s" for L
proof unfold_locales
  fix s assume ok: "resource_laws L \<and> spec_ok s"
  obtain ms where ms: "PodGroupSpec_json L s = JObj ms" by (simp add: PodGroupSpec_json_def)
  note get = arg_cong [OF ms [unfolded PodGroupSpec_json_def json.inject, symmetric], of "\<lambda>ms. obj_get ms k" for k, unfolded obj_get_append]
  have "json_field int32_of_json 0 ms ''minMember'' = Some (MinMember s)"
    using ok by (intro omitzero_field) (auto simp: spec_ok_def get obj_get_parts split: option.splits)
  moreover have "json_field (ResourceList_of_json L) Map.empty ms ''minResources'' = Some (MinResources s)"
    using ok by (intro resources_field) (auto simp: spec_ok_def get obj_get_parts split: option.splits)
  moreover have "json_field (map_option Some \<circ> int32_of_json) None ms ''scheduleTimeoutSeconds'' = Some (ScheduleTimeoutSeconds s)"
    using ok by (auto simp: spec_ok_def json_field_def get obj_get_parts ParseInt32_fmt_d split: option.splits)
  ultimately show "PodGroupSpec_of_json L (PodGroupSpec_json L s) = Some s" by (simp add: ms)
qed (simp add: PodGroupSpec_json_def)

interpretation status_codec: json_codec "PodGroupStatus_json L" "PodGroupStatus_of_json L" stored_status
    "\<lambda>s. resource_laws L \<and> status_ok s" for L
proof unfold_locales
  fix s assume ok: "resource_laws L \<and> status_ok s"
  obtain ms where ms: "PodGroupStatus_json L s = JObj ms" by (simp add: PodGroupStatus_json_def)
  note get = arg_cong [OF ms [unfolded PodGroupStatus_json_def json.inject, symmetric], of "\<lambda>ms. obj_get ms k" for k, unfolded obj_get_append]
  have "json_field int32_of_json 0 ms ''running'' = Some (Running s)" "json_field int32_of_json 0 ms ''succeeded'' = Some (Succeeded s)"
    "json_field int32_of_json 0 ms ''failed'' = Some (Failed s)"
    using ok by (intro omitzero_field; simp add: status_ok_def get obj_get_parts)+
  moreover have "json_field phase_of_json PodGroupNoPhase ms ''phase'' = Some (Phase s)"
    "json_field string_of_json '''' ms ''occupiedBy'' = Some (OccupiedBy s)"
    by (intro phase_field omitempty_field; simp add: get obj_get_parts)+
  moreover have "json_field (MicroTime_of_json L) 0 ms ''creationTime'' = Some (micro (CreationTime s))"
    "json_field (MicroTime_of_json L) 0 ms ''scheduleStartTime'' = Some (micro (ScheduleStartTime s))"
    using ok by (intro time_field; simp add: status_ok_def get obj_get_parts)+
  ultimately show "PodGroupStatus_of_json L (PodGroupStatus_json L s) = Some (stored_status s)"
    by (simp add: ms stored_status_def)
qed (simp add: PodGroupStatus_json_def)

lemma meta_field:
  assumes "resource_laws L" and "whole_second t" and "obj_get ms k = Some (ObjectMeta_json L (name, ns, t, os))"
  shows "json_field (ObjectMeta_of_json L) z ms k = Some (name, ns, t, os)"
  using assms resource_lawsD(1,3) [OF assms(1)] by (simp add: json_field_def)

interpretation group_codec: json_codec "PodGroup_json L" "PodGroup_of_json L" "map_prod id stored_group"
    "\<lambda>(tm, pg). resource_laws L \<and> group_ok pg" for L
proof unfold_locales
  fix x :: "TypeMeta \<times> PodGroup" assume "case x of (tm, pg) \<Rightarrow> resource_laws L \<and> group_ok pg"
  then obtain tm pg where x: "x = (tm, pg)" and ok: "resource_laws L" "group_ok pg" by (cases x) simp
  obtain ms where ms: "PodGroup_json L (tm, pg) = JObj (TypeMeta_json tm @ ms)"
    and ms_def: "ms = [(''metadata'', ObjectMeta_json L (pg_Name pg, pg_Namespace pg, pg_CreationTimestamp pg, pg_OwnerReferences pg)),
     (''spec'', PodGroupSpec_json L (Spec pg)), (''status'', PodGroupStatus_json L (Status pg))]" by simp
  have "json_field (PodGroupSpec_of_json L) z (TypeMeta_json tm @ ms) ''spec'' = Some (Spec pg)"
    "json_field (PodGroupStatus_of_json L) y (TypeMeta_json tm @ ms) ''status'' = Some (stored_status (Status pg))"
    "json_field (ObjectMeta_of_json L) w (TypeMeta_json tm @ ms) ''metadata'' =
      Some (pg_Name pg, pg_Namespace pg, pg_CreationTimestamp pg, pg_OwnerReferences pg)" for z y w
    using ok by (intro spec_codec.field status_codec.field meta_field; simp add: ms_def group_ok_def beside_type obj_get_parts)+
  moreover have "TypeMeta_of_json (TypeMeta_json tm @ ms) = Some tm" by (rule type_field) (simp_all add: ms_def obj_get_parts)
  ultimately show "PodGroup_of_json L (PodGroup_json L x) = Some (map_prod id stored_group x)"
    by (simp add: x ms stored_group_def del: PodGroup_json.simps)
qed auto

section \<open>What the shipped definition of the resource knows\<close>

text \<open>
  The API server drops from a custom resource the members that the schema of its definition does not
  name. The schema that is shipped for pod groups names fewer members of the status than the struct has:
  \<open>creationTime\<close> is missing.
\<close>

datatype schema = AnyValue | Properties "(string \<times> schema) list"

fun prune :: "schema \<Rightarrow> json \<Rightarrow> json" where
  "prune (Properties ps) (JObj ms) =
     JObj (concat (map (\<lambda>(k, v). case map_of ps k of None \<Rightarrow> [] | Some s \<Rightarrow> [(k, prune s v)]) ms))"
| "prune _ v = v"

definition spec_members :: "(string \<times> schema) list" where
  "spec_members = [(''minMember'', AnyValue), (''minResources'', AnyValue), (''scheduleTimeoutSeconds'', AnyValue)]"

definition status_members :: "(string \<times> schema) list" where
  "status_members = [(''failed'', AnyValue), (''occupiedBy'', AnyValue), (''phase'', AnyValue),
     (''running'', AnyValue), (''scheduleStartTime'', AnyValue), (''succeeded'', AnyValue)]"

definition podgroups_schema :: schema where
  "podgroups_schema = Properties [(''apiVersion'', AnyValue), (''kind'', AnyValue), (''metadata'', AnyValue),
     (''spec'', Properties spec_members), (''status'', Properties status_members)]"

definition pruned_members :: "(string \<times> schema) list \<Rightarrow> (string \<times> json) list \<Rightarrow> (string \<times> json) list" where
  "pruned_members ps ms = concat (map (\<lambda>(k, v). case map_of ps k of None \<Rightarrow> [] | Some s \<Rightarrow> [(k, prune s v)]) ms)"

lemma prune_AnyValue [simp]: "prune AnyValue v = v"
  by (cases v) simp_all

lemma prune_object: "prune (Properties ps) (JObj ms) = JObj (pruned_members ps ms)"
  by (simp add: pruned_members_def)

declare prune.simps(1) [simp del]

lemma obj_get_prune:
  "obj_get (pruned_members ps ms) k = (case map_of ps k of None \<Rightarrow> None | Some s \<Rightarrow> map_option (prune s) (obj_get ms k))"
proof (induction ms rule: rev_induct)
  case Nil
  show ?case by (simp add: pruned_members_def obj_get_parts split: option.split)
next
  case (snoc x ms)
  obtain n v where x: "x = (n, v)" by (cases x)
  with snoc show ?case by (auto simp: pruned_members_def obj_get_append obj_get_parts split: option.splits)
qed

text \<open>A member that the schema leaves as it is reads as before, one that it does not name reads as absent.\<close>

lemma json_field_prune:
  "map_of ps k = Some AnyValue \<Longrightarrow> json_field dec z (pruned_members ps ms) k = json_field dec z ms k"
  "map_of ps k = None \<Longrightarrow> json_field dec z (pruned_members ps ms) k = Some z"
proof -
  have "prune AnyValue = id" by (simp add: fun_eq_iff)
  then show "map_of ps k = Some AnyValue \<Longrightarrow> json_field dec z (pruned_members ps ms) k = json_field dec z ms k"
    unfolding json_field_def obj_get_prune by (simp add: option.map_id)
qed (simp add: json_field_def obj_get_prune)

lemma spec_pruned:
  assumes "resource_laws L" and "spec_ok s"
  shows "PodGroupSpec_of_json L (prune (Properties spec_members) (PodGroupSpec_json L s)) = Some s"
proof -
  obtain ms where ms: "PodGroupSpec_json L s = JObj ms" by (simp add: PodGroupSpec_json_def)
  with spec_codec.dec_enc [of L s] assms show ?thesis by (simp add: prune_object json_field_prune spec_members_def)
qed

lemma status_pruned:
  assumes "resource_laws L" and "status_ok s"
  shows "PodGroupStatus_of_json L (prune (Properties status_members) (PodGroupStatus_json L s)) = Some (crd_status (stored_status s))"
proof -
  obtain ms where ms: "PodGroupStatus_json L s = JObj ms" by (simp add: PodGroupStatus_json_def)
  with status_codec.dec_enc [of L s] assms show ?thesis
    by (auto simp: prune_object json_field_prune status_members_def crd_status_def Option.bind_eq_Some_conv
        dest!: sym [of _ "stored_status s"])
qed

lemma PodGroup_pruned:
  assumes "resource_laws L" and "group_ok pg"
  shows "PodGroup_of_json L (prune podgroups_schema (PodGroup_json L (tm, pg))) =
    Some (tm, pg\<lparr>Status := crd_status (stored_status (Status pg))\<rparr>)"
proof -
  obtain ms where ms: "PodGroup_json L (tm, pg) = JObj ms" by simp
  have whole: "PodGroup_of_json L (JObj ms) = Some (tm, stored_group pg)" using group_codec.dec_enc [of L "(tm, pg)"] assms ms by simp
  have get: "obj_get ms ''spec'' = Some (PodGroupSpec_json L (Spec pg))" "obj_get ms ''status'' = Some (PodGroupStatus_json L (Status pg))"
    using ms by (auto simp: beside_type obj_get_parts)
  have null: "prune (Properties spec_members) (PodGroupSpec_json L (Spec pg)) \<noteq> JNull"
    "prune (Properties status_members) (PodGroupStatus_json L (Status pg)) \<noteq> JNull"
    by (simp_all add: PodGroupSpec_json_def PodGroupStatus_json_def prune_object)
  let ?ps = "[(''apiVersion'', AnyValue), (''kind'', AnyValue), (''metadata'', AnyValue),
     (''spec'', Properties spec_members), (''status'', Properties status_members)]"
  have "json_field (PodGroupSpec_of_json L) z (pruned_members ?ps ms) ''spec'' = Some (Spec pg)"
    "json_field (PodGroupStatus_of_json L) y (pruned_members ?ps ms) ''status'' = Some (crd_status (stored_status (Status pg)))" for z y
    using spec_pruned [of L "Spec pg"] status_pruned [of L "Status pg"] assms null get
    unfolding json_field_def obj_get_prune by (simp_all add: group_ok_def)
  with whole show ?thesis unfolding ms podgroups_schema_def prune_object
    by (cases pg) (auto simp: json_field_prune TypeMeta_of_json_def stored_group_def Option.bind_eq_Some_conv)
qed

text \<open>A quota keeps everything: its only time is the one of its metadata.\<close>

definition quota_ok :: "ElasticQuota \<Rightarrow> bool" where
  "quota_ok q \<longleftrightarrow> whole_second (fst (snd (snd (eq_Meta q)))) \<and> finite (dom (quota_Min (eq_Spec q)))
     \<and> finite (dom (quota_Max (eq_Spec q))) \<and> finite (dom (Used (eq_Status q)))"

interpretation quota_codec: json_codec "ElasticQuota_json L" "ElasticQuota_of_json L" "\<lambda>q. q"
    "\<lambda>q. resource_laws L \<and> quota_ok q" for L
proof unfold_locales
  fix q assume ok: "resource_laws L \<and> quota_ok q"
  obtain name ns t os where meta: "eq_Meta q = (name, ns, t, os)" by (cases "eq_Meta q")
  let ?spec = "ResourceList_json L ''min'' (quota_Min (eq_Spec q)) @ ResourceList_json L ''max'' (quota_Max (eq_Spec q))"
  let ?used = "ResourceList_json L ''used'' (Used (eq_Status q))"
  obtain ms where ms: "ElasticQuota_json L q = JObj (TypeMeta_json (eq_Type q) @ ms)"
    and ms_def: "ms = [(''metadata'', ObjectMeta_json L (eq_Meta q)), (''spec'', JObj ?spec), (''status'', JObj ?used)]"
    by (simp add: ElasticQuota_json_def)
  have "json_field (ResourceList_of_json L) Map.empty ?spec ''min'' = Some (quota_Min (eq_Spec q))"
    "json_field (ResourceList_of_json L) Map.empty ?spec ''max'' = Some (quota_Max (eq_Spec q))"
    "json_field (ResourceList_of_json L) Map.empty ?used ''used'' = Some (Used (eq_Status q))"
    using ok by (intro resources_field; auto simp: quota_ok_def obj_get_append obj_get_parts split: option.split)+
  then have "json_field (ElasticQuotaSpec_of_json L) z (TypeMeta_json (eq_Type q) @ ms) ''spec'' = Some (eq_Spec q)"
    "json_field (ElasticQuotaStatus_of_json L) y (TypeMeta_json (eq_Type q) @ ms) ''status'' = Some (eq_Status q)" for z y
    by (simp_all add: json_field_def [of "ElasticQuotaSpec_of_json L"] json_field_def [of "ElasticQuotaStatus_of_json L"]
        ms_def beside_type obj_get_parts)
  moreover have "json_field (ObjectMeta_of_json L) z (TypeMeta_json (eq_Type q) @ ms) ''metadata'' = Some (eq_Meta q)" for z
    unfolding meta using ok by (intro meta_field) (simp_all add: ms_def meta quota_ok_def beside_type obj_get_parts)
  moreover have "TypeMeta_of_json (TypeMeta_json (eq_Type q) @ ms) = Some (eq_Type q)" by (rule type_field) (simp_all add: ms_def obj_get_parts)
  ultimately show "ElasticQuota_of_json L (ElasticQuota_json L q) = Some q" by (simp add: ms)
qed (simp add: ElasticQuota_json_def)

section \<open>Round trips of the lists\<close>

lemma micro_idem [simp]: "micro (micro t) = micro t"
  by (simp add: micro_def)

text \<open>
  C33. What the struct tags write of a list of pod groups reads back by the struct tags: the list metadata, the
  order of the items, and of every item its names, owners, counts, phase, occupying workload,
  required members, required resources and timeout, with a timeout of zero told from no timeout. The two
  times of a status come back cut to microseconds, and writing and reading once more loses
  nothing further. What an API server with the shipped definition of the resource leaves of an item loses, besides,
  exactly the creation time of the status, which that definition does not name: it reads back as zero.
  That the forms of metadata, quantities and times, which belong to other packages, read back is their
  documented behaviour (\<open>resource_laws\<close>).
\<close>

theorem PodGroupList_roundtrip:
  assumes "resource_laws L" and "\<forall>(tm, pg) \<in> set (pgl_Items l). group_ok pg"
  defines "kept \<equiv> l\<lparr>pgl_Items := map (map_prod id stored_group) (pgl_Items l)\<rparr>"
  shows "PodGroupList_of_json L zero (PodGroupList_json L l) = Some kept \<and>
    PodGroupList_of_json L zero (PodGroupList_json L kept) = Some kept \<and>
    (\<forall>(tm, pg) \<in> set (pgl_Items l). PodGroup_of_json L (prune podgroups_schema (PodGroup_json L (tm, pg))) =
       Some (tm, pg\<lparr>Status := (stored_status (Status pg))\<lparr>CreationTime := 0\<rparr>\<rparr>))"
proof -
  have trip: "PodGroupList_of_json L zero (PodGroupList_json L k) = Some (k\<lparr>pgl_Items := map (map_prod id stored_group) (pgl_Items k)\<rparr>)"
    if "\<forall>(tm, pg) \<in> set (pgl_Items k). group_ok pg" for k
    using group_codec.items [of L "pgl_Items k" L zero "pgl_Type k" "pgl_Meta k"] assms(1) that
    by (simp add: PodGroupList_json_def PodGroupList_of_json_def case_prod_beta)
  have again: "group_ok pg \<Longrightarrow> group_ok (stored_group pg)" "stored_group (stored_group pg) = stored_group pg" for pg
    by (auto simp: group_ok_def stored_group_def stored_status_def status_ok_def four_digit_year_def micro_def zmod_le_nonneg_dividend)
  have "\<forall>(tm, pg) \<in> set (pgl_Items kept). group_ok pg" using assms(2) again(1) by (force simp: kept_def)
  from trip [OF this] have "PodGroupList_of_json L zero (PodGroupList_json L kept) = Some kept"
    by (simp add: kept_def again(2) comp_def map_prod_def case_prod_beta)
  moreover have "\<forall>(tm, pg) \<in> set (pgl_Items l). PodGroup_of_json L (prune podgroups_schema (PodGroup_json L (tm, pg))) =
       Some (tm, pg\<lparr>Status := (stored_status (Status pg))\<lparr>CreationTime := 0\<rparr>\<rparr>)"
    using PodGroup_pruned [OF assms(1)] assms(2) by (fastforce simp: crd_status_def simp del: PodGroup_json.simps)
  ultimately show ?thesis using trip [OF assms(2)] by (simp add: kept_def)
qed

text \<open>A library with these laws: numbers in unary, members in a fixed order.\<close>

definition unary :: "int \<Rightarrow> string" where
  "unary i = (if i < 0 then ''-'' else '''') @ replicate (nat (abs i)) (CHR ''1'')"

definition of_unary :: "string \<Rightarrow> int" where
  "of_unary s = (if s \<noteq> '''' \<and> hd s = CHR ''-'' then - int (length (tl s)) else int (length s))"

lemma of_unary_unary [simp]: "of_unary (unary i) = i"
proof (cases "i < 0")
  case False
  then show ?thesis by (cases "nat i") (simp_all add: of_unary_def unary_def)
qed (simp add: of_unary_def unary_def)

lemma unary_no_comma: "takeWhile (\<lambda>c. c \<noteq> CHR '','') (unary i @ CHR '','' # s) = unary i"
    "dropWhile (\<lambda>c. c \<noteq> CHR '','') (unary i @ CHR '','' # s) = CHR '','' # s"
  by (simp_all add: unary_def takeWhile_append dropWhile_append)

fun demo_meta_of_json :: "json \<Rightarrow> object_meta option" where
  "demo_meta_of_json (JArr [JStr n, JStr ns, JStr t, JArr os]) =
     map_option (\<lambda>rs. (n, ns, of_unary t, rs)) (those (map (\<lambda>v. case v of
       JArr [JStr a, JStr b] \<Rightarrow> Some \<lparr>or_Name = a, or_UID = b\<rparr> | _ \<Rightarrow> None) os))"
| "demo_meta_of_json _ = None"

definition demo_lib :: "string resource_lib" where
  "demo_lib = \<lparr>ObjectMeta_json = (\<lambda>(n, ns, t, os). JArr [JStr n, JStr ns, JStr (unary t),
       JArr (map (\<lambda>r. JArr [JStr (or_Name r), JStr (or_UID r)]) os)]),
     ObjectMeta_of_json = demo_meta_of_json, ListMeta_json = JStr, ListMeta_of_json = string_of_json,
     Quantity_String = (\<lambda>q. unary (Value q) @ CHR '','' # unary (MilliValue q)),
     ParseQuantity = (\<lambda>s. Some \<lparr>Value = of_unary (takeWhile (\<lambda>c. c \<noteq> CHR '','') s),
       MilliValue = of_unary (tl (dropWhile (\<lambda>c. c \<noteq> CHR '','') s))\<rparr>),
     MicroTime_String = (\<lambda>t. unary (micro t)), MicroTime_Parse = (\<lambda>s. Some (of_unary s))\<rparr>"

lemma demo_lib_laws: "resource_laws demo_lib"
proof -
  have "those (map ((\<lambda>v. case v of JArr [JStr a, JStr b] \<Rightarrow> Some \<lparr>or_Name = a, or_UID = b\<rparr> | _ \<Rightarrow> None) \<circ>
      (\<lambda>r. JArr [JStr (or_Name r), JStr (or_UID r)])) os) = Some os" for os
    by (induction os) simp_all
  then show ?thesis by (simp add: resource_laws_def demo_lib_def unary_no_comma split_beta)
qed

definition demo_stored :: "string PodGroupList" where
  "demo_stored = \<lparr>pgl_Type = \<lparr>Kind = ''PodGroupList'', APIVersion = ''v1alpha1''\<rparr>, pgl_Meta = ''7'',
     pgl_Items = [(\<lparr>Kind = '''', APIVersion = ''''\<rparr>, zero_PodGroup\<lparr>pg_Name := ''g'', Spec := \<lparr>MinMember = 3,
       MinResources = [''cpu'' \<mapsto> \<lparr>Value = 2, MilliValue = 2000\<rparr>], ScheduleTimeoutSeconds = Some 0\<rparr>,
       Status := zero_PodGroupStatus\<lparr>Phase := PodGroupPending, Running := 1, CreationTime := 1234567\<rparr>\<rparr>)]\<rparr>"

theorem PodGroupList_roundtrip_witness:
  "map_option (map (CreationTime \<circ> Status \<circ> snd) \<circ> pgl_Items)
     (PodGroupList_of_json demo_lib '''' (PodGroupList_json demo_lib demo_stored)) = Some [1234000]
   \<and> map_option (CreationTime \<circ> Status \<circ> snd)
     (PodGroup_of_json demo_lib (prune podgroups_schema (PodGroup_json demo_lib (hd (pgl_Items demo_stored))))) = Some 0"
proof -
  have "\<forall>(tm, pg) \<in> set (pgl_Items demo_stored). group_ok pg"
    by (simp add: demo_stored_def group_ok_def spec_ok_def status_ok_def k8s_zero_defs whole_second_def
        four_digit_year_def in_int32_def)
  from PodGroupList_roundtrip [OF demo_lib_laws this, of "''''"] show ?thesis
    by (simp add: demo_stored_def stored_group_def stored_status_def micro_def del: PodGroup_json.simps)
qed

text \<open>A list of quotas reads back entirely.\<close>

theorem ElasticQuotaList_roundtrip:
  assumes "resource_laws L" and "\<forall>q \<in> set (eql_Items l). quota_ok q"
  shows "ElasticQuotaList_of_json L zero (ElasticQuotaList_json L l) = Some l"
  using quota_codec.items [of L "eql_Items l" L zero "eql_Type l" "eql_Meta l"] assms
  by (simp add: ElasticQuotaList_json_def ElasticQuotaList_of_json_def)

end
