(* ===== verification/Flux_Messages.thy ===== *)
theory Flux_Messages
  imports K8s_Types
begin

text \<open>
  The messages between the scheduler plugin and the Fluxion sidecar
  (\<open>src/fluence/fluxcli-grpc\<close>). Job ids travel as \<open>int64\<close> and are kept by both ends as
  \<open>uint64\<close>, a \<open>64 word\<close> here; the conversions reinterpret the bits.
\<close>

record PodSpec =
  ps_Id :: string
  ps_Container :: string
  ps_Cpu :: int32
  ps_Memory :: int64
  ps_Gpu :: int64
  ps_Storage :: int64
  ps_Labels :: "string list"

record MatchRequest =
  mr_Ps :: PodSpec
  mr_Request :: string
  mr_Count :: int32

record NodeAlloc =
  NodeID :: string
  Tasks :: int32

record MatchResponse =
  PodID :: string
  Nodelist :: "NodeAlloc list"
  mres_JobID :: int64

record CancelRequest =
  creq_JobID :: int64

record CancelResponse =
  cres_JobID :: int64
  cres_Error :: int32

type_synonym jobid = "64 word"

definition int64_of_jobid :: "jobid \<Rightarrow> int64" where
  "int64_of_jobid w = sint w"

definition jobid_of_int64 :: "int64 \<Rightarrow> jobid" where
  "jobid_of_int64 i = word_of_int i"

lemma jobid_of_int64_of_jobid [simp]: "jobid_of_int64 (int64_of_jobid w) = w"
  by (simp add: jobid_of_int64_def int64_of_jobid_def)

lemma int64_of_jobid_of_int64 [simp]: "in_int64 i \<Longrightarrow> int64_of_jobid (jobid_of_int64 i) = i"
  by (simp add: jobid_of_int64_def int64_of_jobid_def flip: wrap64_sint)

lemma int64_of_jobid_inj [simp]: "int64_of_jobid v = int64_of_jobid w \<longleftrightarrow> v = w"
  by (metis jobid_of_int64_of_jobid)

end
