(* ===== verification/Podspec.thy ===== *)
theory Podspec
  imports Flux_Messages
begin

text \<open>
  \<open>pkg/fluence/podspec/podspec.go\<close>: the resources of a pod, summed over its
  containers, as the request sent to Fluxion. Go ranges over the labels map in an
  order of the runtime's choice; the order is an argument, and the facts hold for
  every order.
\<close>

section \<open>The operations\<close>

definition getPodJobspecLabels :: "string list \<Rightarrow> Pod \<Rightarrow> string list" where
  "getPodJobspecLabels order pod =
     fold (\<lambda>l labels. if Contains l ''jobspec'' then labels @ [label_or_empty (pod_Labels pod) l] else labels)
       order []"

text \<open>The order is one the runtime may choose: every key once.\<close>

definition range_order :: "labels \<Rightarrow> string list \<Rightarrow> bool" where
  "range_order m order \<longleftrightarrow> distinct order \<and> (\<forall>k. k \<in> set order \<longleftrightarrow> label m k \<noteq> None)"

text \<open>The accumulators of \<open>PreparePodJobSpec\<close>'s loop over the containers.\<close>

record sums =
  cpus :: int32
  memory :: int64
  storage :: int64
  gpus :: int64

definition add_container :: "Container \<Rightarrow> sums \<Rightarrow> sums" where
  "add_container c s =
     \<lparr>cpus = wrap32 (cpus s + wrap32 (Value (resource_of (Requests c) ''cpu''))),
      memory = wrap64 (memory s + Value (resource_of (Requests c) ''memory'')),
      storage = wrap64 (storage s + Value (resource_of (Requests c) ''ephemeral-storage'')),
      gpus = wrap64 (gpus s + Value (resource_of (Limits c) ''nvidia.com/gpu''))\<rparr>"

definition zero_sums :: sums where
  "zero_sums = \<lparr>cpus = 0, memory = 0, storage = 0, gpus = 0\<rparr>"

definition sum_containers :: "Container list \<Rightarrow> sums" where
  "sum_containers cs = fold add_container cs zero_sums"

definition PreparePodJobSpec :: "string list \<Rightarrow> Pod \<Rightarrow> string \<Rightarrow> PodSpec" where
  "PreparePodJobSpec order pod groupName =
     (let s = sum_containers (pod_Containers pod);
          cpu = (if cpus s = 0 then 1 else cpus s)
      in \<lparr>ps_Id = groupName, ps_Container = groupName, ps_Cpu = cpu, ps_Memory = memory s,
          ps_Gpu = gpus s, ps_Storage = storage s, ps_Labels = getPodJobspecLabels order pod\<rparr>)"

section \<open>The labels\<close>

lemma fold_append_filter:
  "fold (\<lambda>x acc. if P x then acc @ [f x] else acc) xs acc = acc @ map f (filter P xs)"
  by (induction xs arbitrary: acc) auto

lemma getPodJobspecLabels_eq:
  "getPodJobspecLabels order pod =
     map (label_or_empty (pod_Labels pod)) (filter (\<lambda>l. Contains l ''jobspec'') order)"
  by (simp add: getPodJobspecLabels_def fold_append_filter)

lemma getPodJobspecLabels_set:
  assumes "range_order (pod_Labels pod) order"
  shows "set (getPodJobspecLabels order pod) =
           {v. \<exists>k. Contains k ''jobspec'' \<and> label (pod_Labels pod) k = Some v}"
  using assms
  by (force simp: getPodJobspecLabels_eq range_order_def label_or_empty_def split: option.splits)

section \<open>The sums\<close>

text \<open>
  The sums of the source wrap around; each equals the wrapped mathematical sum, so
  it is exact whenever that sum fits.
\<close>

definition sums_in_range :: "sums \<Rightarrow> bool" where
  "sums_in_range s \<longleftrightarrow> in_int32 (cpus s) \<and> in_int64 (memory s) \<and> in_int64 (storage s) \<and> in_int64 (gpus s)"

lemma add_container_in_range: "sums_in_range (add_container c s)"
  by (simp add: sums_in_range_def add_container_def)

lemma fold_add_container_wrapped:
  "sums_in_range s \<Longrightarrow> fold add_container cs s =
     \<lparr>cpus = wrap32 (cpus s + (\<Sum>c\<leftarrow>cs. Value (resource_of (Requests c) ''cpu''))),
      memory = wrap64 (memory s + (\<Sum>c\<leftarrow>cs. Value (resource_of (Requests c) ''memory''))),
      storage = wrap64 (storage s + (\<Sum>c\<leftarrow>cs. Value (resource_of (Requests c) ''ephemeral-storage''))),
      gpus = wrap64 (gpus s + (\<Sum>c\<leftarrow>cs. Value (resource_of (Limits c) ''nvidia.com/gpu'')))\<rparr>"
proof (induction cs arbitrary: s)
  case Nil
  then show ?case by (simp add: sums_in_range_def)
next
  case (Cons c cs)
  have w32: "wrap32 (wrap32 (a + wrap32 b) + d) = wrap32 (a + (b + d))" for a b d
    by (metis wrap32_add_wrap add.assoc add.commute)
  show ?case
    by (simp add: Cons.IH [OF add_container_in_range])
      (simp add: add_container_def wrap64_add_wrap w32 add.assoc)
qed

lemma sum_containers_wrapped:
  "sum_containers cs =
     \<lparr>cpus = wrap32 (\<Sum>c\<leftarrow>cs. Value (resource_of (Requests c) ''cpu'')),
      memory = wrap64 (\<Sum>c\<leftarrow>cs. Value (resource_of (Requests c) ''memory'')),
      storage = wrap64 (\<Sum>c\<leftarrow>cs. Value (resource_of (Requests c) ''ephemeral-storage'')),
      gpus = wrap64 (\<Sum>c\<leftarrow>cs. Value (resource_of (Limits c) ''nvidia.com/gpu''))\<rparr>"
  by (simp add: sum_containers_def fold_add_container_wrapped zero_sums_def sums_in_range_def
      in_int32_def in_int64_def)

text \<open>What the containers of a pod ask for of one resource, added up.\<close>

definition requested :: "(Container \<Rightarrow> ResourceList) \<Rightarrow> string \<Rightarrow> Pod \<Rightarrow> int" where
  "requested rl name pod = (\<Sum>c\<leftarrow>pod_Containers pod. Value (resource_of (rl c) name))"

lemma sum_containers_requested:
  "sum_containers (pod_Containers pod) =
     \<lparr>cpus = wrap32 (requested Requests ''cpu'' pod),
      memory = wrap64 (requested Requests ''memory'' pod),
      storage = wrap64 (requested Requests ''ephemeral-storage'' pod),
      gpus = wrap64 (requested Limits ''nvidia.com/gpu'' pod)\<rparr>"
  by (simp add: sum_containers_wrapped requested_def)

lemma PreparePodJobSpec_Cpu_nonzero: "ps_Cpu (PreparePodJobSpec order pod g) \<noteq> 0"
  by (simp add: PreparePodJobSpec_def Let_def)

section \<open>Properties\<close>

text \<open>
  C35. The request for a pod carries exactly the sums of its containers' CPU, memory
  and ephemeral storage requests and GPU limits whenever they fit their widths, with
  at least one CPU; its CPU count is never 0, whatever the containers ask for.
\<close>

theorem PreparePodJobSpec_sums:
  assumes "in_int32 (requested Requests ''cpu'' pod)" "in_int64 (requested Requests ''memory'' pod)"
    "in_int64 (requested Requests ''ephemeral-storage'' pod)"
    "in_int64 (requested Limits ''nvidia.com/gpu'' pod)"
  shows "PreparePodJobSpec order pod g =
    \<lparr>ps_Id = g, ps_Container = g,
     ps_Cpu = (if requested Requests ''cpu'' pod = 0 then 1 else requested Requests ''cpu'' pod),
     ps_Memory = requested Requests ''memory'' pod, ps_Gpu = requested Limits ''nvidia.com/gpu'' pod,
     ps_Storage = requested Requests ''ephemeral-storage'' pod,
     ps_Labels = getPodJobspecLabels order pod\<rparr>
    \<and> ps_Cpu (PreparePodJobSpec order pod g) \<noteq> 0"
  using assms by (simp add: PreparePodJobSpec_def sum_containers_requested)

definition example_pod :: Pod where
  "example_pod = (plain_pod ''default'' ''pi-0'' None)\<lparr>pod_Containers :=
     [\<lparr>Requests = [''cpu'' \<mapsto> \<lparr>Value = 2, MilliValue = 2000\<rparr>], Limits = Map.empty\<rparr>,
      \<lparr>Requests = [''cpu'' \<mapsto> \<lparr>Value = 1, MilliValue = 500\<rparr>], Limits = Map.empty\<rparr>]\<rparr>"

theorem PreparePodJobSpec_sums_witness:
  "ps_Cpu (PreparePodJobSpec [] example_pod ''g'') = 3"
  using PreparePodJobSpec_sums [of example_pod "[]" "''g''"]
  by (simp add: requested_def example_pod_def plain_pod_def resource_of_def zero_Quantity_def
      in_int32_def in_int64_def)

end
