(* ===== verification/Cluster_Graph.thy ===== *)
theory Cluster_Graph
  imports JGF Podspec
begin

text \<open>
  \<open>src/fluence/utils/utils.go\<close>: the resource graph of the whole cluster
  (\<open>CreateInClusterJGF\<close>), the requests of the pods already running
  (\<open>computeTotalRequests\<close>, \<open>RegisterExisting\<close>). The Kubernetes API, the kubectl helper
  that sums a pod's requests, the addition of quantities and the permissions of the file system are the
  fields of the record \<open>kube\<close>, an argument of the definitions. The files themselves are a map from
  paths to texts, which the operations take and return.
\<close>

section \<open>The cluster\<close>

record ClusterNode =
  cn_Name :: string
  cn_Labels :: labels
  Unschedulable :: bool
  Allocatable :: ResourceList

record kube =
  InClusterConfig :: "unit result"
  NewForConfig :: "unit result"
  Nodes_List :: "ClusterNode list result"
  ParseSelector :: "string \<Rightarrow> string result"
  Pods_List :: "string \<Rightarrow> Pod list result"
  PodRequestsAndLimits :: "Pod \<Rightarrow> ResourceList \<times> ResourceList"
  Quantity_Add :: "Quantity \<Rightarrow> Quantity \<Rightarrow> Quantity"
  os_Create :: "string \<Rightarrow> unit result"
  file_Write :: "string \<Rightarrow> string \<Rightarrow> unit result"

definition controlPlaneLabel :: string where
  "controlPlaneLabel = ''node-role.kubernetes.io/control-plane''"

definition defaultClusterName :: string where
  "defaultClusterName = ''k8scluster''"

section \<open>Requests of existing pods\<close>

text \<open>
  The inner loop ranges over a map, whose keys are distinct, so it is an update at
  every key at once.
\<close>

definition add_requests :: "kube \<Rightarrow> ResourceList \<Rightarrow> ResourceList \<Rightarrow> ResourceList" where
  "add_requests K podReqs tot = (\<lambda>name.
     case podReqs name of
       None \<Rightarrow> tot name
     | Some podReqValue \<Rightarrow>
         (case tot name of
            None \<Rightarrow> Some podReqValue
          | Some v \<Rightarrow> Some (Quantity_Add K v podReqValue)))"

definition computeTotalRequests :: "kube \<Rightarrow> Pod list \<Rightarrow> ResourceList" where
  "computeTotalRequests K podList =
     fold (\<lambda>pod tot. add_requests K (fst (PodRequestsAndLimits K pod)) tot) podList Map.empty"

text \<open>\<open>RegisterExisting\<close> keeps a \<open>PodSpec\<close> per node name as the holder of the sums.\<close>

definition zero_PodSpec :: PodSpec where
  "zero_PodSpec = \<lparr>ps_Id = '''', ps_Container = '''', ps_Cpu = 0, ps_Memory = 0, ps_Gpu = 0,
     ps_Storage = 0, ps_Labels = []\<rparr>"

definition register_container :: "Container \<Rightarrow> PodSpec \<Rightarrow> PodSpec" where
  "register_container c ps = ps
     \<lparr>ps_Cpu := wrap32 (ps_Cpu ps + wrap32 (Value (resource_of (Requests c) ''cpu''))),
      ps_Memory := wrap64 (ps_Memory ps + Value (resource_of (Requests c) ''memory'')),
      ps_Storage := wrap64 (ps_Storage ps + Value (resource_of (Requests c) ''ephemeral-storage'')),
      ps_Gpu := wrap64 (ps_Gpu ps + Value (resource_of (Limits c) ''nvidia.com/gpu''))\<rparr>"

definition register_pod :: "Pod \<Rightarrow> (string \<rightharpoonup> PodSpec) \<Rightarrow> (string \<rightharpoonup> PodSpec)" where
  "register_pod pod nodes =
     (let ps = (case nodes (pod_NodeName pod) of None \<Rightarrow> zero_PodSpec | Some ps \<Rightarrow> ps)
      in nodes(pod_NodeName pod \<mapsto> fold register_container (pod_Containers pod) ps))"

definition RegisterExisting :: "kube \<Rightarrow> (string \<rightharpoonup> PodSpec) result" where
  "RegisterExisting K =
     (case Pods_List K '''' of
        Inl err \<Rightarrow> Inl err
      | Inr pods \<Rightarrow> Inr (fold register_pod pods Map.empty))"

section \<open>The graph of the cluster\<close>

record loop_state =
  fluxgraph :: FluxJGF
  totalAllocCpu :: int64
  subnetLookup :: "string \<rightharpoonup> Node"
  subnetCounter :: int64

text \<open>The three loops over the GPUs, cores and memory chunks of a node.\<close>

definition add_children ::
    "(FluxJGF \<Rightarrow> int64 \<Rightarrow> Node \<times> FluxJGF) \<Rightarrow> string \<Rightarrow> int64 \<Rightarrow> FluxJGF \<Rightarrow> FluxJGF" where
  "add_children mk parent bound g0 =
     fold (\<lambda>index g. let (child, g') = mk g (int index)
                     in MakeBidirectionalEdge g' parent (node_Id child)) [0..<nat bound] g0"

definition pods_selector :: "ClusterNode \<Rightarrow> string" where
  "pods_selector node = ''spec.nodeName='' @ cn_Name node @ '',status.phase!='' @ phase_string PodSucceeded
     @ '',status.phase!='' @ phase_string PodFailed"

definition availCpu :: "kube \<Rightarrow> ClusterNode \<Rightarrow> Pod list \<Rightarrow> int64" where
  "availCpu K node pods =
     (let cpuReqs = resource_of (computeTotalRequests K pods) ''cpu'';
          totalCpu = MilliValue (resource_of (Allocatable node) ''cpu'')
      in go_quot (wrap64 (totalCpu - MilliValue cpuReqs)) 1000)"

definition availMem :: "kube \<Rightarrow> ClusterNode \<Rightarrow> Pod list \<Rightarrow> int64" where
  "availMem K node pods =
     (let memReqs = resource_of (computeTotalRequests K pods) ''memory'';
          totalMem = Value (resource_of (Allocatable node) ''memory'')
      in wrap64 (totalMem - Value memReqs))"

text \<open>The part of the loop body that builds the subnet of a node, when it is new.\<close>

definition find_subnet :: "string \<Rightarrow> string \<Rightarrow> loop_state \<Rightarrow> Node \<times> loop_state" where
  "find_subnet clusterId subnetName st =
     (case subnetLookup st subnetName of
        Some subnetNode \<Rightarrow> (subnetNode, st)
      | None \<Rightarrow>
          (let (subnetNode, g) = MakeSubnet (fluxgraph st) subnetName (subnetCounter st)
           in (subnetNode,
               st\<lparr>fluxgraph := MakeBidirectionalEdge g clusterId (node_Id subnetNode),
                  subnetCounter := wrap64 (subnetCounter st + 1)\<rparr>)))"

text \<open>The part that builds the compute node with its GPUs, cores and memory.\<close>

definition add_compute_node ::
    "kube \<Rightarrow> nat \<Rightarrow> ClusterNode \<Rightarrow> Pod list \<Rightarrow> Node \<Rightarrow> FluxJGF \<Rightarrow> FluxJGF" where
  "add_compute_node K nodeCount node pods subnetNode g0 =
     (let (computeNode, g1) = MakeNode g0 (cn_Name node) (md_Name (Metadata subnetNode)) (int nodeCount);
          g2 = MakeBidirectionalEdge g1 (node_Id subnetNode) (node_Id computeNode);
          subpath = md_Name (Metadata subnetNode) @ ''/'' @ md_Name (Metadata computeNode);
          g3 = (case Allocatable node ''nvidia.com/gpu'' of
                  None \<Rightarrow> g2
                | Some gpuAllocatable \<Rightarrow>
                    add_children (\<lambda>g i. MakeGPU g NvidiaGPU subpath 1 i) (node_Id computeNode)
                      (Value gpuAllocatable) g2);
          g4 = add_children (\<lambda>g i. MakeCore g CoreType subpath i) (node_Id computeNode)
                 (availCpu K node pods) g3;
          fractionMem = drop_bit 30 (availMem K node pods)
      in add_children (\<lambda>g i. MakeMemory g MemoryType subpath 1024 i) (node_Id computeNode) fractionMem g4)"

definition add_cluster_node ::
    "kube \<Rightarrow> string \<Rightarrow> string \<Rightarrow> nat \<times> ClusterNode \<Rightarrow> loop_state \<Rightarrow> loop_state result" where
  "add_cluster_node K skipLabel clusterId item st =
     (case item of (nodeCount, node) \<Rightarrow>
        if label (cn_Labels node) controlPlaneLabel \<noteq> None then Inr st
        else if skipLabel \<noteq> '''' \<and> label (cn_Labels node) skipLabel \<noteq> None then Inr st
        else if Unschedulable node then Inr st
        else
          bind_result (ParseSelector K (pods_selector node)) (\<lambda>fieldselector.
          bind_result (Pods_List K fieldselector) (\<lambda>pods.
            let subnetName = label_or_empty (cn_Labels node) ''topology.kubernetes.io/zone'';
                (subnetNode, st1) = find_subnet clusterId subnetName st
            in Inr (st1\<lparr>fluxgraph := add_compute_node K nodeCount node pods subnetNode (fluxgraph st1),
                        totalAllocCpu := wrap64 (totalAllocCpu st1 + availCpu K node pods)\<rparr>))))"

text \<open>
  \<open>WriteJGF\<close> encodes the graph, which cannot fail for these types, and writes it to a file that it
  creates or empties; a failure of the file system exits the process.
\<close>

type_synonym files = "string \<rightharpoonup> string"

definition WriteJGF :: "kube \<Rightarrow> FluxJGF \<Rightarrow> string \<Rightarrow> files \<Rightarrow> unit result \<times> files" where
  "WriteJGF K g path fs =
     (let encoded = encodedJGF g in
      case os_Create K path of
        Inl err \<Rightarrow> (Inl (Panic PanicCalled), fs)
      | Inr _ \<Rightarrow>
          (let f = fs(path \<mapsto> '''') in
           case file_Write K path encoded of
             Inl err \<Rightarrow> (Inl (Panic PanicCalled), f)
           | Inr _ \<Rightarrow> (Inr (), f(path \<mapsto> encoded))))"

text \<open>Everything of \<open>CreateInClusterJGF\<close> up to the write: the finished graph.\<close>

definition cluster_graph :: "kube \<Rightarrow> string \<Rightarrow> loop_state result" where
  "cluster_graph K skipLabel =
     bind_result (InClusterConfig K) (\<lambda>config.
     bind_result (NewForConfig K) (\<lambda>clientset.
     bind_result (Nodes_List K) (\<lambda>nodes.
     bind_result (InitCluster NewFluxJGF defaultClusterName) (\<lambda>(clusterNode, g).
       fold_result (add_cluster_node K skipLabel (node_Id clusterNode)) (enumerate 0 nodes)
         \<lparr>fluxgraph = g, totalAllocCpu = 0, subnetLookup = Map.empty, subnetCounter = 0\<rparr>))))"

definition CreateInClusterJGF :: "kube \<Rightarrow> string \<Rightarrow> string \<Rightarrow> files \<Rightarrow> unit result \<times> files" where
  "CreateInClusterJGF K filename skipLabel fs =
     (case cluster_graph K skipLabel of
        Inl err \<Rightarrow> (Inl err, fs)
      | Inr st \<Rightarrow> WriteJGF K (fluxgraph st) filename fs)"


section \<open>What the loops add\<close>

definition compute_nodes :: "FluxJGF \<Rightarrow> string list" where
  "compute_nodes g =
     map (\<lambda>n. Basename (Metadata n)) (filter (\<lambda>n. md_Type (Metadata n) = NodeType) (Nodes (Graph g)))"

lemma compute_nodes_edge [simp]: "compute_nodes (MakeBidirectionalEdge g p c) = compute_nodes g"
  by (simp add: compute_nodes_def)

lemma adds_vertex_compute_nodes:
  "adds_vertex ty g n g' \<Longrightarrow>
   compute_nodes g' = compute_nodes g @ (if ty = NodeType then [Basename (Metadata n)] else [])"
  by (auto simp: adds_vertex_def compute_nodes_def)

text \<open>
  A graph grown from another: the invariant holds, no vertex is lost, the vertices of
  each type are counted, and the compute nodes added are known by name.
\<close>

definition grown :: "FluxJGF \<Rightarrow> FluxJGF \<Rightarrow> (string \<Rightarrow> nat) \<Rightarrow> string list \<Rightarrow> bool" where
  "grown g g' k names \<longleftrightarrow>
     jgf_inv g' \<and> set (ids g) \<subseteq> set (ids g') \<and> (\<forall>t. number_of t g' = number_of t g + k t)
   \<and> compute_nodes g' = compute_nodes g @ names
   \<and> (\<forall>n\<in>set (Nodes (Graph g')). n \<in> set (Nodes (Graph g)) \<or> md_Type (Metadata n) \<in> vertex_kinds)"

context vertex_maker
begin

lemma add_children_Suc:
  "add_children mk parent (int (Suc k)) g =
     (let (child, g') = mk (add_children mk parent (int k) g) (int k)
      in MakeBidirectionalEdge g' parent (node_Id child))"
  by (simp only: add_children_def nat_int upt_Suc_append [OF le0]) simp

lemma add_children_spec:
  assumes "jgf_inv g" and "parent \<in> set (ids g)"
  shows "jgf_inv (add_children mk parent (int k) g) \<and>
    set (ids g) \<subseteq> set (ids (add_children mk parent (int k) g)) \<and>
    (\<forall>t. number_of t (add_children mk parent (int k) g) = number_of t g + (if t = ty then k else 0)) \<and>
    (ty \<noteq> NodeType \<longrightarrow> compute_nodes (add_children mk parent (int k) g) = compute_nodes g) \<and>
    (\<forall>n\<in>set (Nodes (Graph (add_children mk parent (int k) g))).
       n \<in> set (Nodes (Graph g)) \<or> md_Type (Metadata n) \<in> vertex_kinds)"
proof (induction k)
  case 0
  with assms show ?case by (simp add: add_children_def)
next
  case (Suc k)
  let ?g = "add_children mk parent (int k) g"
  obtain c g' where mk: "mk ?g (int k) = (c, g')" by (cases "mk ?g (int k)") auto
  note v = mk_adds [OF mk]
  have parent: "parent \<in> set (ids ?g)" using Suc assms(2) by blast
  have "jgf_inv (MakeBidirectionalEdge g' parent (node_Id c))"
    using attach_inv [OF _ parent mk] Suc by blast
  moreover have "set (ids ?g) \<subseteq> set (ids g')" using adds_vertex_ids [OF v] by auto
  moreover have "number_of t g' = number_of t ?g + (if t = ty then 1 else 0)" for t
    by (rule adds_vertex_number [OF v])
  moreover have "ty \<noteq> NodeType \<longrightarrow> compute_nodes g' = compute_nodes ?g"
    using adds_vertex_compute_nodes [OF v] by simp
  moreover have "set (Nodes (Graph g')) = insert c (set (Nodes (Graph ?g)))" "md_Type (Metadata c) \<in> vertex_kinds"
    using v mk_kind by (auto simp: adds_vertex_def)
  ultimately show ?case using Suc by (auto simp: add_children_Suc mk simp del: of_nat_Suc)
qed

lemma add_children_bound: "add_children mk parent b g = add_children mk parent (int (nat b)) g"
  by (simp add: add_children_def)

lemma add_children_grown:
  assumes "jgf_inv g" and "parent \<in> set (ids g)" and "ty \<noteq> NodeType"
  shows "grown g (add_children mk parent b g) (\<lambda>t. if t = ty then nat b else 0) []"
  unfolding grown_def append_Nil2 add_children_bound [of parent b g]
  using add_children_spec [OF assms(1,2), of "nat b"] assms(3) by blast

end

lemma vertex_types_distinct [simp]:
  "GPUType \<noteq> NodeType" "CoreType \<noteq> NodeType" "MemoryType \<noteq> NodeType" "SubnetType \<noteq> NodeType"
  "NodeType \<noteq> GPUType" "NodeType \<noteq> CoreType" "NodeType \<noteq> MemoryType" "NodeType \<noteq> SubnetType"
  "ClusterType \<noteq> NodeType" "ClusterType \<noteq> SubnetType" "ClusterType \<noteq> CoreType"
  "ClusterType \<noteq> MemoryType" "ClusterType \<noteq> GPUType"
  "SubnetType \<noteq> CoreType" "SubnetType \<noteq> MemoryType" "SubnetType \<noteq> GPUType" "SubnetType \<noteq> ClusterType"
  "CoreType \<noteq> SubnetType" "CoreType \<noteq> MemoryType" "CoreType \<noteq> GPUType" "CoreType \<noteq> ClusterType"
  "MemoryType \<noteq> SubnetType" "MemoryType \<noteq> CoreType" "MemoryType \<noteq> GPUType" "MemoryType \<noteq> ClusterType"
  "GPUType \<noteq> SubnetType" "GPUType \<noteq> CoreType" "GPUType \<noteq> MemoryType" "GPUType \<noteq> ClusterType"
  "NodeType \<noteq> ClusterType"
  by (simp_all add: vertex_types)

text \<open>The GPUs a node reports; none when the resource is absent.\<close>

definition gpu_count :: "ClusterNode \<Rightarrow> nat" where
  "gpu_count node = (case Allocatable node ''nvidia.com/gpu'' of None \<Rightarrow> 0 | Some q \<Rightarrow> nat (Value q))"

lemma grown_trans:
  assumes "grown g1 g2 k names" and "grown g2 g3 k' names'"
  shows "grown g1 g3 (\<lambda>t. k t + k' t) (names @ names')"
  using assms by (auto simp: grown_def)

lemma grown_refl: "jgf_inv g \<Longrightarrow> grown g g (\<lambda>_. 0) []"
  by (simp add: grown_def)

lemma grown_attach:
  assumes "jgf_inv g" and "parent \<in> set (ids g)" and "adds_vertex ty g n g'" and "ty \<in> vertex_kinds"
  shows "grown g (MakeBidirectionalEdge g' parent (node_Id n)) (\<lambda>t. if t = ty then 1 else 0)
           (if ty = NodeType then [Basename (Metadata n)] else [])"
    and "node_Id n \<in> set (ids (MakeBidirectionalEdge g' parent (node_Id n)))"
  using assms adds_vertex_ids [OF assms(3)] adds_vertex_inv [OF assms(1,3)]
    adds_vertex_number [OF assms(3)] adds_vertex_compute_nodes [OF assms(3)]
  by (auto simp: grown_def adds_vertex_def intro: MakeBidirectionalEdge_inv)


text \<open>Joining the compute node of a Kubernetes node and everything below it.\<close>

lemma add_compute_node_grown:
  assumes "jgf_inv g" and "node_Id subnetNode \<in> set (ids g)"
  shows "grown g (add_compute_node K nodeCount node pods subnetNode g)
    (\<lambda>t. (if t = NodeType then 1 else 0) + (if t = GPUType then gpu_count node else 0)
       + (if t = CoreType then nat (availCpu K node pods) else 0)
       + (if t = MemoryType then nat (drop_bit 30 (availMem K node pods)) else 0)) [cn_Name node]"
proof -
  let ?sn = "md_Name (Metadata subnetNode)"
  obtain c g1 where mk: "MakeNode g (cn_Name node) ?sn (int nodeCount) = (c, g1)"
    by (cases "MakeNode g (cn_Name node) ?sn (int nodeCount)") auto
  have name: "Basename (Metadata c) = cn_Name node"
    using mk by (auto simp: MakeNode_def make_defs)
  define g2 where "g2 = MakeBidirectionalEdge g1 (node_Id subnetNode) (node_Id c)"
  define sub where "sub = ?sn @ ''/'' @ md_Name (Metadata c)"
  define g3 where "g3 = (case Allocatable node ''nvidia.com/gpu'' of None \<Rightarrow> g2
     | Some q \<Rightarrow> add_children (\<lambda>g i. MakeGPU g NvidiaGPU sub 1 i) (node_Id c) (Value q) g2)"
  define g4 where "g4 = add_children (\<lambda>g i. MakeCore g CoreType sub i) (node_Id c) (availCpu K node pods) g3"
  define g5 where "g5 = add_children (\<lambda>g i. MakeMemory g MemoryType sub 1024 i) (node_Id c)
     (drop_bit 30 (availMem K node pods)) g4"
  note att = grown_attach [OF assms mk_node.mk_adds [OF mk] mk_node.mk_kind]
  have s2: "grown g g2 (\<lambda>t. if t = NodeType then 1 else 0) [cn_Name node]" and c2: "node_Id c \<in> set (ids g2)"
    using att by (simp_all add: g2_def name)
  have s3: "grown g2 g3 (\<lambda>t. if t = GPUType then gpu_count node else 0) []"
    using mk_gpu.add_children_grown [of g2 "node_Id c" NvidiaGPU sub 1] s2 c2 grown_refl [of g2]
    by (auto simp: g3_def gpu_count_def grown_def split: option.splits)
  then have c3: "node_Id c \<in> set (ids g3)" using c2 by (auto simp: grown_def)
  have s4: "grown g3 g4 (\<lambda>t. if t = CoreType then nat (availCpu K node pods) else 0) []"
    unfolding g4_def using s3 c3 by (intro mk_core.add_children_grown) (simp_all add: grown_def)
  then have c4: "node_Id c \<in> set (ids g4)" using c3 by (auto simp: grown_def)
  have s5: "grown g4 g5 (\<lambda>t. if t = MemoryType then nat (drop_bit 30 (availMem K node pods)) else 0) []"
    unfolding g5_def using s4 c4 by (intro mk_memory.add_children_grown) (simp_all add: grown_def)
  have "add_compute_node K nodeCount node pods subnetNode g = g5"
    unfolding g5_def g4_def g3_def g2_def sub_def add_compute_node_def
    by (simp add: mk Let_def split: option.split)
  with grown_trans [OF grown_trans [OF grown_trans [OF s2 s3] s4] s5] show ?thesis by simp
qed

section \<open>What the cluster graph holds\<close>

definition schedulable :: "string \<Rightarrow> ClusterNode \<Rightarrow> bool" where
  "schedulable skipLabel node \<longleftrightarrow>
     label (cn_Labels node) controlPlaneLabel = None
   \<and> (skipLabel = '''' \<or> label (cn_Labels node) skipLabel = None) \<and> \<not> Unschedulable node"

text \<open>The pods the API reports as running on a node.\<close>

definition running_pods :: "kube \<Rightarrow> ClusterNode \<Rightarrow> Pod list result" where
  "running_pods K node = bind_result (ParseSelector K (pods_selector node)) (Pods_List K)"

definition pods_on :: "kube \<Rightarrow> ClusterNode \<Rightarrow> Pod list" where
  "pods_on K node = (case running_pods K node of Inl _ \<Rightarrow> [] | Inr pods \<Rightarrow> pods)"

definition contribution :: "kube \<Rightarrow> string \<Rightarrow> ClusterNode \<Rightarrow> string \<Rightarrow> nat" where
  "contribution K skipLabel node t =
     (if \<not> schedulable skipLabel node then 0
      else if t = SubnetType \<or> t = NodeType then 1
      else if t = GPUType then gpu_count node
      else if t = CoreType then nat (availCpu K node (pods_on K node))
      else if t = MemoryType then nat (drop_bit 30 (availMem K node (pods_on K node)))
      else 0)"

definition loop_inv :: "string \<Rightarrow> loop_state \<Rightarrow> bool" where
  "loop_inv clusterId st \<longleftrightarrow>
     jgf_inv (fluxgraph st) \<and> clusterId \<in> set (ids (fluxgraph st)) \<and> subnetLookup st = Map.empty"

lemma find_subnet_grown:
  assumes "loop_inv cid st" and "find_subnet cid nm st = (sn, st')"
  shows "grown (fluxgraph st) (fluxgraph st') (\<lambda>t. if t = SubnetType then 1 else 0) []"
    and "node_Id sn \<in> set (ids (fluxgraph st'))" and "subnetLookup st' = Map.empty"
proof -
  obtain n g where mk: "MakeSubnet (fluxgraph st) nm (subnetCounter st) = (n, g)"
    by (cases "MakeSubnet (fluxgraph st) nm (subnetCounter st)") auto
  have eqs: "sn = n" "fluxgraph st' = MakeBidirectionalEdge g cid (node_Id n)" "subnetLookup st' = Map.empty"
    using assms mk by (auto simp: find_subnet_def loop_inv_def)
  have inv: "jgf_inv (fluxgraph st)" and cid: "cid \<in> set (ids (fluxgraph st))"
    using assms(1) by (simp_all add: loop_inv_def)
  from grown_attach [OF inv cid mk_subnet.mk_adds [OF mk] mk_subnet.mk_kind] eqs
  show "grown (fluxgraph st) (fluxgraph st') (\<lambda>t. if t = SubnetType then 1 else 0) []"
    and "node_Id sn \<in> set (ids (fluxgraph st'))" by simp_all
  show "subnetLookup st' = Map.empty" by (fact eqs)
qed

lemma add_cluster_node_grown:
  assumes "loop_inv cid st" and "add_cluster_node K skip cid (i, node) st = Inr st'"
  shows "grown (fluxgraph st) (fluxgraph st') (contribution K skip node)
           (if schedulable skip node then [cn_Name node] else [])"
    and "loop_inv cid st'"
proof -
  have "grown (fluxgraph st) (fluxgraph st') (contribution K skip node)
          (if schedulable skip node then [cn_Name node] else []) \<and> subnetLookup st' = Map.empty"
  proof (cases "schedulable skip node")
    case False
    with assms show ?thesis
      by (auto simp: add_cluster_node_def schedulable_def contribution_def loop_inv_def grown_def
          split: if_splits)
  next
    case True
    with assms(2) obtain sel pods where pods: "ParseSelector K (pods_selector node) = Inr sel" "Pods_List K sel = Inr pods"
      by (auto simp: add_cluster_node_def schedulable_def split: if_splits)
    then have on: "pods_on K node = pods" by (simp add: pods_on_def running_pods_def)
    obtain sn st1 where fs: "find_subnet cid (label_or_empty (cn_Labels node) ''topology.kubernetes.io/zone'') st = (sn, st1)"
      by (meson surj_pair)
    note sub = find_subnet_grown [OF assms(1) fs]
    have st': "fluxgraph st' = add_compute_node K i node pods sn (fluxgraph st1)" "subnetLookup st' = subnetLookup st1"
      using assms(2) True pods fs by (auto simp: add_cluster_node_def schedulable_def split: if_splits)
    have "jgf_inv (fluxgraph st1)" using sub(1) by (simp add: grown_def)
    note cn = add_compute_node_grown [OF this sub(2), of K i node pods]
    have "contribution K skip node = (\<lambda>t. (if t = SubnetType then 1 else 0) + ((if t = NodeType then 1 else 0)
       + (if t = GPUType then gpu_count node else 0) + (if t = CoreType then nat (availCpu K node pods) else 0)
       + (if t = MemoryType then nat (drop_bit 30 (availMem K node pods)) else 0)))"
      using True by (auto simp: contribution_def on)
    with grown_trans [OF sub(1) cn] st' sub(3) True show ?thesis by simp
  qed
  then show "grown (fluxgraph st) (fluxgraph st') (contribution K skip node)
        (if schedulable skip node then [cn_Name node] else [])"
    and "loop_inv cid st'"
    using assms(1) by (auto simp: loop_inv_def grown_def)
qed

lemma cluster_loop_grown:
  assumes "loop_inv cid st"
    and "fold_result (add_cluster_node K skip cid) (enumerate i nodes) st = Inr st'"
  shows "grown (fluxgraph st) (fluxgraph st') (\<lambda>t. \<Sum>node\<leftarrow>nodes. contribution K skip node t)
           (map cn_Name (filter (schedulable skip) nodes))"
  using assms
proof (induction nodes arbitrary: st i)
  case Nil
  then show ?case by (simp add: loop_inv_def grown_refl)
next
  case (Cons node nodes)
  then obtain st1 where step: "add_cluster_node K skip cid (i, node) st = Inr st1"
    and rest: "fold_result (add_cluster_node K skip cid) (enumerate (Suc i) nodes) st1 = Inr st'"
    by auto
  note s = add_cluster_node_grown [OF Cons.prems(1) step]
  from grown_trans [OF s(1) Cons.IH [OF s(2) rest]] show ?case by (simp split: if_splits)
qed


section \<open>Properties of the cluster graph\<close>

lemma jgf_inv_ids_distinct:
  assumes "jgf_inv g" and "int (length (Nodes (Graph g))) \<le> 2 ^ 63"
  shows "distinct (ids g)" and "NodeMap g (node_Id n) = Some n \<longleftrightarrow> n \<in> set (Nodes (Graph g))"
proof -
  let ?ns = "Nodes (Graph g)"
  have "inj_on (\<lambda>i. fmt_d (wrap64 (int i))) {0..<length ?ns}"
    using assms(2) by (intro inj_onI) (simp add: in_int64_def)
  then have "distinct (map (\<lambda>i. fmt_d (wrap64 (int i))) [0..<length ?ns])"
    by (simp add: distinct_map)
  then show d: "distinct (ids g)" using assms(1) by (simp add: jgf_inv_def)
  have "map fst (rev (map (\<lambda>n. (node_Id n, n)) ?ns)) = rev (ids g)"
    by (simp add: ids_def rev_map o_def)
  then have dm: "distinct (map fst (rev (map (\<lambda>n. (node_Id n, n)) ?ns)))" using d by simp
  have "NodeMap g = map_of (rev (map (\<lambda>n. (node_Id n, n)) ?ns))" using assms(1) by (simp add: jgf_inv_def)
  then show "NodeMap g (node_Id n) = Some n \<longleftrightarrow> n \<in> set ?ns"
    by (simp add: map_of_eq_Some_iff [OF dm]) auto
qed

lemma InitCluster_New:
  assumes "InitCluster NewFluxJGF nm = Inr (c, g)"
  shows "jgf_inv g" and "node_Id c \<in> set (ids g)" and "compute_nodes g = []"
    and "\<forall>n\<in>set (Nodes (Graph g)). md_Type (Metadata n) \<in> vertex_kinds"
    and "number_of t g = (if t = ClusterType then 1 else 0)"
proof -
  note v = InitCluster_adds(1) [OF assms]
  show "jgf_inv g" by (rule adds_vertex_inv [OF jgf_inv_NewFluxJGF v])
  show "node_Id c \<in> set (ids g)" by (simp add: adds_vertex_ids [OF v])
  show "compute_nodes g = []"
    using adds_vertex_compute_nodes [OF v] by (simp add: compute_nodes_def NewFluxJGF_def)
  show "\<forall>n\<in>set (Nodes (Graph g)). md_Type (Metadata n) \<in> vertex_kinds"
    using v by (auto simp: adds_vertex_def NewFluxJGF_def vertex_kinds_def)
  show "number_of t g = (if t = ClusterType then 1 else 0)"
    using adds_vertex_number [OF v] by (simp add: number_of_def NewFluxJGF_def)
qed

lemma number_of_all_kinds:
  assumes "\<forall>n\<in>set (Nodes (Graph g)). md_Type (Metadata n) \<in> vertex_kinds"
  shows "(\<Sum>t\<in>vertex_kinds. number_of t g) = length (Nodes (Graph g))"
proof -
  have fin: "finite vertex_kinds" by (simp add: vertex_kinds_def)
  have "(\<Sum>t\<in>vertex_kinds. length (filter (\<lambda>n. md_Type (Metadata n) = t) ns)) = length ns"
    if "\<forall>n\<in>set ns. md_Type (Metadata n) \<in> vertex_kinds" for ns
    using that
  proof (induction ns)
    case (Cons a ns)
    have "length (filter (\<lambda>n. md_Type (Metadata n) = t) (a # ns)) =
        length (filter (\<lambda>n. md_Type (Metadata n) = t) ns) + (if md_Type (Metadata a) = t then 1 else 0)" for t
      by simp
    with Cons fin show ?case by (simp only: sum.distrib sum.delta) simp
  qed simp
  with assms show ?thesis by (simp add: number_of_def)
qed

lemma cluster_graph_grown:
  assumes "cluster_graph K skipLabel = Inr st" and "Nodes_List K = Inr nodes"
  shows "\<exists>g. grown g (fluxgraph st) (\<lambda>t. \<Sum>node\<leftarrow>nodes. contribution K skipLabel node t)
           (map cn_Name (filter (schedulable skipLabel) nodes))
    \<and> compute_nodes g = [] \<and> (\<forall>t. number_of t g = (if t = ClusterType then 1 else 0))
    \<and> (\<forall>n\<in>set (Nodes (Graph (fluxgraph st))). md_Type (Metadata n) \<in> vertex_kinds)"
proof -
  from assms obtain c g where i: "InitCluster NewFluxJGF defaultClusterName = Inr (c, g)"
    and f: "fold_result (add_cluster_node K skipLabel (node_Id c)) (enumerate 0 nodes)
        \<lparr>fluxgraph = g, totalAllocCpu = 0, subnetLookup = Map.empty, subnetCounter = 0\<rparr> = Inr st"
    by (auto simp: cluster_graph_def)
  have "loop_inv (node_Id c)
      \<lparr>fluxgraph = g, totalAllocCpu = 0, subnetLookup = Map.empty, subnetCounter = 0\<rparr>"
    using InitCluster_New(1,2) [OF i] by (simp add: loop_inv_def)
  from cluster_loop_grown [OF this f] InitCluster_New(3-5) [OF i] show ?thesis
    by (intro exI [of _ g]) (auto simp: grown_def)
qed

lemma cluster_graph_counts:
  assumes "cluster_graph K skipLabel = Inr st" and "Nodes_List K = Inr nodes"
  shows "jgf_inv (fluxgraph st)
    \<and> compute_nodes (fluxgraph st) = map cn_Name (filter (schedulable skipLabel) nodes)
    \<and> (\<forall>t. number_of t (fluxgraph st) =
         (if t = ClusterType then 1 else 0) + (\<Sum>node\<leftarrow>nodes. contribution K skipLabel node t))
    \<and> (\<Sum>t\<in>vertex_kinds. number_of t (fluxgraph st)) = length (Nodes (Graph (fluxgraph st)))"
proof -
  obtain g where
    "grown g (fluxgraph st) (\<lambda>t. \<Sum>node\<leftarrow>nodes. contribution K skipLabel node t)
           (map cn_Name (filter (schedulable skipLabel) nodes))"
    "compute_nodes g = []" "\<And>t. number_of t g = (if t = ClusterType then 1 else 0)"
    and kinds: "\<forall>n\<in>set (Nodes (Graph (fluxgraph st))). md_Type (Metadata n) \<in> vertex_kinds"
    using cluster_graph_grown [OF assms] by blast
  then show ?thesis using number_of_all_kinds [OF kinds] by (simp add: grown_def)
qed

text \<open>
  C7. The graph of the cluster is well formed and complete: ids are the consecutive
  numbers, edges join vertices of the graph and come in pairs; there is one vertex
  \<open>cluster\<close>; the compute nodes are, in order, the nodes of the API that are neither
  control plane, nor carry the skip label, nor are unschedulable; and the vertices of
  every type are the sum of what each node contributes: a core per free CPU, a memory
  chunk per free GiB, a GPU per reported GPU; and there are no vertices of other types.
\<close>

theorem cluster_graph_correct:
  assumes "cluster_graph K skipLabel = Inr st" and "Nodes_List K = Inr nodes"
  shows "jgf_inv (fluxgraph st)
    \<and> compute_nodes (fluxgraph st) = map cn_Name (filter (schedulable skipLabel) nodes)
    \<and> (\<forall>t. number_of t (fluxgraph st) =
         (if t = ClusterType then 1 else 0) + (\<Sum>node\<leftarrow>nodes. contribution K skipLabel node t))
    \<and> (\<Sum>t\<in>vertex_kinds. number_of t (fluxgraph st)) = length (Nodes (Graph (fluxgraph st)))"
  by (rule cluster_graph_counts [OF assms])

text \<open>A cluster of a control-plane node and a worker with one running pod.\<close>

definition example_kube :: kube where
  "example_kube =
     \<lparr>InClusterConfig = Inr (), NewForConfig = Inr (),
      Nodes_List = Inr
        [\<lparr>cn_Name = ''cp'', cn_Labels = Some [controlPlaneLabel \<mapsto> ''''], Unschedulable = False,
          Allocatable = Map.empty\<rparr>,
         \<lparr>cn_Name = ''w1'', cn_Labels = Some [''topology.kubernetes.io/zone'' \<mapsto> ''z''],
          Unschedulable = False,
          Allocatable = [''cpu'' \<mapsto> \<lparr>Value = 4, MilliValue = 4000\<rparr>,
                         ''memory'' \<mapsto> \<lparr>Value = 2 ^ 31, MilliValue = 0\<rparr>]\<rparr>],
      ParseSelector = Inr, Pods_List = (\<lambda>_. Inr [plain_pod ''ns'' ''p'' None]),
      PodRequestsAndLimits = (\<lambda>_. ([''cpu'' \<mapsto> \<lparr>Value = 2, MilliValue = 1500\<rparr>], Map.empty)),
      Quantity_Add = (\<lambda>a b. \<lparr>Value = Value a + Value b, MilliValue = MilliValue a + MilliValue b\<rparr>),
      os_Create = (\<lambda>_. Inr ()), file_Write = (\<lambda>_ _. Inr ())\<rparr>"

lemma add_cluster_node_total:
  "(\<exists>st'. add_cluster_node K skipLabel cid (i, node) st = Inr st') \<longleftrightarrow>
     (schedulable skipLabel node \<longrightarrow> (\<exists>pods. running_pods K node = Inr pods))"
  by (cases "find_subnet cid (label_or_empty (cn_Labels node) ''topology.kubernetes.io/zone'') st")
    (auto simp: add_cluster_node_def schedulable_def running_pods_def Let_def)

lemma cluster_loop_total:
  "(\<exists>st'. fold_result (add_cluster_node K skipLabel cid) (enumerate i nodes) st = Inr st') \<longleftrightarrow>
     (\<forall>node\<in>set nodes. schedulable skipLabel node \<longrightarrow> (\<exists>pods. running_pods K node = Inr pods))"
proof (induction nodes arbitrary: i st)
  case Nil
  then show ?case by simp
next
  case (Cons node nodes)
  have "(\<exists>st'. fold_result (add_cluster_node K skipLabel cid) (enumerate i (node # nodes)) st = Inr st') \<longleftrightarrow>
      (\<exists>st1. add_cluster_node K skipLabel cid (i, node) st = Inr st1 \<and>
         (\<exists>st'. fold_result (add_cluster_node K skipLabel cid) (enumerate (Suc i) nodes) st1 = Inr st'))"
    by auto
  then show ?case
    unfolding Cons.IH using add_cluster_node_total [of K skipLabel cid i node st] by auto
qed

lemma cluster_graph_total:
  "(\<exists>st. cluster_graph K skipLabel = Inr st) \<longleftrightarrow>
     InClusterConfig K = Inr () \<and> NewForConfig K = Inr () \<and>
     (\<exists>nodes. Nodes_List K = Inr nodes \<and>
        list_all (\<lambda>node. if schedulable skipLabel node then isl (running_pods K node) = False else True) nodes)"
proof -
  obtain c g where i: "InitCluster NewFluxJGF defaultClusterName = Inr (c, g)"
    by (cases "InitCluster NewFluxJGF defaultClusterName")
      (auto simp: InitCluster_def NewFluxJGF_def Let_def split: prod.splits)
  have isl: "\<not> isl r \<longleftrightarrow> (\<exists>pods. r = Inr pods)" for r :: "Pod list result"
    by (cases r) auto
  have "(\<exists>st. cluster_graph K skipLabel = Inr st) \<longleftrightarrow> InClusterConfig K = Inr () \<and> NewForConfig K = Inr () \<and>
     (\<exists>nodes. Nodes_List K = Inr nodes \<and>
        (\<exists>st. fold_result (add_cluster_node K skipLabel (node_Id c)) (enumerate 0 nodes)
          \<lparr>fluxgraph = g, totalAllocCpu = 0, subnetLookup = Map.empty, subnetCounter = 0\<rparr> = Inr st))"
    by (auto simp: cluster_graph_def i)
  then show ?thesis unfolding cluster_loop_total by (simp add: list_all_iff isl)
qed

lemma example_cluster_graph: "\<exists>st. cluster_graph example_kube '''' = Inr st"
  by (simp add: cluster_graph_total, simp add: example_kube_def running_pods_def)

lemma example_contribution:
  "(\<Sum>node\<leftarrow>projr (Nodes_List example_kube). contribution example_kube '''' node t) =
     (if t \<in> {SubnetType, NodeType} then 1 else if t \<in> {CoreType, MemoryType} then 2 else 0)"
  by (simp add: example_kube_def schedulable_def controlPlaneLabel_def contribution_def pods_on_def
      running_pods_def availCpu_def availMem_def computeTotalRequests_def add_requests_def resource_of_def
      in_int64_def go_quot_def gpu_count_def zero_Quantity_def drop_bit_eq_div)

lemma example_nodes:
  "Nodes_List example_kube = Inr (projr (Nodes_List example_kube))"
  "map cn_Name (filter (schedulable '''') (projr (Nodes_List example_kube))) = [''w1'']"
  by (simp_all add: example_kube_def schedulable_def controlPlaneLabel_def)

theorem cluster_graph_correct_witness:
  "\<exists>st. cluster_graph example_kube '''' = Inr st \<and> compute_nodes (fluxgraph st) = [''w1'']
      \<and> number_of CoreType (fluxgraph st) = 2"
proof -
  obtain st where st: "cluster_graph example_kube '''' = Inr st" using example_cluster_graph by blast
  note ok = cluster_graph_correct [OF st example_nodes(1)]
  have "compute_nodes (fluxgraph st) = [''w1'']" using ok by (simp only: example_nodes(2))
  moreover have "number_of CoreType (fluxgraph st) = 2"
    using ok by (simp only: example_contribution) simp
  ultimately show ?thesis using st by blast
qed

text \<open>
  Every vertex of the cluster graph is found again under its id: for a graph that
  does not exhaust the 64-bit counter, ids are pairwise distinct and the node map
  returns exactly the vertices of the graph.
\<close>

theorem cluster_graph_lookup:
  assumes "cluster_graph K skipLabel = Inr st" and "Nodes_List K = Inr nodes"
    and "int (length (Nodes (Graph (fluxgraph st)))) \<le> 2 ^ 63"
  shows "distinct (ids (fluxgraph st))
    \<and> (\<forall>n. NodeMap (fluxgraph st) (node_Id n) = Some n \<longleftrightarrow> n \<in> set (Nodes (Graph (fluxgraph st))))"
proof -
  obtain g where "grown g (fluxgraph st) (\<lambda>t. \<Sum>node\<leftarrow>nodes. contribution K skipLabel node t)
           (map cn_Name (filter (schedulable skipLabel) nodes))"
    using cluster_graph_grown [OF assms(1,2)] by blast
  then have "jgf_inv (fluxgraph st)" by (simp add: grown_def)
  from jgf_inv_ids_distinct [OF this assms(3)] show ?thesis by blast
qed

theorem cluster_graph_lookup_witness:
  "\<exists>st. cluster_graph example_kube '''' = Inr st \<and> distinct (ids (fluxgraph st))"
proof -
  obtain st where st: "cluster_graph example_kube '''' = Inr st" using example_cluster_graph by blast
  have "length (Nodes (Graph (fluxgraph st))) = (\<Sum>t\<in>vertex_kinds. number_of t (fluxgraph st))"
    using cluster_graph_counts [OF st example_nodes(1)] by (elim conjE) (rule sym)
  also have "\<dots> = 7"
    using cluster_graph_counts [OF st example_nodes(1)]
    by (simp only: example_contribution vertex_kinds_def) simp
  finally have "int (length (Nodes (Graph (fluxgraph st)))) \<le> 2 ^ 63" by simp
  with cluster_graph_lookup [OF st example_nodes(1)] st show ?thesis by blast
qed

text \<open>
  C36. The graph is built exactly when the in-cluster configuration, the client and the
  node list are available and the running pods of every node that is to be scheduled
  on can be listed; a node that is skipped needs no pod list.
\<close>

theorem cluster_graph_succeeds_iff:
  "(\<exists>st. cluster_graph K skipLabel = Inr st) \<longleftrightarrow>
     InClusterConfig K = Inr () \<and> NewForConfig K = Inr () \<and>
     (\<exists>nodes. Nodes_List K = Inr nodes \<and>
        list_all (\<lambda>node. if schedulable skipLabel node then isl (running_pods K node) = False else True) nodes)"
  by (rule cluster_graph_total)

text \<open>
  Every schedulable node adds a vertex of type subnet, whatever its zone: the
  lookup table of subnets is consulted but never written, so two nodes of the same
  zone are placed under two different subnet vertices.
\<close>

theorem cluster_graph_subnets:
  assumes "cluster_graph K skipLabel = Inr st" and "Nodes_List K = Inr nodes"
  shows "number_of SubnetType (fluxgraph st) = length (filter (schedulable skipLabel) nodes)"
proof -
  obtain g where
    "grown g (fluxgraph st) (\<lambda>t. \<Sum>node\<leftarrow>nodes. contribution K skipLabel node t)
           (map cn_Name (filter (schedulable skipLabel) nodes))"
    "\<And>t. number_of t g = (if t = ClusterType then 1 else 0)"
    using cluster_graph_grown [OF assms] by blast
  then have "number_of SubnetType (fluxgraph st) = (\<Sum>node\<leftarrow>nodes. contribution K skipLabel node SubnetType)"
    by (simp add: grown_def)
  also have "\<dots> = length (filter (schedulable skipLabel) nodes)"
    by (induction nodes) (auto simp: contribution_def)
  finally show ?thesis .
qed

theorem cluster_graph_subnets_witness:
  "\<exists>st. cluster_graph example_kube '''' = Inr st \<and> number_of SubnetType (fluxgraph st) = 1"
proof -
  obtain st where st: "cluster_graph example_kube '''' = Inr st" using example_cluster_graph by blast
  have "length (filter (schedulable '''') (projr (Nodes_List example_kube))) = 1"
    using arg_cong [OF example_nodes(2), of length] by simp
  then show ?thesis using st cluster_graph_subnets [OF st example_nodes(1)] by simp
qed

end
