(* ===== verification/Graph_JSON.thy ===== *)
theory Graph_JSON
  imports Resource_JSON Cluster_Graph
begin

text \<open>
  Reading a graph back: the decoder that the struct tags of \<open>src/fluence/jgf/types.go\<close> give to
  \<open>FluxJGF\<close>, and the proof that it returns the graph that \<open>WriteJGF\<close> has written, vertex by vertex
  and edge by edge. Shown as well: the graphs of a cluster have values that fit their types, so they
  are read back whole.
\<close>

section \<open>The decoder\<close>

fun int64_of_json :: "json \<Rightarrow> int64 option" where
  "int64_of_json (JNum s) = ParseInt 64 s"
| "int64_of_json _ = None"

fun bool_of_json :: "json \<Rightarrow> bool option" where
  "bool_of_json (JBool b) = Some b"
| "bool_of_json _ = None"

fun strings_of_json :: "json \<Rightarrow> (string \<times> string) list option" where
  "strings_of_json (JObj ms) = map_option (zip (map fst ms)) (those (map (string_of_json \<circ> snd) ms))"
| "strings_of_json _ = None"

fun nodeMetadata_of_json :: "json \<Rightarrow> nodeMetadata option" where
  "nodeMetadata_of_json (JObj ms) =
     Option.bind (json_field string_of_json '''' ms ''type'') (\<lambda>ty.
     Option.bind (json_field string_of_json '''' ms ''basename'') (\<lambda>base.
     Option.bind (json_field string_of_json '''' ms ''name'') (\<lambda>name.
     Option.bind (json_field int64_of_json 0 ms ''id'') (\<lambda>i.
     Option.bind (json_field int64_of_json 0 ms ''uniq_id'') (\<lambda>u.
     Option.bind (json_field int64_of_json 0 ms ''rank'') (\<lambda>r.
     Option.bind (json_field bool_of_json False ms ''exclusive'') (\<lambda>ex.
     Option.bind (json_field string_of_json '''' ms ''unit'') (\<lambda>un.
     Option.bind (json_field int64_of_json 0 ms ''size'') (\<lambda>sz.
     Option.bind (json_field strings_of_json [] ms ''paths'') (\<lambda>ps.
     Some \<lparr>md_Type = ty, Basename = base, md_Name = name, md_Id = i, Uniq_id = u, Rank = r, Exclusive = ex,
       Unit = un, Size = sz, Paths = ps\<rparr>))))))))))"
| "nodeMetadata_of_json _ = None"

definition zero_nodeMetadata :: nodeMetadata where
  "zero_nodeMetadata = \<lparr>md_Type = '''', Basename = '''', md_Name = '''', md_Id = 0, Uniq_id = 0, Rank = 0,
     Exclusive = False, Unit = '''', Size = 0, Paths = []\<rparr>"

fun Node_of_json :: "json \<Rightarrow> Node option" where
  "Node_of_json (JObj ms) =
     Option.bind (json_field string_of_json '''' ms ''id'') (\<lambda>i.
     Option.bind (json_field string_of_json '''' ms ''label'') (\<lambda>l.
     Option.bind (json_field nodeMetadata_of_json zero_nodeMetadata ms ''metadata'') (\<lambda>m.
     Some \<lparr>node_Id = i, node_Label = l, Metadata = m\<rparr>)))"
| "Node_of_json _ = None"

fun edgeMetadata_of_json :: "json \<Rightarrow> string option" where
  "edgeMetadata_of_json (JObj ms) = json_field string_of_json '''' ms ''subsystem''"
| "edgeMetadata_of_json _ = None"

fun edge_of_json :: "json \<Rightarrow> edge option" where
  "edge_of_json (JObj ms) =
     Option.bind (json_field string_of_json '''' ms ''source'') (\<lambda>s.
     Option.bind (json_field string_of_json '''' ms ''relation'') (\<lambda>r.
     Option.bind (json_field string_of_json '''' ms ''target'') (\<lambda>t.
     Option.bind (json_field bool_of_json False ms ''directed'') (\<lambda>d.
     Option.bind (json_field edgeMetadata_of_json '''' ms ''metadata'') (\<lambda>sub.
     Some \<lparr>Source = s, Relation = r, Target = t, e_Directed = d, Subsystem = sub\<rparr>)))))"
| "edge_of_json _ = None"

fun graph_of_json :: "json \<Rightarrow> graph option" where
  "graph_of_json (JObj ms) =
     Option.bind (json_field (list_of_json Node_of_json) [] ms ''nodes'') (\<lambda>ns.
     Option.bind (json_field (list_of_json edge_of_json) [] ms ''edges'') (\<lambda>es.
     Option.bind (json_field bool_of_json False ms ''directed'') (\<lambda>d.
     Some \<lparr>Nodes = ns, Edges = es, g_Directed = d\<rparr>)))"
| "graph_of_json _ = None"

text \<open>The members with the tag \<open>-\<close> stay at their zero values.\<close>

fun FluxJGF_of_json :: "json \<Rightarrow> FluxJGF option" where
  "FluxJGF_of_json (JObj ms) =
     Option.bind (json_field graph_of_json \<lparr>Nodes = [], Edges = [], g_Directed = False\<rparr> ms ''graph'') (\<lambda>g.
     Some \<lparr>Graph = g, NodeMap = Map.empty, Resources = \<lparr>counts = Map.empty, Elements = 0, RootName = ''''\<rparr>\<rparr>)"
| "FluxJGF_of_json _ = None"

section \<open>Reading back what was written\<close>

text \<open>
  What the types of the fields guarantee, and that a map of paths, which Go writes in the order of its keys,
  is listed in that order.
\<close>

definition metadata_ok :: "nodeMetadata \<Rightarrow> bool" where
  "metadata_ok m \<longleftrightarrow> in_int64 (md_Id m) \<and> in_int64 (Uniq_id m) \<and> in_int64 (Rank m) \<and> in_int64 (Size m)
     \<and> sort_key fst (Paths m) = Paths m"

definition graph_ok :: "graph \<Rightarrow> bool" where
  "graph_ok g \<longleftrightarrow> (\<forall>n \<in> set (Nodes g). metadata_ok (Metadata n))"

lemma ParseInt64_fmt_d: "in_int64 i \<Longrightarrow> ParseInt 64 (fmt_d i) = Some i"
  by (rule ParseInt_fmt_d) (simp_all add: in_int64_def)

lemma strings_back: "strings_of_json (JObj (map (\<lambda>(k, v). (k, JStr v)) ps)) = Some ps"
proof -
  have "those (map (string_of_json \<circ> snd \<circ> (\<lambda>(k, v). (k, JStr v))) ps) = Some (map snd ps)"
    by (induction ps) auto
  then show ?thesis by (simp add: o_def split_beta zip_map_fst_snd)
qed

interpretation int64_codec: json_codec "\<lambda>i. JNum (fmt_d i)" int64_of_json "\<lambda>i. i" in_int64
  by unfold_locales (simp_all add: ParseInt64_fmt_d)

interpretation bool_codec: json_codec JBool bool_of_json "\<lambda>b. b" "\<lambda>b. True"
  by unfold_locales simp_all

context json_codec
begin

lemma slice:
  "\<forall>x \<in> set xs. ok x \<Longrightarrow> obj_get ms k = Some (slice_json enc xs) \<Longrightarrow>
   json_field (list_of_json dec) [] ms k = Some (map kept xs)"
  using elements by (auto simp: json_field_def slice_json_def)

end

interpretation metadata_codec: json_codec nodeMetadata_json nodeMetadata_of_json "\<lambda>m. m" metadata_ok
proof unfold_locales
  fix m assume ok: "metadata_ok m"
  obtain ms where ms: "nodeMetadata_json m = JObj ms" by (simp add: nodeMetadata_json_def)
  note get = arg_cong [OF ms [unfolded nodeMetadata_json_def json.inject, symmetric], of "\<lambda>ms. obj_get ms k" for k, unfolded obj_get_append]
  have "json_field string_of_json '''' ms ''type'' = Some (md_Type m)"
    "json_field string_of_json '''' ms ''basename'' = Some (Basename m)"
    "json_field string_of_json '''' ms ''name'' = Some (md_Name m)"
    "json_field string_of_json '''' ms ''unit'' = Some (Unit m)"
    by (intro string_codec.field; simp add: get obj_get_parts)+
  moreover have "json_field int64_of_json 0 ms ''id'' = Some (md_Id m)"
    "json_field int64_of_json 0 ms ''uniq_id'' = Some (Uniq_id m)"
    "json_field int64_of_json 0 ms ''size'' = Some (Size m)"
    using ok by (intro int64_codec.field; simp add: metadata_ok_def get obj_get_parts)+
  moreover have "json_field int64_of_json 0 ms ''rank'' = Some (Rank m)"
    using ok by (auto simp: metadata_ok_def json_field_def get obj_get_parts ParseInt64_fmt_d)
  moreover have "json_field bool_of_json False ms ''exclusive'' = Some (Exclusive m)"
    by (intro bool_codec.field) (simp_all add: get obj_get_parts)
  moreover have "json_field strings_of_json [] ms ''paths'' = Some (Paths m)"
    using ok strings_back [of "Paths m"] by (auto simp: metadata_ok_def json_field_def get obj_get_parts)
  ultimately show "nodeMetadata_of_json (nodeMetadata_json m) = Some m" by (simp add: ms)
qed (simp add: nodeMetadata_json_def)

interpretation node_codec: json_codec Node_json Node_of_json "\<lambda>n. n" "\<lambda>n. metadata_ok (Metadata n)"
proof unfold_locales
  fix n :: Node assume ok: "metadata_ok (Metadata n)"
  obtain ms where ms: "Node_json n = JObj ms" by (simp add: Node_json_def)
  note get = arg_cong [OF ms [unfolded Node_json_def json.inject, symmetric], of "\<lambda>ms. obj_get ms k" for k, unfolded obj_get_append]
  have "json_field string_of_json '''' ms ''id'' = Some (node_Id n)"
    by (intro string_codec.field) (simp_all add: get obj_get_parts)
  moreover have "json_field string_of_json '''' ms ''label'' = Some (node_Label n)"
    by (intro omitempty_field) (simp add: get obj_get_parts)
  moreover have "json_field nodeMetadata_of_json z ms ''metadata'' = Some (Metadata n)" for z
    using ok by (intro metadata_codec.field) (simp_all add: get obj_get_parts)
  ultimately show "Node_of_json (Node_json n) = Some n" by (simp add: ms)
qed (simp add: Node_json_def)

interpretation edge_codec: json_codec edge_json edge_of_json "\<lambda>e. e" "\<lambda>e. True"
proof unfold_locales
  fix e :: edge
  obtain ms where ms: "edge_json e = JObj ms" by (simp add: edge_json_def)
  note get = arg_cong [OF ms [unfolded edge_json_def json.inject, symmetric], of "\<lambda>ms. obj_get ms k" for k, unfolded obj_get_append]
  have "json_field string_of_json '''' ms ''source'' = Some (Source e)"
    "json_field string_of_json '''' ms ''target'' = Some (Target e)"
    by (intro string_codec.field; simp add: get obj_get_parts)+
  moreover have "json_field string_of_json '''' ms ''relation'' = Some (Relation e)"
    by (intro omitempty_field) (simp add: get obj_get_parts)
  moreover have "json_field bool_of_json False ms ''directed'' = Some (e_Directed e)"
    by (simp add: json_field_def get obj_get_parts)
  moreover have "json_field string_of_json '''' (omitempty ''subsystem'' (Subsystem e)) ''subsystem'' = Some (Subsystem e)"
    by (intro omitempty_field) (simp add: obj_get_parts)
  then have "json_field edgeMetadata_of_json '''' ms ''metadata'' = Some (Subsystem e)"
    by (simp add: json_field_def [of edgeMetadata_of_json] get obj_get_parts)
  ultimately show "edge_of_json (edge_json e) = Some e" by (simp add: ms)
qed (simp add: edge_json_def)

interpretation graph_codec: json_codec graph_json graph_of_json "\<lambda>g. g" graph_ok
proof unfold_locales
  fix g assume ok: "graph_ok g"
  obtain ms where ms: "graph_json g = JObj ms" by (simp add: graph_json_def)
  note get = arg_cong [OF ms [unfolded graph_json_def json.inject, symmetric], of "\<lambda>ms. obj_get ms k" for k, unfolded obj_get_append]
  have "json_field (list_of_json Node_of_json) [] ms ''nodes'' = Some (map (\<lambda>n. n) (Nodes g))"
    using ok by (intro node_codec.slice) (simp_all add: graph_ok_def get obj_get_parts)
  moreover have "json_field (list_of_json edge_of_json) [] ms ''edges'' = Some (map (\<lambda>e. e) (Edges g))"
    by (intro edge_codec.slice) (simp_all add: get obj_get_parts)
  moreover have "json_field bool_of_json False ms ''directed'' = Some (g_Directed g)"
    by (simp add: json_field_def get obj_get_parts)
  ultimately show "graph_of_json (graph_json g) = Some g" by (simp add: ms)
qed (simp add: graph_json_def)

definition decodedJGF :: "string \<Rightarrow> graph option" where
  "decodedJGF text = map_option Graph (Option.bind (json_parse text) FluxJGF_of_json)"

lemma decodedJGF_encoded: "graph_ok (Graph g) \<Longrightarrow> decodedJGF (encodedJGF g) = Some (Graph g)"
  using graph_codec.field [of "Graph g" "[(''graph'', graph_json (Graph g))]" "''graph''"]
  by (simp add: decodedJGF_def encodedJGF_parse FluxJGF_json_def obj_get_parts)

section \<open>The graph of a cluster is read back whole\<close>

definition vertex_ok :: "Node \<Rightarrow> bool" where
  "vertex_ok n \<longleftrightarrow> in_int64 (md_Id (Metadata n)) \<and> in_int64 (Rank (Metadata n)) \<and> in_int64 (Size (Metadata n))
     \<and> sort_key fst (Paths (Metadata n)) = Paths (Metadata n)"

definition vertices_ok :: "FluxJGF \<Rightarrow> bool" where
  "vertices_ok g \<longleftrightarrow> (\<forall>n \<in> set (Nodes (Graph g)). vertex_ok n)"

lemma vertices_ok_edge [simp]: "vertices_ok (MakeBidirectionalEdge g p c) = vertices_ok g"
  by (simp add: vertices_ok_def)

lemma vertices_ok_add: "adds_vertex ty g n g' \<Longrightarrow> vertices_ok g' = (vertices_ok g \<and> vertex_ok n)"
  by (auto simp: vertices_ok_def adds_vertex_def)

lemma made_vertex_ok:
  "MakeSubnet g name i = (n, g') \<Longrightarrow> in_int64 i \<Longrightarrow> vertex_ok n"
  "MakeNode g name sub i = (n, g') \<Longrightarrow> in_int64 i \<Longrightarrow> vertex_ok n"
  "MakeCore g name sub i = (n, g') \<Longrightarrow> in_int64 i \<Longrightarrow> vertex_ok n"
  "MakeMemory g name sub sz i = (n, g') \<Longrightarrow> in_int64 i \<Longrightarrow> in_int64 sz \<Longrightarrow> vertex_ok n"
  "MakeGPU g name sub sz i = (n, g') \<Longrightarrow> in_int64 i \<Longrightarrow> in_int64 sz \<Longrightarrow> vertex_ok n"
  by (auto simp: vertex_ok_def MakeSubnet_def MakeNode_def MakeCore_def MakeMemory_def MakeGPU_def make_defs
      in_int64_def defaultRank_def defaultSize_def)

context vertex_maker
begin

lemma children_ok:
  assumes "\<And>g i n g'. mk g i = (n, g') \<Longrightarrow> in_int64 i \<Longrightarrow> vertex_ok n" and "in_int64 b" and "vertices_ok g"
  shows "vertices_ok (add_children mk parent b g)"
proof -
  have "int k < 2 ^ 63 \<Longrightarrow> vertices_ok (add_children mk parent (int k) g)" for k
  proof (induction k)
    case 0
    with assms(3) show ?case by (simp add: add_children_def)
  next
    case (Suc k)
    obtain c g' where mk: "mk (add_children mk parent (int k) g) (int k) = (c, g')"
      by (cases "mk (add_children mk parent (int k) g) (int k)")
    have "in_int64 (int k)" using Suc.prems by (simp add: in_int64_def)
    then have "vertex_ok c" using assms(1) [OF mk] by blast
    with Suc show ?case by (simp add: add_children_Suc mk vertices_ok_add [OF mk_adds [OF mk]] del: of_nat_Suc)
  qed
  moreover have "int (nat b) < 2 ^ 63" using assms(2) by (simp add: in_int64_def)
  ultimately show ?thesis by (subst add_children_bound) blast
qed

end

text \<open>Quantities count in 64 bits.\<close>

definition gpus_typed :: "ClusterNode \<Rightarrow> bool" where
  "gpus_typed node \<longleftrightarrow> (\<forall>q. Allocatable node ''nvidia.com/gpu'' = Some q \<longrightarrow> in_int64 (Value q))"

lemma availCpu_typed: "in_int64 (availCpu K node pods)"
proof -
  have "in_int64 (go_quot y 1000)" if "in_int64 y" for y
    using that div_mult_mod_eq [of "\<bar>y\<bar>" 1000] pos_mod_bound [of 1000 "\<bar>y\<bar>"] pos_mod_sign [of 1000 "\<bar>y\<bar>"]
    by (cases y "0 :: int" rule: linorder_cases) (simp_all add: go_quot_def in_int64_def, linarith+)
  then show ?thesis by (simp add: availCpu_def Let_def)
qed

lemma mem_chunks_typed: "in_int64 (drop_bit 30 (availMem K node pods))"
proof -
  have "in_int64 (availMem K node pods)" by (simp add: availMem_def Let_def wrap64_range)
  then show ?thesis
    using div_mult_mod_eq [of "availMem K node pods" "2 ^ 30"] pos_mod_bound [of "2 ^ 30" "availMem K node pods"]
      pos_mod_sign [of "2 ^ 30" "availMem K node pods"]
    by (simp add: drop_bit_eq_div in_int64_def) linarith
qed

lemma add_compute_node_ok:
  assumes "vertices_ok g" and "gpus_typed node" and "int nodeCount < 2 ^ 63"
  shows "vertices_ok (add_compute_node K nodeCount node pods subnetNode g)"
proof -
  let ?sn = "md_Name (Metadata subnetNode)"
  obtain c g1 where mk: "MakeNode g (cn_Name node) ?sn (int nodeCount) = (c, g1)"
    by (cases "MakeNode g (cn_Name node) ?sn (int nodeCount)") auto
  have "in_int64 (int nodeCount)" using assms(3) by (simp add: in_int64_def)
  with mk assms(1) have "vertices_ok g1" using vertices_ok_add [OF mk_node.mk_adds [OF mk]] made_vertex_ok(2) by blast
  moreover have small: "in_int64 1" "in_int64 1024" by (simp_all add: in_int64_def)
  ultimately show ?thesis
    using assms(2) availCpu_typed mem_chunks_typed made_vertex_ok(5) [OF _ _ small(1)] made_vertex_ok(4) [OF _ _ small(2)]
    by (auto simp: add_compute_node_def mk Let_def gpus_typed_def split: option.split
        intro!: mk_memory.children_ok mk_core.children_ok mk_gpu.children_ok intro: made_vertex_ok(3))
qed

lemma add_cluster_node_ok:
  assumes "vertices_ok (fluxgraph st)" and "in_int64 (subnetCounter st)" and "gpus_typed node" and "int i < 2 ^ 63"
    and "add_cluster_node K skip cid (i, node) st = Inr st'"
  shows "vertices_ok (fluxgraph st') \<and> in_int64 (subnetCounter st')"
proof -
  obtain sn st1 where fs: "find_subnet cid (label_or_empty (cn_Labels node) ''topology.kubernetes.io/zone'') st = (sn, st1)"
    by (meson surj_pair)
  obtain n g where mk: "MakeSubnet (fluxgraph st) nm (subnetCounter st) = (n, g)"
    if "nm = label_or_empty (cn_Labels node) ''topology.kubernetes.io/zone''" for nm by (meson surj_pair)
  have "vertices_ok g" "in_int64 (subnetCounter st1)" "vertices_ok (fluxgraph st1)"
    using vertices_ok_add [OF mk_subnet.mk_adds [OF mk [OF refl]]] made_vertex_ok(1) [OF mk [OF refl] assms(2)] assms(1,2) fs
      mk [OF refl] wrap64_range by (auto simp: find_subnet_def split: option.splits)
  with add_compute_node_ok [OF _ assms(3,4)] assms(1,2,5) fs show ?thesis
    by (auto simp: add_cluster_node_def split: if_splits)
qed

lemma cluster_loop_ok:
  assumes "vertices_ok (fluxgraph st)" and "in_int64 (subnetCounter st)" and "\<forall>node \<in> set nodes. gpus_typed node"
    and "int (i + length nodes) < 2 ^ 63" and "fold_result (add_cluster_node K skip cid) (enumerate i nodes) st = Inr st'"
  shows "vertices_ok (fluxgraph st')"
  using assms
proof (induction nodes arbitrary: st i)
  case (Cons node nodes)
  then obtain st1 where step: "add_cluster_node K skip cid (i, node) st = Inr st1"
    and rest: "fold_result (add_cluster_node K skip cid) (enumerate (Suc i) nodes) st1 = Inr st'" by auto
  have "vertices_ok (fluxgraph st1)" "in_int64 (subnetCounter st1)"
    using add_cluster_node_ok [OF Cons.prems(1,2) _ _ step] Cons.prems(3,4) by simp_all
  with Cons.IH [OF _ _ _ _ rest] Cons.prems(3,4) show ?case by simp
qed simp

lemma cluster_graph_ok:
  assumes "cluster_graph K skipLabel = Inr st" and "Nodes_List K = Inr nodes" and "\<forall>node \<in> set nodes. gpus_typed node"
    and "int (length nodes) < 2 ^ 63"
  shows "graph_ok (Graph (fluxgraph st))"
proof -
  obtain c g where init: "InitCluster NewFluxJGF defaultClusterName = Inr (c, g)"
    and run: "fold_result (add_cluster_node K skipLabel (node_Id c)) (enumerate 0 nodes)
      \<lparr>fluxgraph = g, totalAllocCpu = 0, subnetLookup = Map.empty, subnetCounter = 0\<rparr> = Inr st"
    using assms(1,2) by (auto simp: cluster_graph_def)
  have "vertices_ok g" using init
    by (auto simp: InitCluster_def NewFluxJGF_def make_defs vertices_ok_def vertex_ok_def in_int64_def defaultRank_def defaultSize_def)
  with cluster_loop_ok [OF _ _ assms(3) _ run] assms(4) have ok: "vertices_ok (fluxgraph st)" by (simp add: in_int64_def)
  have "jgf_inv (fluxgraph st)" using cluster_graph_counts [OF assms(1,2)] by blast
  then have "map (\<lambda>n. Uniq_id (Metadata n)) (Nodes (Graph (fluxgraph st))) = map (\<lambda>i. wrap64 (int i)) [0..<length (Nodes (Graph (fluxgraph st)))]"
    by (simp add: jgf_inv_def)
  note ids = this
  have "in_int64 (Uniq_id (Metadata n))" if "n \<in> set (Nodes (Graph (fluxgraph st)))" for n
  proof -
    have "Uniq_id (Metadata n) \<in> set (map (\<lambda>n. Uniq_id (Metadata n)) (Nodes (Graph (fluxgraph st))))" using that by simp
    then show ?thesis unfolding ids by auto
  qed
  with ok show ?thesis by (simp add: graph_ok_def metadata_ok_def vertices_ok_def vertex_ok_def)
qed

text \<open>
  C18. What is written for Fluxion is the graph: a reader that decodes the file by the struct tags of
  \<open>types.go\<close> gets back every vertex with all its metadata and every edge with its ends, in their
  order, whatever characters the Kubernetes names hold; and the graph of any cluster, which is what the sidecar
  writes, is of the kind that is read back whole.
\<close>

theorem encodedJGF_decodes:
  "(graph_ok (Graph g) \<longrightarrow> decodedJGF (encodedJGF g) = Some (Graph g))
   \<and> (cluster_graph K skipLabel = Inr st \<and> Nodes_List K = Inr nodes \<and> (\<forall>node \<in> set nodes. gpus_typed node)
        \<and> int (length nodes) < 2 ^ 63 \<longrightarrow> decodedJGF (encodedJGF (fluxgraph st)) = Some (Graph (fluxgraph st)))"
  using decodedJGF_encoded cluster_graph_ok by blast

text \<open>Two vertices, one of them with a quote and a line break in its name, and an edge between them.\<close>

definition odd_graph :: FluxJGF where
  "odd_graph = (let (n, g) = MakeNode NewFluxJGF [quote_char, CHR 0x0A] ''s0'' 3; (c, g) = MakeCore g CoreType ''s0/n'' 1
     in MakeEdge g (node_Id n) (node_Id c) ContainsRelation)"

theorem encodedJGF_decodes_witness:
  "map_option (\<lambda>g. map (\<lambda>e. (Source e, Target e)) (Edges g)) (decodedJGF (encodedJGF odd_graph)) = Some [(''0'', ''1'')]
   \<and> (\<exists>st. cluster_graph example_kube '''' = Inr st \<and> decodedJGF (encodedJGF (fluxgraph st)) = Some (Graph (fluxgraph st)))"
proof -
  have edges: "map (\<lambda>e. (Source e, Target e)) (Edges (Graph odd_graph)) = [(''0'', ''1'')]"
    by (simp add: odd_graph_def NewFluxJGF_def MakeNode_def MakeCore_def MakeEdge_def make_defs in_int64_def) code_simp
  have "graph_ok (Graph odd_graph)"
    by (simp add: odd_graph_def NewFluxJGF_def MakeNode_def MakeCore_def MakeEdge_def make_defs in_int64_def graph_ok_def
        metadata_ok_def defaultRank_def defaultSize_def)
  then have "decodedJGF (encodedJGF odd_graph) = Some (Graph odd_graph)" using encodedJGF_decodes by blast
  moreover obtain st where st: "cluster_graph example_kube '''' = Inr st" using example_cluster_graph by blast
  moreover have "\<forall>node \<in> set (projr (Nodes_List example_kube)). gpus_typed node" "length (projr (Nodes_List example_kube)) = 2"
    by (simp_all add: example_kube_def gpus_typed_def)
  ultimately show ?thesis
    using encodedJGF_decodes [of odd_graph example_kube "''''" st "projr (Nodes_List example_kube)"] example_nodes(1) edges by auto
qed

end
