(* ===== verification/Controller.thy ===== *)
theory Controller
  imports Group_Labels
begin

text \<open>
  The PodGroup controller, \<open>pkg/controllers/podgroup_controller.go\<close>. The API server,
  behind the controller-runtime client, is the record \<open>api\<close> over a state of type \<open>'k\<close>;
  the operations thread that state. \<open>Status_Update\<close> returns the object the client
  holds after the call, since the client overwrites it with the server's answer; the
  code ignores its error. A merge patch is given by the new object and the base it is
  compared with. The current time and the decoder of a time label are arguments.
\<close>

section \<open>The API server\<close>

datatype api_error = NotFound | OtherError go_error

record 'k api =
  api_Get :: "string \<Rightarrow> string \<Rightarrow> 'k \<Rightarrow> api_error + PodGroup"
  api_List :: "string \<Rightarrow> 'k \<Rightarrow> Pod list result"
  Status_Update :: "PodGroup \<Rightarrow> 'k \<Rightarrow> PodGroup \<times> 'k"
  api_Patch :: "PodGroup \<Rightarrow> PodGroup \<Rightarrow> 'k \<Rightarrow> unit result \<times> 'k"
  Status_Patch :: "PodGroup \<Rightarrow> PodGroup \<Rightarrow> 'k \<Rightarrow> unit result \<times> 'k"
  api_Delete :: "PodGroup \<Rightarrow> 'k \<Rightarrow> unit result \<times> 'k"
  api_Create :: "PodGroup \<Rightarrow> 'k \<Rightarrow> unit result \<times> 'k"
  api_Event :: "PodGroup \<Rightarrow> string \<Rightarrow> string \<Rightarrow> 'k \<Rightarrow> 'k"
  util_PodGroupLabel :: "Pod \<Rightarrow> string"
  MicroTime_Unmarshal :: "string \<Rightarrow> instant result"

record ctrl_Result =
  Requeue :: bool

type_synonym 'k handler = "'k \<Rightarrow> (ctrl_Result \<times> unit result) \<times> 'k"

section \<open>Helpers\<close>

text \<open>\<open>getCurrentPodStats\<close>: running, succeeded and failed pods.\<close>

definition count_pod :: "Pod \<Rightarrow> int32 \<times> int32 \<times> int32 \<Rightarrow> int32 \<times> int32 \<times> int32" where
  "count_pod pod c =
     (case c of (running, succeeded, failed) \<Rightarrow>
        case pod_Phase pod of
          PodRunning \<Rightarrow> (wrap32 (running + 1), succeeded, failed)
        | PodSucceeded \<Rightarrow> (running, wrap32 (succeeded + 1), failed)
        | PodFailed \<Rightarrow> (running, succeeded, wrap32 (failed + 1))
        | _ \<Rightarrow> (running, succeeded, failed))"

definition getCurrentPodStats :: "Pod list \<Rightarrow> int32 \<times> int32 \<times> int32" where
  "getCurrentPodStats pods = (if length pods = 0 then (0, 0, 0) else fold count_pod pods (0, 0, 0))"

text \<open>The status update followed by a patch, as four of the operations end.\<close>

definition update_and_patch :: "'k api \<Rightarrow> PodGroup \<Rightarrow> PodGroup \<Rightarrow> 'k handler" where
  "update_and_patch A new base k =
     (case Status_Update A new k of
        (obj, k1) \<Rightarrow>
          (case api_Patch A obj base k1 of (err, k2) \<Rightarrow> ((\<lparr>Requeue = True\<rparr>, err), k2)))"

text \<open>The time of a group: the label of its first pod if it decodes, else the time of the call.\<close>

definition group_time :: "'k api \<Rightarrow> Pod list \<Rightarrow> instant \<Rightarrow> instant" where
  "group_time A pods timestamp =
     (case pods of
        [] \<Rightarrow> timestamp
      | pod # _ \<Rightarrow>
          (case label (pod_Labels pod) PodGroupTimeCreated of
             None \<Rightarrow> timestamp
           | Some strTime \<Rightarrow>
               (case MicroTime_Unmarshal A strTime of Inl err \<Rightarrow> timestamp | Inr mt \<Rightarrow> mt)))"

definition setTimeCreated :: "'k api \<Rightarrow> PodGroup \<Rightarrow> Pod list \<Rightarrow> instant \<Rightarrow> 'k handler" where
  "setTimeCreated A pg pods timestamp =
     update_and_patch A (pg\<lparr>Status := (Status pg)\<lparr>CreationTime := group_time A pods timestamp\<rparr>\<rparr>) pg"

text \<open>The size of a group: the label of its first pod, else the number of pods found.\<close>

definition group_size :: "Pod list \<Rightarrow> int32 \<Rightarrow> int32" where
  "group_size pods found =
     (case pods of
        [] \<Rightarrow> found
      | pod # _ \<Rightarrow>
          (case ParseInt 32 (label_or_empty (pod_Labels pod) PodGroupSizeLabel) of
             None \<Rightarrow> found
           | Some groupSize \<Rightarrow> wrap32 groupSize))"

definition updatePodGroupSize :: "'k api \<Rightarrow> PodGroup \<Rightarrow> int32 \<Rightarrow> Pod list \<Rightarrow> 'k handler" where
  "updatePodGroupSize A old found pods =
     update_and_patch A (old\<lparr>Spec := (Spec old)\<lparr>MinMember := group_size pods found\<rparr>\<rparr>) old"

section \<open>The phase machine\<close>

text \<open>The phase a group that is neither new nor pending moves to, from the pod counts.\<close>

definition phase_of_counts :: "int32 \<Rightarrow> int32 \<Rightarrow> int32 \<Rightarrow> int32 \<Rightarrow> PodGroupPhase \<Rightarrow> PodGroupPhase" where
  "phase_of_counts minMember running succeeded failed p0 =
     (let p1 = (if wrap32 (succeeded + running) < minMember then PodGroupScheduling else p0);
          p2 = (if wrap32 (succeeded + running) \<ge> minMember then PodGroupRunning else p1);
          p3 = (if failed \<noteq> 0 \<and> wrap32 (wrap32 (failed + running) + succeeded) \<ge> minMember
                then PodGroupFailed else p2)
      in if succeeded \<ge> minMember then PodGroupFinished else p3)"

text \<open>The first half of \<open>updateStatus\<close>: the new status.\<close>

definition next_status :: "PodGroup \<Rightarrow> Pod list \<Rightarrow> PodGroupStatus" where
  "next_status pg pods =
     (let s = Status pg; minMember = MinMember (Spec pg) in
      case Phase s of
        PodGroupNoPhase \<Rightarrow> s\<lparr>Phase := PodGroupPending\<rparr>
      | PodGroupPending \<Rightarrow>
          if int (length pods) \<ge> minMember then s\<lparr>Phase := PodGroupScheduling\<rparr> else s
      | _ \<Rightarrow>
          if int (length pods) < minMember then s\<lparr>Phase := PodGroupPending\<rparr>
          else
            (case getCurrentPodStats pods of (running, succeeded, failed) \<Rightarrow>
               s\<lparr>Phase := phase_of_counts minMember running succeeded failed (Phase s),
                 Running := running, Failed := failed, Succeeded := succeeded\<rparr>))"

definition finishedOrFailed :: "PodGroupPhase \<Rightarrow> bool" where
  "finishedOrFailed p \<longleftrightarrow> p = PodGroupFinished \<or> p = PodGroupFailed"

definition updateStatus :: "'k api \<Rightarrow> PodGroup \<Rightarrow> Pod list \<Rightarrow> 'k handler" where
  "updateStatus A pg pods k =
     (let pg' = pg\<lparr>Status := next_status pg pods\<rparr> in
      if finishedOrFailed (Phase (Status pg')) then
        (case api_Delete A pg' k of (err, k') \<Rightarrow> ((\<lparr>Requeue = False\<rparr>, err), k'))
      else update_and_patch A pg' pg k)"

section \<open>Reconcile\<close>

text \<open>\<open>time.Time.Sub\<close> saturates at the range of a duration.\<close>

definition time_Sub :: "instant \<Rightarrow> instant \<Rightarrow> duration" where
  "time_Sub t u = max (- (2 ^ 63)) (min (2 ^ 63 - 1) (t - u))"

definition twoDaysOld :: "PodGroup \<Rightarrow> bool" where
  "twoDaysOld pg \<longleftrightarrow>
     time_Sub (ScheduleStartTime (Status pg)) (pg_CreationTimestamp pg) > 48 * 3600 * Second"

definition schedulingOrPending :: "PodGroupPhase \<Rightarrow> bool" where
  "schedulingOrPending p \<longleftrightarrow> p = PodGroupScheduling \<or> p = PodGroupPending"

definition Reconcile :: "'k api \<Rightarrow> instant \<Rightarrow> string \<Rightarrow> string \<Rightarrow> 'k handler" where
  "Reconcile A now ns name k =
     (case api_Get A ns name k of
        Inl NotFound \<Rightarrow> ((\<lparr>Requeue = False\<rparr>, Inr ()), k)
      | Inl (OtherError err) \<Rightarrow> ((\<lparr>Requeue = False\<rparr>, Inl err), k)
      | Inr pg \<Rightarrow>
          if finishedOrFailed (Phase (Status pg)) then ((\<lparr>Requeue = False\<rparr>, Inr ()), k)
          else if schedulingOrPending (Phase (Status pg)) \<and> Running (Status pg) = 0 \<and> twoDaysOld pg
          then ((\<lparr>Requeue = False\<rparr>, Inr ()), api_Event A pg ''Timeout'' ''schedule time longer than 48 hours'' k)
          else
            (case api_List A (pg_Name pg) k of
               Inl err \<Rightarrow> ((\<lparr>Requeue = False\<rparr>, Inl err), k)
             | Inr pods \<Rightarrow>
                 if IsZero (CreationTime (Status pg)) then setTimeCreated A pg pods now k
                 else if MinMember (Spec pg) = 0
                 then updatePodGroupSize A pg (wrap32 (int (length pods))) pods k
                 else updateStatus A pg pods k))"

section \<open>Pod events\<close>

definition newPodGroup :: "'k api \<Rightarrow> instant \<Rightarrow> string \<Rightarrow> string \<Rightarrow> int32 \<Rightarrow> 'k \<Rightarrow> (PodGroup \<times> unit result) \<times> 'k" where
  "newPodGroup A now name namespace groupSize k =
     (let pg = zero_PodGroup\<lparr>pg_Name := name, pg_Namespace := namespace,
                 Spec := zero_PodGroupSpec\<lparr>MinMember := groupSize\<rparr>,
                 Status := zero_PodGroupStatus\<lparr>ScheduleStartTime := now\<rparr>\<rparr>
      in case api_Create A pg k of (err, k') \<Rightarrow> ((pg, err), k'))"

definition patchPodGroup :: "'k api \<Rightarrow> PodGroup \<Rightarrow> PodGroup \<Rightarrow> 'k handler" where
  "patchPodGroup A old new k =
     (case Status_Patch A new old k of
        (Inl err, k1) \<Rightarrow> ((\<lparr>Requeue = False\<rparr>, Inl err), k1)
      | (Inr _, k1) \<Rightarrow> (case api_Patch A new old k1 of (err, k2) \<Rightarrow> ((\<lparr>Requeue = False\<rparr>, err), k2)))"

definition updateOwnerReferences :: "'k api \<Rightarrow> PodGroup \<Rightarrow> Pod list \<Rightarrow> 'k handler" where
  "updateOwnerReferences A pg pods k =
     (case pods of
        [] \<Rightarrow> ((\<lparr>Requeue = True\<rparr>, Inr ()), k)
      | pod # _ \<Rightarrow>
          if length (pod_OwnerReferences pod) = 0 then ((\<lparr>Requeue = True\<rparr>, Inr ()), k)
          else
            let owners = pod_OwnerReferences pod;
                refs = map (\<lambda>r. pod_Namespace pod @ ''/'' @ or_Name r) owners
            in update_and_patch A
                 (pg\<lparr>Status := (Status pg)\<lparr>OccupiedBy := Join (sort refs) '',''\<rparr>,
                     pg_OwnerReferences := owners\<rparr>) pg k)"

text \<open>
  \<open>ensurePodGroup\<close> maps an event of a watched pod to the groups to reconcile; \<open>Get\<close>
  leaves the empty object untouched when it fails.
\<close>

definition ensurePodGroup :: "'k api \<Rightarrow> instant \<Rightarrow> Pod \<Rightarrow> 'k \<Rightarrow> (string \<times> string) list \<times> 'k" where
  "ensurePodGroup A now pod k =
     (let groupName = util_PodGroupLabel A pod in
      if length groupName = 0 then ([], k)
      else if (case pod_DeletionTimestamp pod of None \<Rightarrow> False | Some t \<Rightarrow> \<not> IsZero t) then
        (case api_Get A (pod_Namespace pod) groupName k of
           Inl err \<Rightarrow> ([], snd (api_Delete A zero_PodGroup k))
         | Inr pg \<Rightarrow> ([], k))
      else if pod_Phase pod \<noteq> PodPending then ([], k)
      else
        (case ParseInt 32 (label_or_empty (pod_Labels pod) PodGroupSizeLabel) of
           None \<Rightarrow> ([], k)
         | Some groupSize \<Rightarrow>
             (case api_Get A (pod_Namespace pod) groupName k of
                Inl NotFound \<Rightarrow>
                  (case newPodGroup A now groupName (pod_Namespace pod) (wrap32 groupSize) k of
                     ((pg, Inr _), k') \<Rightarrow> ([(pod_Namespace pod, groupName)], k')
                   | ((pg, Inl err), k') \<Rightarrow> ([], k'))
              | Inl (OtherError err) \<Rightarrow> ([], k)
              | Inr pg \<Rightarrow> ([], k))))"


section \<open>Counting pods\<close>

definition in_phase :: "PodPhase \<Rightarrow> Pod list \<Rightarrow> int" where
  "in_phase p pods = int (length (filter (\<lambda>pod. pod_Phase pod = p) pods))"

lemma fold_count_pod:
  "fold count_pod pods (wrap32 r, wrap32 s, wrap32 f) =
     (wrap32 (r + in_phase PodRunning pods), wrap32 (s + in_phase PodSucceeded pods),
      wrap32 (f + in_phase PodFailed pods))"
proof (induction pods arbitrary: r s f)
  case Nil
  then show ?case by (simp add: in_phase_def)
next
  case (Cons pod pods)
  have step: "count_pod pod (wrap32 r, wrap32 s, wrap32 f) =
      (wrap32 (r + in_phase PodRunning [pod]), wrap32 (s + in_phase PodSucceeded [pod]),
       wrap32 (f + in_phase PodFailed [pod]))"
    by (simp add: count_pod_def in_phase_def wrap32_add_wrap split: PodPhase.split)
  have "in_phase p (pod # pods) = in_phase p [pod] + in_phase p pods" for p
    by (simp add: in_phase_def)
  then show ?case by (simp add: step Cons.IH add.assoc)
qed

lemma in_phase_bounds: "0 \<le> in_phase p pods" "in_phase p pods \<le> int (length pods)"
  by (simp_all add: in_phase_def)

lemma in_phase_disjoint:
  "in_phase PodRunning pods + in_phase PodSucceeded pods + in_phase PodFailed pods \<le> int (length pods)"
proof (induction pods)
  case (Cons pod pods)
  then show ?case by (cases "pod_Phase pod") (simp_all add: in_phase_def)
qed (simp add: in_phase_def)

lemma getCurrentPodStats_eq:
  assumes "int (length pods) < 2 ^ 31"
  shows "getCurrentPodStats pods = (in_phase PodRunning pods, in_phase PodSucceeded pods, in_phase PodFailed pods)"
proof -
  have "in_int32 (in_phase p pods)" for p
    using assms in_phase_bounds [of p pods] by (simp add: in_int32_def)
  then show ?thesis
    using fold_count_pod [of pods 0 0 0] by (auto simp: getCurrentPodStats_def in_phase_def)
qed

lemma next_status_counts:
  assumes "Phase (Status pg) \<notin> {PodGroupNoPhase, PodGroupPending}"
    and "MinMember (Spec pg) \<le> int (length pods)" and "int (length pods) < 2 ^ 31"
    and "r = in_phase PodRunning pods" and "s = in_phase PodSucceeded pods" and "f = in_phase PodFailed pods"
  shows "Phase (next_status pg pods) =
      (if MinMember (Spec pg) \<le> s then PodGroupFinished
       else if f \<noteq> 0 \<and> MinMember (Spec pg) \<le> f + r + s then PodGroupFailed
       else if MinMember (Spec pg) \<le> s + r then PodGroupRunning
       else PodGroupScheduling)
    \<and> Running (next_status pg pods) = r \<and> Succeeded (next_status pg pods) = s \<and> Failed (next_status pg pods) = f"
proof -
  have "0 \<le> r" "0 \<le> s" "0 \<le> f" using in_phase_bounds assms(4-6) by simp_all
  moreover have "r + s + f \<le> int (length pods)" using in_phase_disjoint assms(4-6) by simp
  ultimately have "wrap32 (s + r) = s + r" "wrap32 (f + r) = f + r" "wrap32 (f + r + s) = f + r + s"
    using assms(3) by (simp_all add: in_int32_def)
  moreover have "next_status pg pods = (Status pg)\<lparr>Phase := phase_of_counts (MinMember (Spec pg)) r s f (Phase (Status pg)),
      Running := r, Failed := f, Succeeded := s\<rparr>"
    using assms(1,2) getCurrentPodStats_eq [OF assms(3)] assms(4-6)
    by (auto simp: next_status_def Let_def split: PodGroupPhase.splits)
  ultimately show ?thesis by (simp add: phase_of_counts_def)
qed

text \<open>
  C11. The phase of an active group follows its pods: with enough pods for its minimum,
  a group that is past pending becomes Finished when the minimum has succeeded, else
  Failed when some pod failed and at least the minimum has ended or runs, else Running when
  at least the minimum succeeded or runs, else Scheduling; and the recorded counts are exact.
  So the code has it; the comment beside the test for Failed asks for more than the minimum, and the
  comments at the phases count only running pods for Running and any failed pod for Failed.
\<close>

theorem next_status_decision:
  assumes "Phase (Status pg) \<notin> {PodGroupNoPhase, PodGroupPending}"
    and "MinMember (Spec pg) \<le> int (length pods)" and "int (length pods) < 2 ^ 31"
    and "r = in_phase PodRunning pods" and "s = in_phase PodSucceeded pods" and "f = in_phase PodFailed pods"
  shows "Phase (next_status pg pods) =
      (if MinMember (Spec pg) \<le> s then PodGroupFinished
       else if f \<noteq> 0 \<and> MinMember (Spec pg) \<le> f + r + s then PodGroupFailed
       else if MinMember (Spec pg) \<le> s + r then PodGroupRunning
       else PodGroupScheduling)
    \<and> Running (next_status pg pods) = r \<and> Succeeded (next_status pg pods) = s \<and> Failed (next_status pg pods) = f"
  by (rule next_status_counts [OF assms])

definition demo_running_group :: PodGroup where
  "demo_running_group = zero_PodGroup\<lparr>pg_Name := ''g'', pg_Namespace := ''ns'',
     Spec := zero_PodGroupSpec\<lparr>MinMember := 2\<rparr>,
     Status := zero_PodGroupStatus\<lparr>Phase := PodGroupRunning, CreationTime := 5\<rparr>\<rparr>"

definition pods_in :: "PodPhase list \<Rightarrow> Pod list" where
  "pods_in ps = map (\<lambda>p. (plain_pod ''ns'' ''x'' None)\<lparr>pod_Phase := p\<rparr>) ps"

lemma in_phase_pods_in: "in_phase p (pods_in ps) = int (length (filter (\<lambda>q. q = p) ps))"
  by (simp add: in_phase_def pods_in_def filter_map o_def)

lemma demo_running_premises:
  "Phase (Status demo_running_group) \<notin> {PodGroupNoPhase, PodGroupPending}"
  "MinMember (Spec demo_running_group) \<le> int (length (pods_in [PodSucceeded, PodFailed]))"
  "int (length (pods_in [PodSucceeded, PodFailed])) < 2 ^ 31"
  by (simp_all add: demo_running_group_def pods_in_def)

theorem next_status_decision_witness:
  "Phase (next_status demo_running_group (pods_in [PodSucceeded, PodFailed])) = PodGroupFailed"
  using next_status_decision [OF demo_running_premises refl refl refl]
  by (simp add: in_phase_pods_in demo_running_group_def)

text \<open>
  A group never skips a phase on the way in and never enters an undocumented one:
  a new group only becomes Pending, a Pending group only stays or becomes Scheduling,
  and no update produces the phase Unknown or the empty phase.
\<close>

theorem next_status_transitions:
  "(Phase (Status pg) = PodGroupNoPhase \<longrightarrow> Phase (next_status pg pods) = PodGroupPending)
   \<and> (Phase (Status pg) = PodGroupPending \<longrightarrow> Phase (next_status pg pods) =
        (if MinMember (Spec pg) \<le> int (length pods) then PodGroupScheduling else PodGroupPending))
   \<and> Phase (next_status pg pods) \<in> {PodGroupPending, PodGroupScheduling, PodGroupRunning, PodGroupFailed, PodGroupFinished}"
  by (auto simp: next_status_def Let_def phase_of_counts_def split: PodGroupPhase.splits prod.splits)

theorem next_status_transitions_witness:
  "Phase (next_status zero_PodGroup []) = PodGroupPending"
  using next_status_transitions [of zero_PodGroup "[]"] by (simp add: k8s_zero_defs)


section \<open>The controller and the store\<close>

definition pg_key :: "PodGroup \<Rightarrow> string \<times> string" where
  "pg_key pg = (pg_Namespace pg, pg_Name pg)"

text \<open>
  The documented behaviour of an API server without failures, over the objects it
  stores: a read returns the stored object; a status update persists what the schema keeps of the
  status and nothing else; a patch of the main resource persists the specification when it differs
  from the base, and never the status; a deletion removes the object; events change
  nothing. The specification the client holds after a status update is its own or the
  server's. A schema with all fields of the Go type keeps the whole status (\<open>api_laws\<close>).
\<close>

definition kept_laws :: "(PodGroupStatus \<Rightarrow> PodGroupStatus) \<Rightarrow> ('k \<Rightarrow> string \<times> string \<rightharpoonup> PodGroup) \<Rightarrow> 'k api \<Rightarrow> bool" where
  "kept_laws keep stored A \<longleftrightarrow>
     (\<forall>ns n k. api_Get A ns n k = (case stored k (ns, n) of None \<Rightarrow> Inl NotFound | Some pg \<Rightarrow> Inr pg))
   \<and> (\<forall>ns n k pg. stored k (ns, n) = Some pg \<longrightarrow> pg_key pg = (ns, n))
   \<and> (\<forall>pg k cur. stored k (pg_key pg) = Some cur \<longrightarrow> (case Status_Update A pg k of (obj, k') \<Rightarrow>
        stored k' = (stored k)(pg_key pg \<mapsto> cur\<lparr>Status := keep (Status pg)\<rparr>) \<and> Status obj = keep (Status pg)
        \<and> pg_key obj = pg_key pg \<and> Spec obj \<in> {Spec pg, Spec cur}))
   \<and> (\<forall>new base k cur. stored k (pg_key new) = Some cur \<longrightarrow> (case api_Patch A new base k of (err, k') \<Rightarrow>
        err = Inr () \<and> stored k' =
          (stored k)(pg_key new \<mapsto> cur\<lparr>Spec := (if Spec new = Spec base then Spec cur else Spec new)\<rparr>)))
   \<and> (\<forall>pg k. case api_Delete A pg k of (err, k') \<Rightarrow>
        err = Inr () \<and> stored k' = (stored k)(pg_key pg := None))
   \<and> (\<forall>pg r m k. stored (api_Event A pg r m k) = stored k)"

abbreviation api_laws :: "('k \<Rightarrow> string \<times> string \<rightharpoonup> PodGroup) \<Rightarrow> 'k api \<Rightarrow> bool" where
  "api_laws \<equiv> kept_laws (\<lambda>s. s)"

lemma kept_lawsD:
  assumes "kept_laws keep stored A"
  shows "api_Get A ns n k = (case stored k (ns, n) of None \<Rightarrow> Inl NotFound | Some pg \<Rightarrow> Inr pg)"
    and "stored k (ns, n) = Some pg \<Longrightarrow> pg_key pg = (ns, n)"
    and "stored k (pg_key pg) = Some cur \<Longrightarrow> Status_Update A pg k = (obj, k') \<Longrightarrow>
      stored k' = (stored k)(pg_key pg \<mapsto> cur\<lparr>Status := keep (Status pg)\<rparr>) \<and> Status obj = keep (Status pg)
        \<and> pg_key obj = pg_key pg \<and> Spec obj \<in> {Spec pg, Spec cur}"
    and "stored k (pg_key new) = Some cur \<Longrightarrow> api_Patch A new base k = (err, k') \<Longrightarrow>
      err = Inr () \<and> stored k' =
        (stored k)(pg_key new \<mapsto> cur\<lparr>Spec := (if Spec new = Spec base then Spec cur else Spec new)\<rparr>)"
    and "api_Delete A pg k = (err, k') \<Longrightarrow> err = Inr () \<and> stored k' = (stored k)(pg_key pg := None)"
    and "stored (api_Event A pg reason msg k) = stored k"
proof -
  note c = assms [unfolded kept_laws_def]
  note c2 = c [THEN conjunct2] note c3 = c2 [THEN conjunct2] note c4 = c3 [THEN conjunct2]
  note c5 = c4 [THEN conjunct2]
  show "api_Get A ns n k = (case stored k (ns, n) of None \<Rightarrow> Inl NotFound | Some pg \<Rightarrow> Inr pg)"
    by (rule c [THEN conjunct1, rule_format])
  show "stored k (ns, n) = Some pg \<Longrightarrow> pg_key pg = (ns, n)"
    by (rule c2 [THEN conjunct1, rule_format])
  show "stored k (pg_key pg) = Some cur \<Longrightarrow> Status_Update A pg k = (obj, k') \<Longrightarrow>
      stored k' = (stored k)(pg_key pg \<mapsto> cur\<lparr>Status := keep (Status pg)\<rparr>) \<and> Status obj = keep (Status pg)
        \<and> pg_key obj = pg_key pg \<and> Spec obj \<in> {Spec pg, Spec cur}"
    using c3 [THEN conjunct1, rule_format, of k pg cur] by simp
  show "stored k (pg_key new) = Some cur \<Longrightarrow> api_Patch A new base k = (err, k') \<Longrightarrow>
      err = Inr () \<and> stored k' =
        (stored k)(pg_key new \<mapsto> cur\<lparr>Spec := (if Spec new = Spec base then Spec cur else Spec new)\<rparr>)"
    using c4 [THEN conjunct1, rule_format, of k new cur base] by simp
  show "api_Delete A pg k = (err, k') \<Longrightarrow> err = Inr () \<and> stored k' = (stored k)(pg_key pg := None)"
    using c5 [THEN conjunct1, rule_format, of k pg] by simp
  show "stored (api_Event A pg reason msg k) = stored k"
    by (rule c5 [THEN conjunct2, rule_format])
qed

lemmas api_lawsD = kept_lawsD [where keep = "\<lambda>s. s"]

text \<open>Persisting a change of status only: what is stored is the object with that status.\<close>

lemma update_and_patch_kept:
  assumes "kept_laws keep stored A" and "stored k (ns, n) = Some pg"
    and "update_and_patch A (pg\<lparr>Status := s\<rparr>) pg k = (res, k')"
  shows "res = (\<lparr>Requeue = True\<rparr>, Inr ()) \<and> stored k' = (stored k)((ns, n) \<mapsto> pg\<lparr>Status := keep s\<rparr>)"
proof -
  let ?new = "pg\<lparr>Status := s\<rparr>" and ?kept = "pg\<lparr>Status := keep s\<rparr>"
  note law = kept_lawsD [OF assms(1)]
  have key: "pg_key pg = (ns, n)" "pg_key ?new = (ns, n)"
    using law(2) [OF assms(2)] by (simp_all add: pg_key_def)
  obtain obj k1 where upd: "Status_Update A ?new k = (obj, k1)" by (cases "Status_Update A ?new k")
  have "stored k (pg_key ?new) = Some pg" using assms(2) key by simp
  from law(3) [OF this upd] have k1: "stored k1 = (stored k)((ns, n) \<mapsto> ?kept)"
    and obj: "pg_key obj = (ns, n)" "Spec obj = Spec pg" using key by auto
  obtain err k2 where patch: "api_Patch A obj pg k1 = (err, k2)" by (cases "api_Patch A obj pg k1")
  have "stored k1 (pg_key obj) = Some ?kept" using k1 obj by simp
  from law(4) [OF this patch] have "err = Inr ()" "stored k2 = (stored k)((ns, n) \<mapsto> ?kept)"
    using k1 obj by (simp_all)
  with upd patch assms(3) show ?thesis by (simp add: update_and_patch_def)
qed

lemmas update_and_patch_status = update_and_patch_kept [where keep = "\<lambda>s. s"]

text \<open>The abstract step of a group under the controller: deleted when it ended, else updated.\<close>

definition group_step :: "PodGroup \<Rightarrow> Pod list \<Rightarrow> PodGroup option" where
  "group_step pg pods =
     (let pg' = pg\<lparr>Status := next_status pg pods\<rparr>
      in if finishedOrFailed (Phase (Status pg')) then None else Some pg')"

definition active :: "PodGroup \<Rightarrow> bool" where
  "active pg \<longleftrightarrow> \<not> finishedOrFailed (Phase (Status pg)) \<and> \<not> twoDaysOld pg
     \<and> \<not> IsZero (CreationTime (Status pg)) \<and> MinMember (Spec pg) \<noteq> 0"

lemma Reconcile_step:
  assumes "api_laws stored A" and "stored k (ns, n) = Some pg" and "active pg"
    and "api_List A n k = Inr pods" and "Reconcile A now ns n k = (res, k')"
  shows "stored k' = (stored k)((ns, n) := group_step pg pods) \<and> snd res = Inr ()
    \<and> (Requeue (fst res) \<longleftrightarrow> group_step pg pods \<noteq> None)"
proof -
  note law = api_lawsD [OF assms(1)]
  have key: "pg_key pg = (ns, n)" by (rule law(2) [OF assms(2)])
  have run: "updateStatus A pg pods k = (res, k')"
    using assms(2-5) key law(1) by (simp add: Reconcile_def active_def pg_key_def)
  show ?thesis
  proof (cases "finishedOrFailed (Phase (next_status pg pods))")
    case True
    obtain err k1 where del: "api_Delete A (pg\<lparr>Status := next_status pg pods\<rparr>) k = (err, k1)"
      by (cases "api_Delete A (pg\<lparr>Status := next_status pg pods\<rparr>) k")
    have "pg_key (pg\<lparr>Status := next_status pg pods\<rparr>) = (ns, n)" using key by (simp add: pg_key_def)
    with law(5) [OF del] del run True show ?thesis by (auto simp: updateStatus_def group_step_def)
  next
    case False
    with run have "update_and_patch A (pg\<lparr>Status := next_status pg pods\<rparr>) pg k = (res, k')"
      by (simp add: updateStatus_def)
    from update_and_patch_status [OF assms(1,2) this] False show ?thesis by (simp add: group_step_def)
  qed
qed


section \<open>Properties of the control loop\<close>

text \<open>A server that stores groups and always lists the same pods.\<close>

definition store_api :: "Pod list \<Rightarrow> (string \<times> string \<rightharpoonup> PodGroup) api" where
  "store_api pods =
     \<lparr>api_Get = (\<lambda>ns n k. case k (ns, n) of None \<Rightarrow> Inl NotFound
        | Some pg \<Rightarrow> Inr (pg\<lparr>pg_Namespace := ns, pg_Name := n\<rparr>)),
      api_List = (\<lambda>_ _. Inr pods),
      Status_Update = (\<lambda>pg k. (pg, case k (pg_key pg) of None \<Rightarrow> k
        | Some cur \<Rightarrow> k(pg_key pg \<mapsto> cur\<lparr>Status := Status pg\<rparr>))),
      api_Patch = (\<lambda>new base k. (Inr (), case k (pg_key new) of None \<Rightarrow> k
        | Some cur \<Rightarrow> if Spec new = Spec base then k else k(pg_key new \<mapsto> cur\<lparr>Spec := Spec new\<rparr>))),
      Status_Patch = (\<lambda>new base k. (Inr (), k)),
      api_Delete = (\<lambda>pg k. (Inr (), k(pg_key pg := None))),
      api_Create = (\<lambda>pg k. (Inr (), k(pg_key pg \<mapsto> pg\<lparr>Status := zero_PodGroupStatus\<rparr>))),
      api_Event = (\<lambda>_ _ _ k. k),
      util_PodGroupLabel = GetPodGroupLabel,
      MicroTime_Unmarshal = (\<lambda>_. Inl (Err ''not a time''))\<rparr>"

definition store_objects :: "(string \<times> string \<rightharpoonup> PodGroup) \<Rightarrow> string \<times> string \<rightharpoonup> PodGroup" where
  "store_objects k key = map_option (\<lambda>pg. pg\<lparr>pg_Namespace := fst key, pg_Name := snd key\<rparr>) (k key)"

lemma store_api_laws: "api_laws store_objects (store_api pods)"
  unfolding kept_laws_def store_api_def
  by (auto simp: store_objects_def pg_key_def fun_eq_iff split: option.splits)

text \<open>
  C8. The controller refines its abstract step: reconciling an active group whose pods
  can be listed persists exactly the group's next state, removes the group when it
  ended, leaves every other group alone, reports no error, and asks to be called again
  exactly while the group lives on. The server is one that keeps the whole status (\<open>api_laws\<close>);
  what becomes of a group on one that does not, \<open>shipped_crd_stalls\<close> in \<open>Controller_Life\<close> shows.
\<close>

theorem Reconcile_refines_group_step:
  assumes "api_laws stored A" and "stored k (ns, n) = Some pg" and "active pg"
    and "api_List A n k = Inr pods" and "Reconcile A now ns n k = (res, k')"
  shows "stored k' = (stored k)((ns, n) := group_step pg pods) \<and> snd res = Inr ()
    \<and> (Requeue (fst res) \<longleftrightarrow> group_step pg pods \<noteq> None)"
  by (rule Reconcile_step [OF assms])

lemma demo_running_active: "active demo_running_group"
  by (simp add: active_def demo_running_group_def finishedOrFailed_def twoDaysOld_def time_Sub_def
      IsZero_def zero_PodGroup_def zero_PodGroupStatus_def Second_def)

lemma demo_running_stored:
  "store_objects [(''ns'', ''g'') \<mapsto> demo_running_group] (''ns'', ''g'') = Some demo_running_group"
  by (simp add: store_objects_def demo_running_group_def)

theorem Reconcile_refines_group_step_witness:
  "store_objects (snd (Reconcile (store_api (pods_in [PodSucceeded, PodFailed])) 9 ''ns'' ''g''
     [(''ns'', ''g'') \<mapsto> demo_running_group])) (''ns'', ''g'') = None"
proof -
  let ?A = "store_api (pods_in [PodSucceeded, PodFailed])" and ?k = "[(''ns'', ''g'') \<mapsto> demo_running_group]"
  obtain res k' where run: "Reconcile ?A 9 ''ns'' ''g'' ?k = (res, k')" by (cases "Reconcile ?A 9 ''ns'' ''g'' ?k")
  have "Phase (next_status demo_running_group (pods_in [PodSucceeded, PodFailed])) = PodGroupFailed"
    using next_status_counts [OF demo_running_premises refl refl refl]
    by (simp add: in_phase_pods_in demo_running_group_def)
  then have "group_step demo_running_group (pods_in [PodSucceeded, PodFailed]) = None"
    by (simp add: group_step_def finishedOrFailed_def)
  with Reconcile_refines_group_step [OF store_api_laws demo_running_stored demo_running_active _ run,
      of "pods_in [PodSucceeded, PodFailed]"] run
  show ?thesis by (simp add: store_api_def)
qed

text \<open>Reconciling a group again and again.\<close>

definition reconciles :: "'k api \<Rightarrow> string \<Rightarrow> string \<Rightarrow> instant list \<Rightarrow> 'k \<Rightarrow> 'k" where
  "reconciles A ns n nows k = fold (\<lambda>now k. snd (Reconcile A now ns n k)) nows k"

lemma Reconcile_stored:
  assumes "api_laws stored A" and "stored k (ns, n) = Some pg" and "active pg" and "api_List A n k = Inr pods"
  shows "stored (snd (Reconcile A now ns n k)) = (stored k)((ns, n) := group_step pg pods)"
  using Reconcile_step [OF assms surjective_pairing] by simp

lemma Reconcile_from_new:
  assumes "api_laws stored A" and "stored k (ns, n) = Some pg" and "active pg"
    and "Phase (Status pg) = PodGroupNoPhase" and "\<And>k. api_List A n k = Inr pods"
    and "0 < MinMember (Spec pg)" and "MinMember (Spec pg) \<le> in_phase PodSucceeded pods"
    and "int (length pods) < 2 ^ 31"
  shows "stored (reconciles A ns n [t1, t2, t3] k) = (stored k)((ns, n) := None)"
proof -
  let ?pg1 = "pg\<lparr>Status := (Status pg)\<lparr>Phase := PodGroupPending\<rparr>\<rparr>"
  let ?pg2 = "pg\<lparr>Status := (Status pg)\<lparr>Phase := PodGroupScheduling\<rparr>\<rparr>"
  let ?k1 = "snd (Reconcile A t1 ns n k)" let ?k2 = "snd (Reconcile A t2 ns n ?k1)"
  have enough: "MinMember (Spec pg) \<le> int (length pods)" using assms(7) in_phase_bounds(2) order_trans by blast
  have s1: "group_step pg pods = Some ?pg1"
    using assms(4) by (simp add: group_step_def next_status_def finishedOrFailed_def)
  have s2: "group_step ?pg1 pods = Some ?pg2"
    using enough by (simp add: group_step_def next_status_def finishedOrFailed_def)
  have "Phase (next_status ?pg2 pods) = PodGroupFinished"
    using next_status_counts [of ?pg2 pods, OF _ _ assms(8) refl refl refl] enough assms(7) by simp
  then have s3: "group_step ?pg2 pods = None" by (simp add: group_step_def finishedOrFailed_def)
  have act: "active ?pg1" "active ?pg2"
    using assms(3) by (simp_all add: active_def finishedOrFailed_def twoDaysOld_def)
  have k1: "stored ?k1 = (stored k)((ns, n) \<mapsto> ?pg1)"
    using Reconcile_stored [OF assms(1-3,5)] s1 by simp
  have k2: "stored ?k2 = (stored k)((ns, n) \<mapsto> ?pg2)"
    using Reconcile_stored [OF assms(1) _ act(1) assms(5), of ?k1] s2 k1 by simp
  have "stored (snd (Reconcile A t3 ns n ?k2)) = (stored k)((ns, n) := None)"
    using Reconcile_stored [OF assms(1) _ act(2) assms(5), of ?k2] s3 k2 by simp
  then show ?thesis by (simp add: reconciles_def)
qed

text \<open>The first round of a group as it was created records its time.\<close>

lemma Reconcile_first_kept:
  assumes "kept_laws keep stored A" and "stored k (ns, n) = Some pg" and "Status pg = zero_PodGroupStatus"
    and "api_List A n k = Inr pods"
  shows "stored (snd (Reconcile A now ns n k)) =
    (stored k)((ns, n) \<mapsto> pg\<lparr>Status := keep (zero_PodGroupStatus\<lparr>CreationTime := group_time A pods now\<rparr>)\<rparr>)
    \<and> fst (Reconcile A now ns n k) = (\<lparr>Requeue = True\<rparr>, Inr ())"
proof -
  note law = kept_lawsD [OF assms(1)]
  have key: "pg_key pg = (ns, n)" by (rule law(2) [OF assms(2)])
  have "Reconcile A now ns n k = setTimeCreated A pg pods now k"
    using assms(2-4) key law(1)
    by (simp add: Reconcile_def pg_key_def finishedOrFailed_def schedulingOrPending_def IsZero_def
        zero_PodGroupStatus_def)
  then show ?thesis
    using update_and_patch_kept [OF assms(1,2) surjective_pairing] assms(3) by (simp add: setTimeCreated_def)
qed

lemmas Reconcile_first = Reconcile_first_kept [where keep = "\<lambda>s. s", THEN conjunct1]

text \<open>
  C23. The controller converges on a server that keeps what it is told: a group as the API server creates it, whose minimum of
  pods has succeeded, is removed from the server after four rounds (its time, Pending,
  Scheduling, Finished), and nothing else changes. This needs a definition of the resource whose
  status has a creation time, as the Go type has; with the one that is shipped the group stays
  in the first of these rounds (\<open>shipped_crd_stalls\<close> in \<open>Controller_Life\<close>).
\<close>

theorem Reconcile_converges:
  assumes "api_laws stored A" and "stored k (ns, n) = Some pg" and "Status pg = zero_PodGroupStatus"
    and "\<And>k. api_List A n k = Inr pods" and "0 \<le> pg_CreationTimestamp pg" and "group_time A pods t0 \<noteq> 0"
    and "0 < MinMember (Spec pg)" and "MinMember (Spec pg) \<le> in_phase PodSucceeded pods"
    and "int (length pods) < 2 ^ 31"
  shows "stored (reconciles A ns n [t0, t1, t2, t3] k) = (stored k)((ns, n) := None)"
proof -
  let ?pg = "pg\<lparr>Status := zero_PodGroupStatus\<lparr>CreationTime := group_time A pods t0\<rparr>\<rparr>"
  let ?k = "snd (Reconcile A t0 ns n k)"
  have k: "stored ?k = (stored k)((ns, n) \<mapsto> ?pg)" by (rule Reconcile_first [OF assms(1-4)])
  have "active ?pg"
    using assms(5-7) by (simp add: active_def finishedOrFailed_def twoDaysOld_def time_Sub_def IsZero_def
        zero_PodGroupStatus_def Second_def)
  moreover have "stored ?k (ns, n) = Some ?pg" using k by simp
  moreover have "Phase (Status ?pg) = PodGroupNoPhase" by (simp add: zero_PodGroupStatus_def)
  ultimately have "stored (reconciles A ns n [t1, t2, t3] ?k) = (stored ?k)((ns, n) := None)"
    using assms(7-9) by (intro Reconcile_from_new [where pg = ?pg, OF assms(1) _ _ _ assms(4)]) simp_all
  then show ?thesis by (simp add: reconciles_def k)
qed

definition demo_new_group :: PodGroup where
  "demo_new_group = demo_running_group\<lparr>Status := zero_PodGroupStatus\<rparr>"

theorem Reconcile_converges_witness:
  "store_objects (reconciles (store_api (pods_in [PodSucceeded, PodSucceeded])) ''ns'' ''g'' [1, 2, 3, 4]
     [(''ns'', ''g'') \<mapsto> demo_new_group]) (''ns'', ''g'') = None"
proof -
  have st: "store_objects [(''ns'', ''g'') \<mapsto> demo_new_group] (''ns'', ''g'') = Some demo_new_group"
    by (simp add: store_objects_def demo_new_group_def demo_running_group_def)
  have new: "Status demo_new_group = zero_PodGroupStatus" "0 \<le> pg_CreationTimestamp demo_new_group"
    "MinMember (Spec demo_new_group) = 2"
    by (simp_all add: demo_new_group_def demo_running_group_def zero_PodGroup_def)
  have lst: "\<And>k. api_List (store_api (pods_in [PodSucceeded, PodSucceeded])) ''g'' k
      = Inr (pods_in [PodSucceeded, PodSucceeded])"
    by (simp add: store_api_def)
  have time: "group_time (store_api (pods_in [PodSucceeded, PodSucceeded])) (pods_in [PodSucceeded, PodSucceeded]) 1 \<noteq> 0"
    by (simp add: group_time_def pods_in_def plain_pod_def)
  have min: "0 < MinMember (Spec demo_new_group)"
    "MinMember (Spec demo_new_group) \<le> in_phase PodSucceeded (pods_in [PodSucceeded, PodSucceeded])"
    unfolding new(3) by (simp_all add: in_phase_pods_in)
  have len: "int (length (pods_in [PodSucceeded, PodSucceeded])) < 2 ^ 31"
    by (simp add: pods_in_def)
  show ?thesis
    unfolding Reconcile_converges [OF store_api_laws st new(1) lst new(2) time min len] by simp
qed

section \<open>Pod events and the store\<close>

text \<open>
  Creating an object that is not stored yet persists its specification. The status is a
  subresource, so the server drops the one that was sent.
\<close>

definition create_law :: "('k \<Rightarrow> string \<times> string \<rightharpoonup> PodGroup) \<Rightarrow> 'k api \<Rightarrow> bool" where
  "create_law stored A \<longleftrightarrow> (\<forall>pg k. stored k (pg_key pg) = None \<longrightarrow>
     (case api_Create A pg k of (err, k') \<Rightarrow> err = Inr () \<and> (\<exists>cur. stored k' = (stored k)(pg_key pg \<mapsto> cur)
        \<and> Spec cur = Spec pg \<and> Status cur = zero_PodGroupStatus)))"

definition terminating :: "Pod \<Rightarrow> bool" where
  "terminating pod \<longleftrightarrow> (case pod_DeletionTimestamp pod of None \<Rightarrow> False | Some t \<Rightarrow> \<not> IsZero t)"

text \<open>The size of the group a pod event creates, if it creates one.\<close>

definition creates :: "'k api \<Rightarrow> (string \<times> string \<rightharpoonup> PodGroup) \<Rightarrow> Pod \<Rightarrow> int32 option" where
  "creates A groups pod =
     (if util_PodGroupLabel A pod \<noteq> '''' \<and> \<not> terminating pod \<and> pod_Phase pod = PodPending
         \<and> groups (pod_Namespace pod, util_PodGroupLabel A pod) = None
      then ParseInt 32 (label_or_empty (pod_Labels pod) PodGroupSizeLabel) else None)"

lemma newPodGroup_stored:
  assumes "create_law stored A" and "stored k (ns, name) = None" and "newPodGroup A now name ns sz k = ((pg, err), k')"
  shows "err = Inr () \<and> (\<exists>cur. stored k' = (stored k)((ns, name) \<mapsto> cur) \<and> MinMember (Spec cur) = sz
    \<and> Status cur = zero_PodGroupStatus)"
proof -
  let ?pg = "zero_PodGroup\<lparr>pg_Name := name, pg_Namespace := ns, Spec := zero_PodGroupSpec\<lparr>MinMember := sz\<rparr>,
    Status := zero_PodGroupStatus\<lparr>ScheduleStartTime := now\<rparr>\<rparr>"
  have key: "pg_key ?pg = (ns, name)" by (simp add: pg_key_def)
  have "api_Create A ?pg k = (err, k')"
    using assms(3) by (simp add: newPodGroup_def Let_def split: prod.splits)
  then show ?thesis using assms(1,2) key unfolding create_law_def by (fastforce dest!: spec [where x = ?pg] spec [where x = k])
qed

lemma ensurePodGroup_stored:
  assumes "kept_laws keep stored A" and "create_law stored A" and "stored k ('''', '''') = None"
    and "key = (pod_Namespace pod, util_PodGroupLabel A pod)" and "ensurePodGroup A now pod k = (reqs, k')"
  shows "case creates A (stored k) pod of
      None \<Rightarrow> stored k' = stored k \<and> reqs = []
    | Some n \<Rightarrow> reqs = [key] \<and> (\<exists>pg. stored k' = (stored k)(key \<mapsto> pg) \<and> MinMember (Spec pg) = n
        \<and> Status pg = zero_PodGroupStatus)"
proof (cases "util_PodGroupLabel A pod = '''' \<or> terminating pod \<or> pod_Phase pod \<noteq> PodPending
    \<or> stored k key \<noteq> None \<or> ParseInt 32 (label_or_empty (pod_Labels pod) PodGroupSizeLabel) = None")
  case True
  have "pg_key zero_PodGroup = ('''', '''')" by (simp add: pg_key_def zero_PodGroup_def)
  then have del: "stored (snd (api_Delete A zero_PodGroup k)) = stored k"
    using kept_lawsD(5) [OF assms(1), of zero_PodGroup k "fst (api_Delete A zero_PodGroup k)"] assms(3)
    by (simp add: fun_upd_idem)
  have "creates A (stored k) pod = None" using True assms(4) by (auto simp: creates_def)
  moreover have "stored k' = stored k \<and> reqs = []"
    using True assms(4,5) del kept_lawsD(1) [OF assms(1), of "pod_Namespace pod" "util_PodGroupLabel A pod" k]
    by (auto simp: ensurePodGroup_def Let_def terminating_def split: if_splits option.splits)
  ultimately show ?thesis by simp
next
  case False
  then obtain n where n: "ParseInt 32 (label_or_empty (pod_Labels pod) PodGroupSizeLabel) = Some n" by auto
  then have "in_int32 n" by (rule ParseInt32_range)
  obtain pg err k1 where new: "newPodGroup A now (util_PodGroupLabel A pod) (pod_Namespace pod) n k = ((pg, err), k1)"
    by (metis surj_pair)
  have get: "api_Get A (pod_Namespace pod) (util_PodGroupLabel A pod) k = Inl NotFound"
    using False assms(4) kept_lawsD(1) [OF assms(1)] by simp
  have "stored k (pod_Namespace pod, util_PodGroupLabel A pod) = None" using False assms(4) by simp
  note st = newPodGroup_stored [OF assms(2) this new]
  have "creates A (stored k) pod = Some n" using False n assms(4) by (simp add: creates_def)
  moreover have "reqs = [key] \<and> k' = k1"
    using False n get new st assms(4,5) \<open>in_int32 n\<close>
    by (auto simp: ensurePodGroup_def Let_def terminating_def split: if_splits option.splits)
  ultimately show ?thesis using st assms(4) by auto
qed

text \<open>
  C21. Exactly the event of a pending, labelled pod that is not being deleted, whose
  size label is a number and whose group does not exist, creates a group: of the size of
  the label, with the empty status, and with one request to reconcile it. The size is part of the
  specification, which an API server stores as the object is created (\<open>create_law\<close>), unlike the status;
  the comments at the code say that neither sticks. No other pod
  event changes a stored group; in particular deleting a pod never deletes its group.
\<close>

theorem ensurePodGroup_creates:
  assumes "api_laws stored A" and "create_law stored A" and "stored k ('''', '''') = None"
    and "key = (pod_Namespace pod, util_PodGroupLabel A pod)" and "ensurePodGroup A now pod k = (reqs, k')"
  shows "case creates A (stored k) pod of
      None \<Rightarrow> stored k' = stored k \<and> reqs = []
    | Some n \<Rightarrow> reqs = [key] \<and> (\<exists>pg. stored k' = (stored k)(key \<mapsto> pg) \<and> MinMember (Spec pg) = n
        \<and> Status pg = zero_PodGroupStatus)"
  by (rule ensurePodGroup_stored [OF assms])

lemma store_create_law: "create_law store_objects (store_api pods)"
  unfolding create_law_def store_api_def
  by (auto simp: store_objects_def pg_key_def fun_eq_iff split: option.splits)

definition demo_pod :: Pod where
  "demo_pod = plain_pod ''ns'' ''p'' (Some [PodGroupLabel \<mapsto> ''g'', PodGroupSizeLabel \<mapsto> ''3''])"

theorem ensurePodGroup_creates_witness:
  "fst (ensurePodGroup (store_api []) 9 demo_pod Map.empty) = [(''ns'', ''g'')]
   \<and> fst (ensurePodGroup (store_api []) 9 (demo_pod\<lparr>pod_DeletionTimestamp := Some 4\<rparr>) Map.empty) = []"
proof -
  have lab: "util_PodGroupLabel (store_api []) demo_pod = ''g''"
    "util_PodGroupLabel (store_api []) (demo_pod\<lparr>pod_DeletionTimestamp := Some 4\<rparr>) = ''g''"
    by (simp_all add: store_api_def demo_pod_def plain_pod_def GetPodGroupLabel_def label_or_empty_def)
  have "ParseInt 32 ''3'' = Some 3" by code_simp
  then have "creates (store_api []) (store_objects Map.empty) demo_pod = Some 3"
    "creates (store_api []) (store_objects Map.empty) (demo_pod\<lparr>pod_DeletionTimestamp := Some 4\<rparr>) = None"
    using lab by (simp_all add: creates_def demo_pod_def plain_pod_def store_objects_def terminating_def
        label_or_empty_def IsZero_def)
  moreover have "store_objects Map.empty ('''', '''') = None" by (simp add: store_objects_def)
  note ensurePodGroup_creates [where stored = store_objects and k = Map.empty and A = "store_api []" and now = 9,
      OF store_api_laws store_create_law this refl surjective_pairing]
  from this [of demo_pod] this [of "demo_pod\<lparr>pod_DeletionTimestamp := Some 4\<rparr>"]
  have "case creates (store_api []) (store_objects Map.empty) demo_pod of None \<Rightarrow> True
      | Some n \<Rightarrow> fst (ensurePodGroup (store_api []) 9 demo_pod Map.empty) =
          [(pod_Namespace demo_pod, util_PodGroupLabel (store_api []) demo_pod)]"
    and "case creates (store_api []) (store_objects Map.empty) (demo_pod\<lparr>pod_DeletionTimestamp := Some 4\<rparr>) of
        None \<Rightarrow> fst (ensurePodGroup (store_api []) 9 (demo_pod\<lparr>pod_DeletionTimestamp := Some 4\<rparr>) Map.empty) = []
      | Some n \<Rightarrow> True"
    by (simp_all split: option.splits)
  ultimately show ?thesis using lab by (simp add: demo_pod_def plain_pod_def)
qed

end
