(* ===== verification/Controller_Loop.thy ===== *)
theory Controller_Loop
  imports Controller
begin

text \<open>
  The controller over time: the work queue that calls \<open>Reconcile\<close> again as long as it asks
  to be requeued, and all states the stored groups can reach through reconciliations and pod
  events.
\<close>

section \<open>The requeue loop\<close>

text \<open>
  controller-runtime puts a request back into the queue when \<open>Reconcile\<close> sets \<open>Requeue\<close> or
  returns an error. The loop ends when neither holds; \<open>clock i\<close> is the time of the call \<open>i\<close>.
\<close>

partial_function (option) requeue_loop ::
    "'k api \<Rightarrow> (nat \<Rightarrow> instant) \<Rightarrow> string \<Rightarrow> string \<Rightarrow> nat \<Rightarrow> 'k \<Rightarrow> 'k option" where
  "requeue_loop A clock ns n i k =
     (if Requeue (fst (fst (Reconcile A (clock i) ns n k))) \<or> isl (snd (fst (Reconcile A (clock i) ns n k)))
      then requeue_loop A clock ns n (Suc i) (snd (Reconcile A (clock i) ns n k))
      else Some (snd (Reconcile A (clock i) ns n k)))"

text \<open>With these pods the group comes to an end, in success or in failure.\<close>

definition comes_to_end :: "int32 \<Rightarrow> Pod list \<Rightarrow> bool" where
  "comes_to_end minMember pods \<longleftrightarrow> minMember \<le> int (length pods)
     \<and> (minMember \<le> in_phase PodSucceeded pods
        \<or> in_phase PodFailed pods \<noteq> 0
          \<and> minMember \<le> in_phase PodFailed pods + in_phase PodRunning pods + in_phase PodSucceeded pods)"

lemma group_step_counted:
  assumes "Phase (Status pg) \<notin> {PodGroupNoPhase, PodGroupPending}" and "int (length pods) < 2 ^ 31"
  shows "group_step pg pods = None \<longleftrightarrow> comes_to_end (MinMember (Spec pg)) pods"
proof (cases "MinMember (Spec pg) \<le> int (length pods)")
  case True
  from next_status_counts [OF assms(1) True assms(2) refl refl refl] True show ?thesis
    by (auto simp: group_step_def finishedOrFailed_def comes_to_end_def Let_def)
next
  case False
  then have "Phase (next_status pg pods) = PodGroupPending"
    using assms(1) by (auto simp: next_status_def Let_def split: PodGroupPhase.splits)
  with False show ?thesis by (simp add: group_step_def finishedOrFailed_def comes_to_end_def)
qed

lemma group_step_early:
  "Phase (Status pg) \<in> {PodGroupNoPhase, PodGroupPending} \<Longrightarrow> group_step pg pods \<noteq> None"
  by (auto simp: group_step_def next_status_def finishedOrFailed_def Let_def)

lemma group_step_SomeD:
  assumes "group_step pg pods = Some pg'"
  shows "Spec pg' = Spec pg" and "active pg \<Longrightarrow> active pg'"
    and "Phase (Status pg) = PodGroupNoPhase \<Longrightarrow> Phase (Status pg') = PodGroupPending"
    and "Phase (Status pg) = PodGroupPending \<Longrightarrow> MinMember (Spec pg) \<le> int (length pods) \<Longrightarrow>
      Phase (Status pg') = PodGroupScheduling"
proof -
  have pg': "pg' = pg\<lparr>Status := next_status pg pods\<rparr>" "\<not> finishedOrFailed (Phase (next_status pg pods))"
    using assms by (auto simp: group_step_def Let_def split: if_splits)
  have "ScheduleStartTime (next_status pg pods) = ScheduleStartTime (Status pg)"
    "CreationTime (next_status pg pods) = CreationTime (Status pg)"
    by (auto simp: next_status_def Let_def split: PodGroupPhase.splits prod.splits)
  then show "Spec pg' = Spec pg" and "active pg \<Longrightarrow> active pg'"
    using pg' by (simp_all add: active_def twoDaysOld_def)
  show "Phase (Status pg) = PodGroupNoPhase \<Longrightarrow> Phase (Status pg') = PodGroupPending"
    and "Phase (Status pg) = PodGroupPending \<Longrightarrow> MinMember (Spec pg) \<le> int (length pods) \<Longrightarrow>
      Phase (Status pg') = PodGroupScheduling"
    using pg' by (simp_all add: next_status_def Let_def)
qed

lemma requeue_step:
  assumes "api_laws stored A" and "stored k (ns, n) = Some pg" and "active pg" and "\<And>k. api_List A n k = Inr pods"
  shows "requeue_loop A clock ns n i k =
    (let k' = snd (Reconcile A (clock i) ns n k)
     in if group_step pg pods = None then Some k' else requeue_loop A clock ns n (Suc i) k')"
  using Reconcile_step [OF assms surjective_pairing, of "clock i"]
  by (subst requeue_loop.simps) (simp add: Let_def)

fun rounds_left :: "PodGroupPhase \<Rightarrow> nat" where
  "rounds_left PodGroupNoPhase = 2"
| "rounds_left PodGroupPending = 1"
| "rounds_left _ = 0"

lemma requeue_ends:
  assumes "api_laws stored A" and "\<And>k. api_List A n k = Inr pods" and "int (length pods) < 2 ^ 31"
    and "stored k (ns, n) = Some pg" and "active pg" and "comes_to_end (MinMember (Spec pg)) pods"
    and "rounds = rounds_left (Phase (Status pg))"
  shows "\<exists>k'. requeue_loop A clock ns n i k = Some k' \<and> stored k' = (stored k)((ns, n) := None)"
  using assms(4-7)
proof (induction rounds arbitrary: k pg i rule: less_induct)
  case (less rounds)
  let ?k' = "snd (Reconcile A (clock i) ns n k)"
  note loop = requeue_step [OF assms(1) less.prems(1,2) assms(2), of clock i]
  have st: "stored ?k' = (stored k)((ns, n) := group_step pg pods)"
    by (rule Reconcile_stored [OF assms(1) less.prems(1,2) assms(2)])
  show ?case
  proof (cases "group_step pg pods")
    case None
    with loop st show ?thesis by (simp add: fun_eq_iff)
  next
    case (Some pg')
    note pg' = group_step_SomeD [OF Some]
    have early: "Phase (Status pg) \<in> {PodGroupNoPhase, PodGroupPending}"
      using group_step_counted [OF _ assms(3)] Some less.prems(3) by fastforce
    have "MinMember (Spec pg) \<le> int (length pods)" using less.prems(3) by (simp add: comes_to_end_def)
    then have fewer: "rounds_left (Phase (Status pg')) < rounds"
      using early pg'(3,4) less.prems(4) by auto
    have "stored ?k' (ns, n) = Some pg'" "comes_to_end (MinMember (Spec pg')) pods"
      using st Some less.prems(3) pg'(1) by simp_all
    from less.IH [OF fewer this(1) pg'(2) [OF less.prems(2)] this(2) refl, of "Suc i"] obtain k'' where
      k'': "requeue_loop A clock ns n (Suc i) ?k' = Some k''" "stored k'' = (stored ?k')((ns, n) := None)" by blast
    have "stored k'' = (stored k)((ns, n) := None)" unfolding k''(2) st Some by (rule fun_upd_upd)
    with k''(1) loop Some show ?thesis by (auto simp: Let_def)
  qed
qed

lemma requeue_ends_only_if:
  assumes "api_laws stored A" and "\<And>k. api_List A n k = Inr pods" and "int (length pods) < 2 ^ 31"
    and "requeue_loop A clock ns n i k = Some k'"
    and "stored k (ns, n) = Some pg" and "active pg"
  shows "comes_to_end (MinMember (Spec pg)) pods"
proof -
  let ?P = "\<lambda>B (c :: nat \<Rightarrow> instant) m n' (i :: nat) k k'. B = A \<and> m = ns \<and> n' = n \<longrightarrow>
    (\<forall>pg. stored k (ns, n) = Some pg \<and> active pg \<longrightarrow> comes_to_end (MinMember (Spec pg)) pods)"
  have "?P A clock ns n i k k'"
  proof (rule requeue_loop.raw_induct [where P = ?P, OF _ assms(4)])
    fix f B c m n' i k k'
    assume IH: "\<And>B c m n' i k k'. f B c m n' i k = Some k' \<Longrightarrow> ?P B c m n' i k k'"
      and eq: "(if Requeue (fst (fst (Reconcile B (c i) m n' k))) \<or> isl (snd (fst (Reconcile B (c i) m n' k)))
        then f B c m n' (Suc i) (snd (Reconcile B (c i) m n' k))
        else Some (snd (Reconcile B (c i) m n' k))) = Some k'"
    show "?P B c m n' i k k'"
    proof (intro impI allI, elim conjE)
      fix pg assume B: "B = A" "m = ns" "n' = n" and pg: "stored k (ns, n) = Some pg" "active pg"
      note step = Reconcile_step [OF assms(1) pg assms(2) surjective_pairing, of "c i"]
      show "comes_to_end (MinMember (Spec pg)) pods"
      proof (cases "group_step pg pods")
        case None
        with group_step_early have "Phase (Status pg) \<notin> {PodGroupNoPhase, PodGroupPending}" by metis
        with group_step_counted [OF _ assms(3)] None show ?thesis by blast
      next
        case (Some pg')
        with eq step B have "f A c ns n (Suc i) (snd (Reconcile A (c i) ns n k)) = Some k'" by simp
        from IH [OF this] step Some group_step_SomeD [OF Some] pg(2) show ?thesis by simp
      qed
    qed
  qed
  with assms(5,6) show ?thesis by blast
qed

text \<open>
  C10. When the control loop ends: for a group whose pods stay as they are, reconciling
  it comes to an end exactly when its minimum of pods exists and has succeeded, or has ended
  or runs with a failure among them. One failed pod is enough, even while all others still run, although the
  documentation has the group cleaned up when all its pods have finished or failed. The loop then leaves the server without the group and
  all other groups as they were; otherwise the controller keeps polling forever. The server is one that keeps
  the whole status; with the shipped definition of the resource the loop of a new group never
  ends (\<open>shipped_crd_stalls\<close> in \<open>Controller_Life\<close>).
\<close>

theorem control_loop_ends_iff:
  assumes "api_laws stored A" and "\<And>k. api_List A n k = Inr pods" and "int (length pods) < 2 ^ 31"
    and "stored k (ns, n) = Some pg" and "active pg"
  shows "case requeue_loop A clock ns n i k of
      None \<Rightarrow> \<not> comes_to_end (MinMember (Spec pg)) pods
    | Some k' \<Rightarrow> comes_to_end (MinMember (Spec pg)) pods \<and> stored k' = (stored k)((ns, n) := None)"
proof (cases "comes_to_end (MinMember (Spec pg)) pods")
  case True
  with requeue_ends [OF assms True refl, of clock i] show ?thesis by auto
next
  case False
  with requeue_ends_only_if [OF assms(1-3) _ assms(4,5), of clock i] show ?thesis
    by (cases "requeue_loop A clock ns n i k") auto
qed

theorem control_loop_ends_iff_witness:
  "requeue_loop (store_api (pods_in [PodSucceeded, PodFailed])) int ''ns'' ''g'' 0
     [(''ns'', ''g'') \<mapsto> demo_running_group] \<noteq> None
   \<and> requeue_loop (store_api (pods_in [PodFailed, PodRunning])) int ''ns'' ''g'' 0
     [(''ns'', ''g'') \<mapsto> demo_running_group] \<noteq> None
   \<and> requeue_loop (store_api (pods_in [PodRunning, PodRunning])) int ''ns'' ''g'' 0
     [(''ns'', ''g'') \<mapsto> demo_running_group] = None"
proof -
  have lst: "api_List (store_api (pods_in ps)) ''g'' k = Inr (pods_in ps)" for ps k
    by (simp add: store_api_def)
  have len: "int (length (pods_in [a, b])) < 2 ^ 31" for a b by (simp add: pods_in_def)
  have two: "MinMember (Spec demo_running_group) = 2" by (simp add: demo_running_group_def)
  have "comes_to_end 2 (pods_in [PodSucceeded, PodFailed])" "comes_to_end 2 (pods_in [PodFailed, PodRunning])" "\<not> comes_to_end 2 (pods_in [PodRunning, PodRunning])"
    by (simp_all add: comes_to_end_def in_phase_pods_in) (simp_all add: pods_in_def)
  note ends = this
  obtain k where k: "k = [(''ns'', ''g'') \<mapsto> demo_running_group]" by simp
  have st: "store_objects k (''ns'', ''g'') = Some demo_running_group" unfolding k by (rule demo_running_stored)
  have "case requeue_loop (store_api (pods_in [a, b])) int ''ns'' ''g'' 0 k of
      None \<Rightarrow> \<not> comes_to_end 2 (pods_in [a, b]) | Some k' \<Rightarrow> comes_to_end 2 (pods_in [a, b])" for a b
    using control_loop_ends_iff [where A = "store_api (pods_in [a, b])" and pods = "pods_in [a, b]",
        OF store_api_laws lst len st demo_running_active, of int 0] two
    by (auto split: option.splits)
  from this [of PodSucceeded PodFailed] this [of PodFailed PodRunning] this [of PodRunning PodRunning] ends show ?thesis
    unfolding k [symmetric] by (auto split: option.splits)
qed

section \<open>The groups on the server\<close>

text \<open>
  A group as the controller keeps it: its numbers fit the width of their fields, and its phase
  is one of those of a group that lives.
\<close>

definition wf_group :: "PodGroup \<Rightarrow> bool" where
  "wf_group pg \<longleftrightarrow> in_int32 (MinMember (Spec pg)) \<and> in_int32 (Running (Status pg))
     \<and> in_int32 (Succeeded (Status pg)) \<and> in_int32 (Failed (Status pg))
     \<and> Phase (Status pg) \<in> {PodGroupNoPhase, PodGroupPending, PodGroupScheduling, PodGroupRunning}"

definition store_wf :: "('k \<Rightarrow> string \<times> string \<rightharpoonup> PodGroup) \<Rightarrow> 'k \<Rightarrow> bool" where
  "store_wf stored k \<longleftrightarrow> (\<forall>ns n pg. stored k (ns, n) = Some pg \<longrightarrow> wf_group pg \<and> n \<noteq> '''')"

inductive creachable :: "('k \<Rightarrow> string \<times> string \<rightharpoonup> PodGroup) \<Rightarrow> ('k api \<Rightarrow> bool) \<Rightarrow> 'k \<Rightarrow> bool" for stored P where
  start: "stored k = Map.empty \<Longrightarrow> creachable stored P k"
| reconcile: "creachable stored P k \<Longrightarrow> P A \<Longrightarrow> creachable stored P (snd (Reconcile A now ns n k))"
| event: "creachable stored P k \<Longrightarrow> P A \<Longrightarrow> creachable stored P (snd (ensurePodGroup A now pod k))"

lemma getCurrentPodStats_typed:
  "getCurrentPodStats pods = (r, s, f) \<Longrightarrow> in_int32 r \<and> in_int32 s \<and> in_int32 f"
  using fold_count_pod [of pods 0 0 0] wrap32_range [of 0] by (auto simp: getCurrentPodStats_def split: if_splits)

lemma next_status_wf:
  assumes "wf_group pg" and "\<not> finishedOrFailed (Phase (next_status pg pods))"
  shows "wf_group (pg\<lparr>Status := next_status pg pods\<rparr>)"
proof -
  obtain r s f where stats: "getCurrentPodStats pods = (r, s, f)" by (cases "getCurrentPodStats pods")
  from getCurrentPodStats_typed [OF stats] assms(1)
  have "in_int32 (Running (next_status pg pods)) \<and> in_int32 (Succeeded (next_status pg pods))
      \<and> in_int32 (Failed (next_status pg pods))"
    by (auto simp: wf_group_def next_status_def Let_def stats split: PodGroupPhase.split)
  moreover have "Phase (next_status pg pods) \<in> {PodGroupPending, PodGroupScheduling, PodGroupRunning}"
    using next_status_transitions [of pg pods] assms(2) by (auto simp: finishedOrFailed_def)
  ultimately show ?thesis using assms(1) by (auto simp: wf_group_def)
qed

lemma group_size_typed: "in_int32 (group_size pods (wrap32 i))"
  by (auto simp: group_size_def split: list.split option.split)

lemma update_and_patch_stored:
  assumes "api_laws stored A" and "stored k (pg_key new) = Some cur" and "update_and_patch A new base k = (res, k')"
  shows "\<exists>sp\<in>{Spec cur, Spec new}. stored k' = (stored k)(pg_key new \<mapsto> cur\<lparr>Status := Status new, Spec := sp\<rparr>)"
proof -
  note law = api_lawsD [OF assms(1)]
  obtain obj k1 where upd: "Status_Update A new k = (obj, k1)" by (cases "Status_Update A new k")
  let ?cur = "cur\<lparr>Status := Status new\<rparr>"
  from law(3) [OF assms(2) upd] have k1: "stored k1 = (stored k)(pg_key new \<mapsto> ?cur)"
    and obj: "pg_key obj = pg_key new" "Spec obj \<in> {Spec new, Spec cur}" by auto
  obtain err k2 where patch: "api_Patch A obj base k1 = (err, k2)" by (cases "api_Patch A obj base k1")
  have "stored k1 (pg_key obj) = Some ?cur" using k1 obj by simp
  from law(4) [OF this patch] have "stored k2 = (stored k1)(pg_key new \<mapsto>
      ?cur\<lparr>Spec := if Spec obj = Spec base then Spec ?cur else Spec obj\<rparr>)" using obj by simp
  moreover have "k' = k2" using assms(3) upd patch by (simp add: update_and_patch_def)
  ultimately show ?thesis using k1 obj(2) by auto
qed

lemma update_and_patch_wf:
  assumes "api_laws stored A" and "store_wf stored k" and "stored k (pg_key new) = Some cur"
    and "wf_group (cur\<lparr>Status := Status new\<rparr>)" and "in_int32 (MinMember (Spec new))"
  shows "store_wf stored (snd (update_and_patch A new base k))"
proof -
  obtain res k' where run: "update_and_patch A new base k = (res, k')" by (cases "update_and_patch A new base k")
  from update_and_patch_stored [OF assms(1,3) run] obtain sp where sp: "sp \<in> {Spec cur, Spec new}"
    and k': "stored k' = (stored k)(pg_key new \<mapsto> cur\<lparr>Status := Status new, Spec := sp\<rparr>)" by blast
  have "wf_group (cur\<lparr>Status := Status new, Spec := sp\<rparr>)" using sp assms(4,5) by (auto simp: wf_group_def)
  moreover have "snd (pg_key new) \<noteq> ''''" using assms(2,3) by (cases "pg_key new") (auto simp: store_wf_def)
  ultimately show ?thesis using assms(2) run k' by (cases "pg_key new") (auto simp: store_wf_def split: if_splits)
qed

lemma Reconcile_wf:
  assumes "api_laws stored A" and "store_wf stored k"
  shows "store_wf stored (snd (Reconcile A now ns n k))"
proof (cases "stored k (ns, n)")
  case None
  with assms(2) api_lawsD(1) [OF assms(1)] show ?thesis by (simp add: Reconcile_def)
next
  case (Some pg)
  have key: "pg_key pg = (ns, n)" by (rule api_lawsD(2) [OF assms(1) Some])
  have wf: "wf_group pg" using assms(2) Some by (auto simp: store_wf_def)
  have get: "api_Get A ns n k = Inr pg" using Some api_lawsD(1) [OF assms(1)] by simp
  have upd: "store_wf stored (snd (update_and_patch A (pg\<lparr>Status := s, Spec := sp\<rparr>) pg k))"
    if "wf_group (pg\<lparr>Status := s\<rparr>)" "in_int32 (MinMember sp)" for s sp
    by (rule update_and_patch_wf [OF assms]) (use Some key that in \<open>simp_all add: pg_key_def\<close>)
  have event: "store_wf stored (api_Event A pg r m k)" for r m
    using assms(2) api_lawsD(6) [OF assms(1)] by (simp add: store_wf_def)
  have time: "store_wf stored (snd (setTimeCreated A pg pods now k))" for pods
    using upd [of "(Status pg)\<lparr>CreationTime := group_time A pods now\<rparr>" "Spec pg"] wf
    by (simp add: setTimeCreated_def wf_group_def)
  have size: "store_wf stored (snd (updatePodGroupSize A pg (wrap32 i) pods k))" for pods i
    using upd [of "Status pg" "(Spec pg)\<lparr>MinMember := group_size pods (wrap32 i)\<rparr>"] wf group_size_typed
    by (simp add: updatePodGroupSize_def)
  have status: "store_wf stored (snd (updateStatus A pg pods k))" for pods
  proof (cases "finishedOrFailed (Phase (next_status pg pods))")
    case True
    obtain err k' where del: "api_Delete A (pg\<lparr>Status := next_status pg pods\<rparr>) k = (err, k')"
      by (cases "api_Delete A (pg\<lparr>Status := next_status pg pods\<rparr>) k")
    with api_lawsD(5) [OF assms(1) del] True assms(2) show ?thesis
      by (auto simp: updateStatus_def store_wf_def split: if_splits)
  next
    case False
    with upd [OF next_status_wf [OF wf False], of "Spec pg"] wf show ?thesis
      by (simp add: updateStatus_def wf_group_def)
  qed
  show ?thesis
    using assms(2) time size status event
    by (simp add: Reconcile_def get split: sum.split)
qed

lemma ensurePodGroup_wf:
  assumes "api_laws stored A" and "create_law stored A" and "store_wf stored k"
  shows "store_wf stored (snd (ensurePodGroup A now pod k))"
proof -
  have "stored k ('''', '''') = None"
    using assms(3) by (cases "stored k ('''', '''')") (auto simp: store_wf_def)
  note st = ensurePodGroup_stored [OF assms(1,2) this refl surjective_pairing, of now pod]
  show ?thesis
  proof (cases "creates A (stored k) pod")
    case None
    with st assms(3) show ?thesis by (simp add: store_wf_def)
  next
    case (Some m)
    then have "util_PodGroupLabel A pod \<noteq> ''''" "in_int32 m"
      by (auto simp: creates_def dest: ParseInt32_range split: if_splits)
    moreover from st Some obtain pg where pg: "MinMember (Spec pg) = m" "Status pg = zero_PodGroupStatus"
      "stored (snd (ensurePodGroup A now pod k)) = (stored k)((pod_Namespace pod, util_PodGroupLabel A pod) \<mapsto> pg)"
      by auto
    moreover from calculation have "wf_group pg" by (simp add: wf_group_def zero_PodGroupStatus_def in_int32_def)
    ultimately show ?thesis using assms(3) unfolding store_wf_def by auto
  qed
qed

lemma creachable_wf: "creachable stored (\<lambda>A. api_laws stored A \<and> create_law stored A) k \<Longrightarrow> store_wf stored k"
proof (induction rule: creachable.induct)
  case (start k)
  then show ?case by (simp add: store_wf_def)
next
  case (reconcile k A now ns n)
  then show ?case using Reconcile_wf [of stored A k now ns n] by simp
next
  case (event k A now pod)
  then show ?case using ensurePodGroup_wf [of stored A k now pod] by simp
qed

text \<open>A server on which the event of one pod has created a group.\<close>

definition demo_created :: "string \<times> string \<rightharpoonup> PodGroup" where
  "demo_created = snd (ensurePodGroup (store_api []) 9 demo_pod Map.empty)"

lemma demo_created_reachable:
  "creachable store_objects (\<lambda>A. api_laws store_objects A \<and> create_law store_objects A) demo_created"
  unfolding demo_created_def
  by (rule creachable.event, rule creachable.start)
    (simp_all add: store_objects_def fun_eq_iff store_api_laws store_create_law)

lemma demo_created_group:
  "\<exists>pg. store_objects demo_created (''ns'', ''g'') = Some pg \<and> Status pg = zero_PodGroupStatus"
proof -
  have "store_objects Map.empty ('''', '''') = None" by (simp add: store_objects_def)
  note st = ensurePodGroup_stored [where stored = store_objects and k = Map.empty and A = "store_api []" and now = 9 and pod = demo_pod,
      OF store_api_laws store_create_law this refl surjective_pairing]
  have "ParseInt 32 ''3'' = Some 3" by code_simp
  then have "creates (store_api []) (store_objects Map.empty) demo_pod = Some 3"
    "pod_Namespace demo_pod = ''ns''" "util_PodGroupLabel (store_api []) demo_pod = ''g''"
    by (simp_all add: creates_def store_api_def demo_pod_def plain_pod_def store_objects_def GetPodGroupLabel_def
        label_or_empty_def terminating_def)
  with st show ?thesis by (auto simp: demo_created_def)
qed

text \<open>
  C22. The groups on the server are well formed at all times: starting without groups and
  through any sequence of reconciliations and pod events, with the pods of the cluster
  changing freely, every stored group has a name, its minimum and its counts fit 32 bits
  (also when a count wraps around), and its phase is never a final one, since a group that
  ends is deleted instead of being stored.
\<close>

theorem stored_groups_wellformed:
  assumes "creachable stored (\<lambda>A. api_laws stored A \<and> create_law stored A) k" and "stored k (ns, n) = Some pg"
  shows "wf_group pg \<and> n \<noteq> ''''"
  using creachable_wf [OF assms(1)] assms(2) by (simp add: store_wf_def)

theorem stored_groups_wellformed_witness:
  "\<exists>pg. store_objects demo_created (''ns'', ''g'') = Some pg \<and> wf_group pg"
proof -
  from demo_created_group obtain pg where "store_objects demo_created (''ns'', ''g'') = Some pg" by blast
  with stored_groups_wellformed [where stored = store_objects, OF demo_created_reachable this] show ?thesis by blast
qed

end
