(* ===== verification/Controller_Life.thy ===== *)
theory Controller_Life
  imports Controller_Loop
begin

text \<open>
  The life of a stored group under \<open>podgroup_controller.go\<close>: the phases it goes through from its creation by a pod event to
  its deletion, as a state machine that reconciliations and pod events refine, the one field
  of its status that the controller never manages to set, and what happens on a server that has the definition of
  the resource that the repository ships.
\<close>

section \<open>What one call does to the store\<close>

inductive cstep :: "('k \<Rightarrow> string \<times> string \<rightharpoonup> PodGroup) \<Rightarrow> ('k api \<Rightarrow> bool) \<Rightarrow> 'k \<Rightarrow> 'k \<Rightarrow> bool" for stored P where
  reconcile: "P A \<Longrightarrow> cstep stored P k (snd (Reconcile A now ns n k))"
| event: "P A \<Longrightarrow> cstep stored P k (snd (ensurePodGroup A now pod k))"

lemma creachable_cstep: "creachable stored P k \<Longrightarrow> cstep stored P k k' \<Longrightarrow> creachable stored P k'"
  by (auto elim!: cstep.cases intro: creachable.reconcile creachable.event)

text \<open>A reconciliation leaves the group, updates its status and perhaps its specification, or deletes it.\<close>

definition updated :: "PodGroup \<Rightarrow> PodGroupStatus \<Rightarrow> bool" where
  "updated pg s \<longleftrightarrow> (\<exists>t. s = (Status pg)\<lparr>CreationTime := t\<rparr>) \<or> s = Status pg
     \<or> (\<exists>pods. s = next_status pg pods \<and> \<not> finishedOrFailed (Phase s))"

lemma update_and_patch_outcome:
  assumes "api_laws stored A" and "stored k (ns, n) = Some pg" and "updated pg s"
  shows "\<exists>s' sp'. updated pg s' \<and> stored (snd (update_and_patch A (pg\<lparr>Status := s, Spec := sp\<rparr>) base k)) =
    (stored k)((ns, n) \<mapsto> pg\<lparr>Status := s', Spec := sp'\<rparr>)"
proof -
  let ?new = "pg\<lparr>Status := s, Spec := sp\<rparr>"
  obtain res k' where run: "update_and_patch A ?new base k = (res, k')" by (cases "update_and_patch A ?new base k")
  have key: "pg_key ?new = (ns, n)" using api_lawsD(2) [OF assms(1,2)] by (simp add: pg_key_def)
  have "stored k (pg_key ?new) = Some pg" using assms(2) key by simp
  from update_and_patch_stored [OF assms(1) this run] obtain sp' where
    "stored k' = (stored k)(pg_key ?new \<mapsto> pg\<lparr>Status := Status ?new, Spec := sp'\<rparr>)" by blast
  then have "stored (snd (update_and_patch A ?new base k)) = (stored k)((ns, n) \<mapsto> pg\<lparr>Status := s, Spec := sp'\<rparr>)"
    using run unfolding key by simp
  with assms(3) show ?thesis by blast
qed

lemma updateStatus_outcome:
  assumes "api_laws stored A" and "stored k (ns, n) = Some pg"
  shows "finishedOrFailed (Phase (next_status pg pods)) \<and> stored (snd (updateStatus A pg pods k)) = (stored k)((ns, n) := None)
    \<or> (\<exists>s sp. updated pg s \<and> stored (snd (updateStatus A pg pods k)) = (stored k)((ns, n) \<mapsto> pg\<lparr>Status := s, Spec := sp\<rparr>))"
proof (cases "finishedOrFailed (Phase (next_status pg pods))")
  case True
  have key: "pg_key pg = (ns, n)" by (rule api_lawsD(2) [OF assms])
  obtain err k1 where del: "api_Delete A (pg\<lparr>Status := next_status pg pods\<rparr>) k = (err, k1)"
    by (cases "api_Delete A (pg\<lparr>Status := next_status pg pods\<rparr>) k")
  with api_lawsD(5) [OF assms(1) del] True key show ?thesis by (simp add: updateStatus_def pg_key_def)
next
  case False
  with update_and_patch_outcome [OF assms, of "next_status pg pods" "Spec pg" pg] show ?thesis
    by (auto simp: updateStatus_def updated_def [of pg "next_status pg pods"])
qed

lemma Reconcile_outcome:
  assumes "api_laws stored A" and "k' = snd (Reconcile A now ns n k)"
  shows "stored k' = stored k
    \<or> (\<exists>pg pods. stored k (ns, n) = Some pg \<and> \<not> finishedOrFailed (Phase (Status pg))
         \<and> finishedOrFailed (Phase (next_status pg pods)) \<and> stored k' = (stored k)((ns, n) := None))
    \<or> (\<exists>pg s sp. stored k (ns, n) = Some pg \<and> updated pg s \<and> stored k' = (stored k)((ns, n) \<mapsto> pg\<lparr>Status := s, Spec := sp\<rparr>))"
proof (cases "stored k (ns, n)")
  case None
  with assms(2) api_lawsD(1) [OF assms(1)] show ?thesis by (simp add: Reconcile_def)
next
  case (Some pg)
  have get: "api_Get A ns n k = Inr pg" using Some api_lawsD(1) [OF assms(1)] by simp
  note upd = update_and_patch_outcome [OF assms(1) Some]
  have time: "\<exists>s sp. updated pg s \<and> stored (snd (setTimeCreated A pg pods now k)) = (stored k)((ns, n) \<mapsto> pg\<lparr>Status := s, Spec := sp\<rparr>)" for pods
    using upd [of "(Status pg)\<lparr>CreationTime := group_time A pods now\<rparr>" "Spec pg" pg]
    by (auto simp: setTimeCreated_def updated_def [of pg "(Status pg)\<lparr>CreationTime := group_time A pods now\<rparr>"])
  have size: "\<exists>s sp. updated pg s \<and> stored (snd (updatePodGroupSize A pg i pods k)) = (stored k)((ns, n) \<mapsto> pg\<lparr>Status := s, Spec := sp\<rparr>)" for pods i
    using upd [of "Status pg" "(Spec pg)\<lparr>MinMember := group_size pods i\<rparr>" pg]
    by (auto simp: updatePodGroupSize_def updated_def [of pg "Status pg"])
  note status = updateStatus_outcome [OF assms(1) Some]
  have event: "stored (api_Event A pg r m k) = stored k" for r m by (rule api_lawsD(6) [OF assms(1)])
  show ?thesis
  proof (cases "finishedOrFailed (Phase (Status pg)) \<or> schedulingOrPending (Phase (Status pg)) \<and> Running (Status pg) = 0 \<and> twoDaysOld pg
      \<or> isl (api_List A (pg_Name pg) k)")
    case True
    with event show ?thesis unfolding assms(2) by (auto simp: Reconcile_def get isl_def)
  next
    case False
    then obtain pods where "api_List A (pg_Name pg) k = Inr pods" by (cases "api_List A (pg_Name pg) k") auto
    with False have "k' \<in> {snd (setTimeCreated A pg pods now k),
        snd (updatePodGroupSize A pg (wrap32 (int (length pods))) pods k), snd (updateStatus A pg pods k)}"
      unfolding assms(2) by (auto simp: Reconcile_def get)
    with time [of pods] size [of "wrap32 (int (length pods))" pods] status [of pods] Some False show ?thesis by blast
  qed
qed

section \<open>The phases of a group\<close>

text \<open>
  A pod event creates a group without a phase; it is then admitted and, with its pods there, scheduled.
  From there the pods that run, fail or vanish move it, and only from there it ends.
\<close>

inductive phase_step :: "PodGroupPhase option \<Rightarrow> PodGroupPhase option \<Rightarrow> bool" where
  create: "phase_step None (Some PodGroupNoPhase)"
| admit: "phase_step (Some PodGroupNoPhase) (Some PodGroupPending)"
| schedule: "phase_step (Some PodGroupPending) (Some PodGroupScheduling)"
| count: "p \<in> {PodGroupScheduling, PodGroupRunning} \<Longrightarrow> q \<in> {PodGroupPending, PodGroupScheduling, PodGroupRunning} \<Longrightarrow>
    phase_step (Some p) (Some q)"
| finish: "p \<in> {PodGroupScheduling, PodGroupRunning} \<Longrightarrow> phase_step (Some p) None"
| stay: "phase_step x x"

definition phase_at :: "('k \<Rightarrow> string \<times> string \<rightharpoonup> PodGroup) \<Rightarrow> string \<times> string \<Rightarrow> 'k \<Rightarrow> PodGroupPhase option" where
  "phase_at stored key k = map_option (\<lambda>pg. Phase (Status pg)) (stored k key)"

lemma updated_phase:
  assumes "wf_group pg" and "updated pg s"
  shows "phase_step (Some (Phase (Status pg))) (Some (Phase s))"
  using assms(2) unfolding updated_def
proof (elim disjE exE conjE)
  fix pods assume s: "s = next_status pg pods" and "\<not> finishedOrFailed (Phase s)"
  with next_status_transitions [of pg pods] assms(1) show ?thesis
    by (cases "Phase (Status pg)") (auto simp: wf_group_def finishedOrFailed_def intro: phase_step.intros)
qed (auto intro: phase_step.stay)

lemma ended_phase:
  assumes "wf_group pg" and "finishedOrFailed (Phase (next_status pg pods))"
  shows "phase_step (Some (Phase (Status pg))) None"
proof (cases "Phase (Status pg)")
  case PodGroupPending
  with next_status_transitions [of pg pods] assms(2) show ?thesis by (auto simp: finishedOrFailed_def split: if_splits)
qed (use assms next_status_transitions [of pg pods] in \<open>auto simp: wf_group_def finishedOrFailed_def intro: phase_step.finish\<close>)

abbreviation server_laws :: "('k \<Rightarrow> string \<times> string \<rightharpoonup> PodGroup) \<Rightarrow> 'k api \<Rightarrow> bool" where
  "server_laws stored A \<equiv> api_laws stored A \<and> create_law stored A"

lemma event_outcome:
  assumes "server_laws stored A" and "store_wf stored k" and "k' = snd (ensurePodGroup A now pod k)"
  shows "stored k' = stored k
    \<or> (\<exists>key pg. stored k key = None \<and> stored k' = (stored k)(key \<mapsto> pg) \<and> Status pg = zero_PodGroupStatus)"
proof -
  have "stored k ('''', '''') = None" using assms(2) by (cases "stored k ('''', '''')") (auto simp: store_wf_def)
  note st = ensurePodGroup_stored [OF conjunct1 [OF assms(1)] conjunct2 [OF assms(1)] this refl surjective_pairing, of now pod]
  show ?thesis
  proof (cases "creates A (stored k) pod")
    case None
    with st assms(3) show ?thesis by simp
  next
    case (Some m)
    then have "stored k (pod_Namespace pod, util_PodGroupLabel A pod) = None" by (simp add: creates_def split: if_splits)
    with st Some assms(3) show ?thesis by auto
  qed
qed

lemma cstep_phase:
  assumes "store_wf stored k" and "cstep stored (server_laws stored) k k'"
  shows "phase_step (phase_at stored key k) (phase_at stored key k')"
  using assms(2)
proof cases
  case (reconcile A now ns n)
  have wf: "stored k (ns, n) = Some pg \<Longrightarrow> wf_group pg" for pg using assms(1) by (auto simp: store_wf_def)
  from Reconcile_outcome [of stored A, OF conjunct1 [OF reconcile(2)] reconcile(1)] show ?thesis
  proof (elim disjE exE conjE)
    fix pg pods assume "stored k (ns, n) = Some pg" and "finishedOrFailed (Phase (next_status pg pods))"
      and "stored k' = (stored k)((ns, n) := None)"
    with ended_phase [OF wf] show ?thesis by (auto simp: phase_at_def phase_step.stay)
  next
    fix pg s sp assume "stored k (ns, n) = Some pg" and "updated pg s"
      and "stored k' = (stored k)((ns, n) \<mapsto> pg\<lparr>Status := s, Spec := sp\<rparr>)"
    with updated_phase [OF wf] show ?thesis by (auto simp: phase_at_def phase_step.stay)
  qed (simp add: phase_at_def phase_step.stay)
next
  case (event A now pod)
  from event_outcome [OF event(2) assms(1) event(1)] show ?thesis
    by (auto simp: phase_at_def phase_step.stay phase_step.create zero_PodGroupStatus_def)
qed

interpretation life: simulation "creachable stored (server_laws stored)" "cstep stored (server_laws stored)" phase_step "phase_at stored key"
  for stored key
  by unfold_locales (blast intro: creachable_cstep cstep_phase creachable_wf)+

lemma creachable_run:
  "creachable stored P k \<Longrightarrow> \<exists>k0. stored k0 = Map.empty \<and> (cstep stored P)\<^sup>*\<^sup>* k0 k"
  by (induction rule: creachable.induct) (blast intro: cstep.intros rtranclp.rtrancl_into_rtrancl)+

text \<open>
  C9. The controller refines the life of a group. Whatever the cluster does, what the server holds under a
  name is a run of the phase machine from the empty store on, step for step: a group appears without a
  phase, it becomes Pending and then Scheduling before anything else, it falls back to Pending when pods vanish,
  and it is deleted only out of Scheduling or Running.
\<close>

theorem stored_group_lives:
  assumes "creachable stored (\<lambda>A. api_laws stored A \<and> create_law stored A) k"
  shows "phase_step\<^sup>*\<^sup>* None (phase_at stored key k)
    \<and> (\<forall>k'. cstep stored (\<lambda>A. api_laws stored A \<and> create_law stored A) k k' \<longrightarrow>
          phase_step (phase_at stored key k) (phase_at stored key k'))"
proof -
  obtain k0 where k0: "stored k0 = Map.empty" and run: "(cstep stored (server_laws stored))\<^sup>*\<^sup>* k0 k"
    using creachable_run [OF assms] by blast
  have "phase_at stored key k0 = None" by (simp add: phase_at_def k0)
  with life.run [OF run creachable.start [where stored = stored and P = "server_laws stored", OF k0], of key] life.simulates [OF assms]
  show ?thesis by simp
qed

theorem stored_group_lives_witness:
  "phase_at store_objects (''ns'', ''g'') demo_created = Some PodGroupNoPhase
   \<and> phase_step (Some PodGroupNoPhase)
       (phase_at store_objects (''ns'', ''g'') (snd (Reconcile (store_api (pods_in [PodRunning])) 12 ''ns'' ''g'' demo_created)))"
proof -
  have "phase_at store_objects (''ns'', ''g'') demo_created = Some PodGroupNoPhase"
    using demo_created_group by (auto simp: phase_at_def zero_PodGroupStatus_def)
  moreover from this stored_group_lives [where stored = store_objects, OF demo_created_reachable, of "(''ns'', ''g'')"]
  have "phase_step (Some PodGroupNoPhase)
      (phase_at store_objects (''ns'', ''g'') (snd (Reconcile (store_api (pods_in [PodRunning])) 12 ''ns'' ''g'' demo_created)))"
    using cstep.reconcile [where stored = store_objects] store_api_laws store_create_law by auto
  ultimately show ?thesis by blast
qed

section \<open>The schedule start time never sticks\<close>

text \<open>
  \<open>newPodGroup\<close> sends a schedule start time in the status, which the server drops on creation, since the status is
  a subresource; no later call sets it.
\<close>

lemma next_status_start_time: "ScheduleStartTime (next_status pg pods) = ScheduleStartTime (Status pg)"
  by (cases "getCurrentPodStats pods") (simp add: next_status_def Let_def split: PodGroupPhase.split)

lemma updated_start_time: "updated pg s \<Longrightarrow> ScheduleStartTime s = ScheduleStartTime (Status pg)"
  by (auto simp: updated_def next_status_start_time)

lemma start_time_zero:
  assumes "creachable stored (server_laws stored) k"
  shows "\<forall>key pg. stored k key = Some pg \<longrightarrow> ScheduleStartTime (Status pg) = 0"
  using assms
proof induction
  case (start k)
  then show ?case by simp
next
  case (reconcile k A now ns n)
  from Reconcile_outcome [OF conjunct1 [OF reconcile(2)] refl, of now ns n k] reconcile.IH show ?case
    by (auto simp: updated_start_time split: if_splits)
next
  case (event k A now pod)
  from event_outcome [OF event(2) creachable_wf [OF event(1)] refl, of now pod] event.IH show ?case
    by (auto simp: zero_PodGroupStatus_def split: if_splits)
qed

section \<open>With the custom resource of the repository\<close>

text \<open>
  The definition of the custom resource in \<open>manifests/install\<close> has no creation time in its schema, so the
  server keeps the \<open>crd_status\<close> of a status. The first round of a group then never succeeds in recording
  its time, and every round is a first round.
\<close>

abbreviation crd_server :: "('k \<Rightarrow> string \<times> string \<rightharpoonup> PodGroup) \<Rightarrow> 'k api \<Rightarrow> bool" where
  "crd_server stored A \<equiv> kept_laws crd_status stored A \<and> create_law stored A"

definition untouched :: "('k \<Rightarrow> string \<times> string \<rightharpoonup> PodGroup) \<Rightarrow> 'k \<Rightarrow> bool" where
  "untouched stored k \<longleftrightarrow> (\<forall>ns n pg. stored k (ns, n) = Some pg \<longrightarrow> Status pg = zero_PodGroupStatus \<and> n \<noteq> '''')"

lemma crd_round:
  assumes "kept_laws crd_status stored A" and "untouched stored k"
  shows "stored (snd (Reconcile A now ns n k)) = stored k
    \<and> (stored k (ns, n) \<noteq> None \<longrightarrow> Requeue (fst (fst (Reconcile A now ns n k))) \<or> isl (snd (fst (Reconcile A now ns n k))))"
proof (cases "stored k (ns, n)")
  case None
  with kept_lawsD(1) [OF assms(1)] show ?thesis by (simp add: Reconcile_def)
next
  case (Some pg)
  then have zero: "Status pg = zero_PodGroupStatus" using assms(2) by (simp add: untouched_def)
  show ?thesis
  proof (cases "api_List A n k")
    case (Inl err)
    have "pg_Name pg = n" using kept_lawsD(2) [OF assms(1) Some] by (simp add: pg_key_def)
    with Inl Some zero kept_lawsD(1) [OF assms(1)] show ?thesis
      by (simp add: Reconcile_def finishedOrFailed_def schedulingOrPending_def zero_PodGroupStatus_def)
  next
    case (Inr pods)
    have "crd_status (zero_PodGroupStatus\<lparr>CreationTime := s\<rparr>) = Status pg" for s
      by (simp add: crd_status_def zero zero_PodGroupStatus_def)
    with Reconcile_first_kept [OF assms(1) Some zero Inr] Some show ?thesis by (auto simp: fun_upd_idem)
  qed
qed

lemma crd_event:
  assumes "crd_server stored A" and "untouched stored k"
  shows "untouched stored (snd (ensurePodGroup A now pod k))"
proof -
  have "stored k ('''', '''') = None" using assms(2) by (cases "stored k ('''', '''')") (auto simp: untouched_def)
  note st = ensurePodGroup_stored [OF conjunct1 [OF assms(1)] conjunct2 [OF assms(1)] this refl surjective_pairing, of now pod]
  then show ?thesis
    using assms(2) by (auto simp: untouched_def creates_def split: option.splits if_splits)
qed

lemma crd_untouched: "creachable stored (crd_server stored) k \<Longrightarrow> untouched stored k"
proof (induction rule: creachable.induct)
  case (start k)
  then show ?case by (simp add: untouched_def)
next
  case (reconcile k A now ns n)
  then show ?case using crd_round [of stored A k now ns n] by (simp add: untouched_def)
next
  case (event k A now pod)
  then show ?case using crd_event [of stored A k now pod] by simp
qed

lemma crd_loop:
  assumes "kept_laws crd_status stored A" and "untouched stored k" and "stored k (ns, n) \<noteq> None"
  shows "requeue_loop A clock ns n i k = None"
proof (rule ccontr)
  let ?P = "\<lambda>B (c :: nat \<Rightarrow> instant) m n' (i :: nat) k k'. \<not> (B = A \<and> m = ns \<and> n' = n \<and> untouched stored k \<and> stored k (ns, n) \<noteq> None)"
  assume "requeue_loop A clock ns n i k \<noteq> None"
  then obtain k' where run: "requeue_loop A clock ns n i k = Some k'" by blast
  have "?P A clock ns n i k k'"
  proof (rule requeue_loop.raw_induct [where P = ?P, OF _ run])
    fix f B c m n' i k k'
    assume IH: "\<And>B c m n' i k k'. f B c m n' i k = Some k' \<Longrightarrow> ?P B c m n' i k k'"
      and eq: "(if Requeue (fst (fst (Reconcile B (c i) m n' k))) \<or> isl (snd (fst (Reconcile B (c i) m n' k)))
        then f B c m n' (Suc i) (snd (Reconcile B (c i) m n' k))
        else Some (snd (Reconcile B (c i) m n' k))) = Some k'"
    show "?P B c m n' i k k'"
    proof (intro notI, elim conjE)
      assume k: "B = A" "m = ns" "n' = n" "untouched stored k" "stored k (ns, n) \<noteq> None"
      note round = crd_round [OF assms(1) k(4), of "c i" ns n]
      with eq k have "f A c ns n (Suc i) (snd (Reconcile A (c i) ns n k)) = Some k'" by auto
      moreover have "untouched stored (snd (Reconcile A (c i) ns n k))" using round k(4) by (simp add: untouched_def)
      ultimately show False using IH [of A c ns n "Suc i" "snd (Reconcile A (c i) ns n k)" k'] round k(5) by auto
    qed
  qed
  with assms(2,3) show False by blast
qed

text \<open>
  C27. With the custom resource that the repository ships the controller never gets anywhere. In every state the
  server can reach through reconciliations and pod events, every group still has the empty status it was
  created with; a reconciliation, whatever its pods, changes nothing and asks to be called again, so the
  control loop of a group polls forever: no group ever becomes Pending, and none is ever cleaned up.
\<close>

theorem shipped_crd_stalls:
  assumes "creachable stored (\<lambda>A. kept_laws crd_status stored A \<and> create_law stored A) k"
    and "kept_laws crd_status stored A" and "stored k (ns, n) = Some pg"
  shows "Status pg = zero_PodGroupStatus \<and> stored (snd (Reconcile A now ns n k)) = stored k
    \<and> requeue_loop A clock ns n i k = None"
proof -
  have u: "untouched stored k" by (rule crd_untouched [OF assms(1)])
  with assms(3) crd_round [OF assms(2) u] crd_loop [OF assms(2) u] show ?thesis by (auto simp: untouched_def)
qed

definition crd_api :: "Pod list \<Rightarrow> (string \<times> string \<rightharpoonup> PodGroup) api" where
  "crd_api pods = (store_api pods)\<lparr>Status_Update := \<lambda>pg k. (pg\<lparr>Status := crd_status (Status pg)\<rparr>,
     case k (pg_key pg) of None \<Rightarrow> k | Some cur \<Rightarrow> k(pg_key pg \<mapsto> cur\<lparr>Status := crd_status (Status pg)\<rparr>))\<rparr>"

lemma crd_api_laws: "kept_laws crd_status store_objects (crd_api pods)" "create_law store_objects (crd_api pods)"
  unfolding kept_laws_def create_law_def crd_api_def store_api_def
  by (auto simp: store_objects_def pg_key_def fun_eq_iff split: option.splits)

theorem shipped_crd_stalls_witness:
  "requeue_loop (crd_api (pods_in [PodSucceeded, PodSucceeded, PodSucceeded])) int ''ns'' ''g'' 0 demo_created = None"
proof -
  let ?P = "\<lambda>A. kept_laws crd_status store_objects A \<and> create_law store_objects A"
  have "demo_created = snd (ensurePodGroup (crd_api []) 9 demo_pod Map.empty)"
    by (simp add: demo_created_def crd_api_def ensurePodGroup_def newPodGroup_def Let_def store_api_def cong: option.case_cong if_cong)
  moreover have "creachable store_objects ?P (snd (ensurePodGroup (crd_api []) 9 demo_pod Map.empty))"
    by (rule creachable.event, rule creachable.start) (simp_all add: store_objects_def fun_eq_iff crd_api_laws)
  ultimately have "creachable store_objects ?P demo_created" by simp
  moreover obtain pg where "store_objects demo_created (''ns'', ''g'') = Some pg" using demo_created_group by blast
  ultimately show ?thesis
    using shipped_crd_stalls [where stored = store_objects and k = demo_created] crd_api_laws(1) by blast
qed

end
