(* ===== verification/Webhook.thy ===== *)
theory Webhook
  imports Group_Labels
begin

text \<open>
  The mutating admission webhook of
  \<open>apis/scheduling/v1alpha1/podgroup_webhook.go\<close>: it gives every pod, and the pod
  template of every job, stateful set, replica set and deployment, the two labels
  that put the pod into a group of a known size. The workloads share one contract,
  the locale \<open>group_ensurer\<close>, interpreted on each of the four operations.
\<close>

section \<open>The admitted objects\<close>

text \<open>
  A job and the three replicated workloads: name, namespace, own labels, labels of
  the pod template, and the pointer to the number of pods.
\<close>

record Job =
  job_Name :: string
  job_Namespace :: string
  job_Labels :: labels
  job_TemplateLabels :: labels
  Parallelism :: "int32 option"

record Workload =
  wl_Name :: string
  wl_Namespace :: string
  wl_Labels :: labels
  wl_TemplateLabels :: labels
  Replicas :: "int32 option"

type_synonym StatefulSet = Workload
type_synonym ReplicaSet = Workload
type_synonym Deployment = Workload

datatype runtime_Object = ObjJob Job | ObjPod Pod | ObjStatefulSet StatefulSet
  | ObjDeployment Deployment | ObjReplicaSet ReplicaSet | ObjOther

section \<open>The operations\<close>

definition EnsureGroup :: "Pod \<Rightarrow> Pod" where
  "EnsureGroup pod =
     (let labels0 = (case pod_Labels pod of None \<Rightarrow> Map.empty | Some m \<Rightarrow> m);
          labels1 = (case labels0 PodGroupLabel of
                       Some _ \<Rightarrow> labels0
                     | None \<Rightarrow> labels0(PodGroupLabel \<mapsto> ''fluence-group-'' @ pod_Name pod));
          labels2 = (case labels1 PodGroupSizeLabel of
                       Some _ \<Rightarrow> labels1
                     | None \<Rightarrow> labels1(PodGroupSizeLabel \<mapsto> ''1''))
      in pod\<lparr>pod_Labels := Some labels2\<rparr>)"

definition getJobLabel :: "Job \<Rightarrow> string \<Rightarrow> string \<Rightarrow> string" where
  "getJobLabel job labelName defaultLabel =
     (case label (job_Labels job) labelName of
        Some value \<Rightarrow> value
      | None \<Rightarrow>
          (case label (job_TemplateLabels job) labelName of
             Some value \<Rightarrow> value
           | None \<Rightarrow> defaultLabel))"

definition EnsureGroupOnJob :: "Job \<Rightarrow> Job result" where
  "EnsureGroupOnJob job0 =
     (let job1 = job0\<lparr>job_TemplateLabels := make_labels (job_TemplateLabels job0)\<rparr>;
          job2 = job1\<lparr>job_Labels := make_labels (job_Labels job1)\<rparr>;
          defaultName = ''fluence-group-'' @ job_Namespace job2 @ ''-'' @ job_Name job2;
          groupName = getJobLabel job2 PodGroupLabel defaultName
      in bind_result (set_label (job_TemplateLabels job2) PodGroupLabel groupName) (\<lambda>tl.
         let job3 = job2\<lparr>job_TemplateLabels := tl\<rparr>
         in bind_result (deref (Parallelism job3)) (\<lambda>p.
            let jobSize = (if p = 0 then 1 else p);
                labelSize = fmt_d jobSize;
                groupSize = getJobLabel job3 PodGroupSizeLabel labelSize
            in bind_result (set_label (job_TemplateLabels job3) PodGroupSizeLabel groupSize) (\<lambda>tl'.
               Inr (job3\<lparr>job_TemplateLabels := tl'\<rparr>)))))"

definition EnsureGroupStatefulSet :: "StatefulSet \<Rightarrow> StatefulSet result" where
  "EnsureGroupStatefulSet set0 =
     (let set1 = set0\<lparr>wl_Labels := make_labels (wl_Labels set0)\<rparr>;
          defaultName = ''fluence-group-'' @ wl_Namespace set1 @ ''-'' @ wl_Name set1;
          groupName = (case label (wl_Labels set1) PodGroupLabel of Some v \<Rightarrow> v | None \<Rightarrow> defaultName)
      in bind_result (set_label (wl_TemplateLabels set1) PodGroupLabel groupName) (\<lambda>tl.
         let set2 = set1\<lparr>wl_TemplateLabels := tl\<rparr>
         in bind_result (deref (Replicas set2)) (\<lambda>r.
            let size = (if r = 0 then 1 else r);
                labelSize = fmt_d size;
                groupSize = (case label (wl_Labels set2) PodGroupSizeLabel of Some v \<Rightarrow> v | None \<Rightarrow> labelSize)
            in bind_result (set_label (wl_TemplateLabels set2) PodGroupSizeLabel groupSize) (\<lambda>tl'.
               Inr (set2\<lparr>wl_TemplateLabels := tl'\<rparr>)))))"

definition EnsureGroupReplicaSet :: "ReplicaSet \<Rightarrow> ReplicaSet result" where
  "EnsureGroupReplicaSet set0 =
     (let set1 = set0\<lparr>wl_Labels := make_labels (wl_Labels set0)\<rparr>;
          defaultName = ''fluence-group-'' @ wl_Namespace set1 @ ''-'' @ wl_Name set1;
          groupName = (case label (wl_Labels set1) PodGroupLabel of Some v \<Rightarrow> v | None \<Rightarrow> defaultName)
      in bind_result (set_label (wl_TemplateLabels set1) PodGroupLabel groupName) (\<lambda>tl.
         let set2 = set1\<lparr>wl_TemplateLabels := tl\<rparr>
         in bind_result (deref (Replicas set2)) (\<lambda>r.
            let size = (if r = 0 then 1 else r);
                labelSize = fmt_d size;
                groupSize = (case label (wl_Labels set2) PodGroupSizeLabel of Some v \<Rightarrow> v | None \<Rightarrow> labelSize)
            in bind_result (set_label (wl_TemplateLabels set2) PodGroupSizeLabel groupSize) (\<lambda>tl'.
               Inr (set2\<lparr>wl_TemplateLabels := tl'\<rparr>)))))"

definition EnsureGroupDeployment :: "Deployment \<Rightarrow> Deployment result" where
  "EnsureGroupDeployment d0 =
     (let d1 = d0\<lparr>wl_Labels := make_labels (wl_Labels d0)\<rparr>;
          defaultName = ''fluence-group-'' @ wl_Namespace d1 @ ''-'' @ wl_Name d1;
          groupName = (case label (wl_Labels d1) PodGroupLabel of Some v \<Rightarrow> v | None \<Rightarrow> defaultName)
      in bind_result (set_label (wl_TemplateLabels d1) PodGroupLabel groupName) (\<lambda>tl.
         let d2 = d1\<lparr>wl_TemplateLabels := tl\<rparr>
         in bind_result (deref (Replicas d2)) (\<lambda>r.
            let size = (if r = 0 then 1 else r);
                labelSize = fmt_d size;
                groupSize = (case label (wl_Labels d2) PodGroupSizeLabel of Some v \<Rightarrow> v | None \<Rightarrow> labelSize)
            in bind_result (set_label (wl_TemplateLabels d2) PodGroupSizeLabel groupSize) (\<lambda>tl'.
               Inr (d2\<lparr>wl_TemplateLabels := tl'\<rparr>)))))"

text \<open>
  \<open>Default\<close> dispatches on the type of the object; the object it mutates is the result.
\<close>

fun Default :: "runtime_Object \<Rightarrow> runtime_Object result" where
  "Default (ObjJob job) = bind_result (EnsureGroupOnJob job) (\<lambda>j. Inr (ObjJob j))"
| "Default (ObjPod pod) = Inr (ObjPod (EnsureGroup pod))"
| "Default (ObjStatefulSet sset) = bind_result (EnsureGroupStatefulSet sset) (\<lambda>s. Inr (ObjStatefulSet s))"
| "Default (ObjDeployment d) = bind_result (EnsureGroupDeployment d) (\<lambda>x. Inr (ObjDeployment x))"
| "Default (ObjReplicaSet rset) = bind_result (EnsureGroupReplicaSet rset) (\<lambda>s. Inr (ObjReplicaSet s))"
| "Default ObjOther = Inr ObjOther"

text \<open>
  \<open>Handle\<close> tries the decoders one after the other. The decoders of the admission
  library and the JSON encoding of the Kubernetes types are arguments; a response
  carries the status code of an error, or the raw request object and the new one.
\<close>

datatype Response = Errored int go_error | PatchResponseFromRaw string string | Allowed string

record 'r decoders =
  decode_Job :: "'r \<Rightarrow> Job result"
  decode_Pod :: "'r \<Rightarrow> Pod result"
  decode_StatefulSet :: "'r \<Rightarrow> StatefulSet result"
  decode_Deployment :: "'r \<Rightarrow> Deployment result"
  decode_ReplicaSet :: "'r \<Rightarrow> ReplicaSet result"
  json_Marshal :: "runtime_Object \<Rightarrow> string result"
  object_Raw :: "'r \<Rightarrow> string"

definition StatusBadRequest :: int where "StatusBadRequest = 400"
definition StatusInternalServerError :: int where "StatusInternalServerError = 500"

text \<open>
  The part the five branches of \<open>Handle\<close> share: mutate, report an error, encode,
  report an encoding error, answer with the patch. A panic is not an error value: it
  ends the call.
\<close>

definition respond :: "'r decoders \<Rightarrow> 'r \<Rightarrow> runtime_Object result \<Rightarrow> Response result" where
  "respond D req mutated =
     (case mutated of
        Inl (Panic p) \<Rightarrow> Inl (Panic p)
      | Inl (Err e) \<Rightarrow> Inr (Errored StatusBadRequest (Err e))
      | Inr obj \<Rightarrow>
          (case json_Marshal D obj of
             Inl e \<Rightarrow> Inr (Errored StatusInternalServerError e)
           | Inr marshalled \<Rightarrow> Inr (PatchResponseFromRaw (object_Raw D req) marshalled)))"

definition Handle :: "'r decoders \<Rightarrow> 'r \<Rightarrow> Response result" where
  "Handle D req =
     (case decode_Job D req of
        Inr job \<Rightarrow> respond D req (bind_result (EnsureGroupOnJob job) (\<lambda>j. Inr (ObjJob j)))
      | Inl _ \<Rightarrow>
     (case decode_Pod D req of
        Inr pod \<Rightarrow> respond D req (Inr (ObjPod (EnsureGroup pod)))
      | Inl _ \<Rightarrow>
     (case decode_StatefulSet D req of
        Inr sset \<Rightarrow> respond D req (bind_result (EnsureGroupStatefulSet sset) (\<lambda>s. Inr (ObjStatefulSet s)))
      | Inl _ \<Rightarrow>
     (case decode_Deployment D req of
        Inr d \<Rightarrow> respond D req (bind_result (EnsureGroupDeployment d) (\<lambda>x. Inr (ObjDeployment x)))
      | Inl _ \<Rightarrow>
     (case decode_ReplicaSet D req of
        Inr rset \<Rightarrow> respond D req (bind_result (EnsureGroupReplicaSet rset) (\<lambda>s. Inr (ObjReplicaSet s)))
      | Inl _ \<Rightarrow> Inr (Allowed ''Object not known, this webhook does not validate beyond those.''))))))"


section \<open>What the operations compute\<close>

definition label_map :: "labels \<Rightarrow> (string \<rightharpoonup> string)" where
  "label_map m = (case m of None \<Rightarrow> Map.empty | Some f \<Rightarrow> f)"

lemma label_map_simps [simp]: "label_map None = Map.empty" "label_map (Some f) = f"
  by (simp_all add: label_map_def)

lemma label_eq_label_map: "label m k = label_map m k"
  by (simp add: label_map_def split: option.splits)

lemma make_labels_eq: "make_labels m = Some (label_map m)"
  by (simp add: make_labels_def label_map_def split: option.splits)

lemma label_map_make_labels [simp]: "label_map (make_labels m) = label_map m"
  by (simp add: make_labels_eq)

definition grouped :: "string \<Rightarrow> string \<Rightarrow> labels \<Rightarrow> labels" where
  "grouped n s m = Some ((label_map m)(PodGroupLabel \<mapsto> n, PodGroupSizeLabel \<mapsto> s))"

lemma label_grouped [simp]:
  "label (grouped n s m) PodGroupLabel = Some n"
  "label (grouped n s m) PodGroupSizeLabel = Some s"
  "k \<noteq> PodGroupLabel \<Longrightarrow> k \<noteq> PodGroupSizeLabel \<Longrightarrow> label (grouped n s m) k = label m k"
  by (simp_all add: grouped_def label_eq_label_map)

lemma grouped_idem [simp]: "grouped n s (grouped n s m) = grouped n s m"
  by (auto simp: grouped_def fun_eq_iff)

definition size_label :: "int32 \<Rightarrow> string" where
  "size_label n = fmt_d (if n = 0 then 1 else n)"

definition job_group_name :: "Job \<Rightarrow> string" where
  "job_group_name job =
     getJobLabel job PodGroupLabel (''fluence-group-'' @ job_Namespace job @ ''-'' @ job_Name job)"

definition job_group_size :: "Job \<Rightarrow> string" where
  "job_group_size job = getJobLabel job PodGroupSizeLabel (size_label (the (Parallelism job)))"

definition wl_group_name :: "Workload \<Rightarrow> string" where
  "wl_group_name w = (case label (wl_Labels w) PodGroupLabel of Some v \<Rightarrow> v
     | None \<Rightarrow> ''fluence-group-'' @ wl_Namespace w @ ''-'' @ wl_Name w)"

definition wl_group_size :: "Workload \<Rightarrow> string" where
  "wl_group_size w = (case label (wl_Labels w) PodGroupSizeLabel of Some v \<Rightarrow> v
     | None \<Rightarrow> size_label (the (Replicas w)))"

lemma EnsureGroupOnJob_eq:
  "EnsureGroupOnJob job =
     (case Parallelism job of
        None \<Rightarrow> Inl (Panic NilDereference)
      | Some p \<Rightarrow> Inr (job\<lparr>job_Labels := make_labels (job_Labels job),
          job_TemplateLabels := grouped (job_group_name job) (job_group_size job) (job_TemplateLabels job)\<rparr>))"
  by (simp add: EnsureGroupOnJob_def make_labels_eq set_label_def deref_def Let_def grouped_def
      job_group_name_def job_group_size_def getJobLabel_def size_label_def label_eq_label_map
      split: option.splits)

definition ensured_workload :: "Workload \<Rightarrow> Workload result" where
  "ensured_workload w =
     (if wl_TemplateLabels w = None then Inl (Panic NilMapWrite)
      else case Replicas w of
        None \<Rightarrow> Inl (Panic NilDereference)
      | Some r \<Rightarrow> Inr (w\<lparr>wl_Labels := make_labels (wl_Labels w),
          wl_TemplateLabels := grouped (wl_group_name w) (wl_group_size w) (wl_TemplateLabels w)\<rparr>))"

lemmas ensure_workload_simps = make_labels_eq set_label_def deref_def Let_def grouped_def
  wl_group_name_def wl_group_size_def size_label_def label_eq_label_map

lemma EnsureGroupStatefulSet_eq: "EnsureGroupStatefulSet = ensured_workload"
  by (rule ext) (simp add: EnsureGroupStatefulSet_def ensured_workload_def ensure_workload_simps
      split: option.splits)

lemma EnsureGroupReplicaSet_eq: "EnsureGroupReplicaSet = ensured_workload"
  by (rule ext) (simp add: EnsureGroupReplicaSet_def ensured_workload_def ensure_workload_simps
      split: option.splits)

lemma EnsureGroupDeployment_eq: "EnsureGroupDeployment = ensured_workload"
  by (rule ext) (simp add: EnsureGroupDeployment_def ensured_workload_def ensure_workload_simps
      split: option.splits)

lemma EnsureGroup_id:
  "label (pod_Labels pod) PodGroupLabel = Some n \<Longrightarrow> label (pod_Labels pod) PodGroupSizeLabel = Some s
   \<Longrightarrow> EnsureGroup pod = pod"
  by (cases pod) (auto simp: EnsureGroup_def label_def split: option.splits)


section \<open>The contract the workloads share\<close>

text \<open>
  An operation that puts a pod template into a group: on success the template
  carries the group's name and size and is otherwise unchanged, and a second
  admission of the same object changes nothing.
\<close>

locale group_ensurer =
  fixes ensure :: "'o \<Rightarrow> 'o result"
    and tmpl :: "'o \<Rightarrow> labels"
    and group_name :: "'o \<Rightarrow> string"
    and group_size :: "'o \<Rightarrow> string"
  assumes ensure_tmpl: "ensure x = Inr y \<Longrightarrow> tmpl y = grouped (group_name x) (group_size x) (tmpl x)"
    and ensure_fixed: "ensure x = Inr y \<Longrightarrow> ensure y = Inr y"
begin

lemma template_labels:
  assumes "ensure x = Inr y"
  shows "label (tmpl y) PodGroupLabel = Some (group_name x)"
    and "label (tmpl y) PodGroupSizeLabel = Some (group_size x)"
    and "k \<noteq> PodGroupLabel \<Longrightarrow> k \<noteq> PodGroupSizeLabel \<Longrightarrow> label (tmpl y) k = label (tmpl x) k"
  using ensure_tmpl [OF assms] by simp_all

text \<open>A pod made from the template is in the group, and the webhook leaves it alone.\<close>

lemma pod_of_template:
  assumes "ensure x = Inr y" and "pod_Labels p = tmpl y"
  shows "GetPodGroupLabel p = group_name x"
    and "GetPodGroupSize p = group_size x"
    and "EnsureGroup p = p"
  using template_labels [OF assms(1)] assms(2)
  by (auto simp: GetPodGroupLabel_def GetPodGroupSize_def label_or_empty_def intro: EnsureGroup_id)

lemma ensure_iterate: "ensure x = Inr y \<Longrightarrow> ((\<lambda>r. bind_result r ensure) ^^ n) (Inr y) = Inr y"
  by (induction n) (auto dest: ensure_fixed)

end

lemma getJobLabel_ensured:
  assumes "EnsureGroupOnJob x = Inr y"
  shows "job_group_name y = job_group_name x" and "job_group_size y = job_group_size x"
  using assms
  by (auto simp: EnsureGroupOnJob_eq job_group_name_def job_group_size_def getJobLabel_def
      split: option.splits)

interpretation job_ensurer: group_ensurer EnsureGroupOnJob job_TemplateLabels job_group_name job_group_size
proof unfold_locales
  fix x y assume e: "EnsureGroupOnJob x = Inr y"
  show "job_TemplateLabels y = grouped (job_group_name x) (job_group_size x) (job_TemplateLabels x)"
    using e by (auto simp: EnsureGroupOnJob_eq split: option.splits)
  from e getJobLabel_ensured [OF e] show "EnsureGroupOnJob y = Inr y"
    by (auto simp: EnsureGroupOnJob_eq make_labels_eq split: option.splits)
qed

lemma ensured_workload_contract: "group_ensurer ensured_workload wl_TemplateLabels wl_group_name wl_group_size"
proof unfold_locales
  fix x y assume e: "ensured_workload x = Inr y"
  show "wl_TemplateLabels y = grouped (wl_group_name x) (wl_group_size x) (wl_TemplateLabels x)"
    using e by (auto simp: ensured_workload_def split: option.splits if_splits)
  from e have "wl_group_name y = wl_group_name x" and "wl_group_size y = wl_group_size x"
    by (auto simp: ensured_workload_def wl_group_name_def wl_group_size_def split: option.splits if_splits)
  with e show "ensured_workload y = Inr y"
    by (auto simp: ensured_workload_def make_labels_eq grouped_def split: option.splits if_splits)
qed

interpretation stateful_set_ensurer: group_ensurer EnsureGroupStatefulSet wl_TemplateLabels wl_group_name wl_group_size
  unfolding EnsureGroupStatefulSet_eq by (rule ensured_workload_contract)

interpretation replica_set_ensurer: group_ensurer EnsureGroupReplicaSet wl_TemplateLabels wl_group_name wl_group_size
  unfolding EnsureGroupReplicaSet_eq by (rule ensured_workload_contract)

interpretation deployment_ensurer: group_ensurer EnsureGroupDeployment wl_TemplateLabels wl_group_name wl_group_size
  unfolding EnsureGroupDeployment_eq by (rule ensured_workload_contract)


section \<open>Properties\<close>

lemma Default_pod_idempotent: "EnsureGroup (EnsureGroup pod) = EnsureGroup pod"
proof -
  have "\<exists>n s. label (pod_Labels (EnsureGroup pod)) PodGroupLabel = Some n \<and>
          label (pod_Labels (EnsureGroup pod)) PodGroupSizeLabel = Some s"
    by (auto simp: EnsureGroup_def Let_def split: option.splits)
  then show ?thesis using EnsureGroup_id by blast
qed

text \<open>
  C34. The webhook is idempotent on every kind of object it admits: admitting the
  object it produced changes nothing.
\<close>

theorem Default_idempotent: "Default obj = Inr obj' \<Longrightarrow> Default obj' = Inr obj'"
  by (cases obj)
    (auto simp: Default_pod_idempotent dest: job_ensurer.ensure_fixed stateful_set_ensurer.ensure_fixed
      replica_set_ensurer.ensure_fixed deployment_ensurer.ensure_fixed)

definition example_job :: Job where
  "example_job = \<lparr>job_Name = ''pi'', job_Namespace = ''default'', job_Labels = None,
     job_TemplateLabels = None, Parallelism = Some 10\<rparr>"

lemma example_job_ensured:
  "EnsureGroupOnJob example_job = Inr (example_job\<lparr>job_Labels := Some Map.empty,
     job_TemplateLabels := Some [PodGroupLabel \<mapsto> ''fluence-group-default-pi'',
                                 PodGroupSizeLabel \<mapsto> ''10'']\<rparr>)"
proof -
  have "fmt_d 10 = ''10''" by code_simp
  then show ?thesis
    by (simp add: EnsureGroupOnJob_eq example_job_def make_labels_eq grouped_def job_group_name_def
        job_group_size_def getJobLabel_def size_label_def)
qed

theorem Default_idempotent_witness:
  "\<exists>job'. Default (ObjJob example_job) = Inr (ObjJob job') \<and> Default (ObjJob job') = Inr (ObjJob job')"
proof -
  obtain job' where "EnsureGroupOnJob example_job = Inr job'" using example_job_ensured by blast
  then have d: "Default (ObjJob example_job) = Inr (ObjJob job')" by simp
  with Default_idempotent [OF d] show ?thesis by blast
qed

text \<open>
  Labels are added once: a pod instantiated from the template of an admitted
  job carries the job's group name and size, and the pod's own admission leaves it
  unchanged. The labels the template had otherwise are kept.
\<close>

theorem EnsureGroupOnJob_pods_labelled_once:
  assumes "EnsureGroupOnJob job = Inr job'" and "pod_Labels pod = job_TemplateLabels job'"
  shows "GetPodGroupLabel pod = job_group_name job \<and> GetPodGroupSize pod = job_group_size job
    \<and> EnsureGroup pod = pod
    \<and> (\<forall>k. k \<notin> {PodGroupLabel, PodGroupSizeLabel} \<longrightarrow>
          label (pod_Labels pod) k = label (job_TemplateLabels job) k)"
  using job_ensurer.pod_of_template [OF assms] job_ensurer.template_labels(3) [OF assms(1)] assms(2)
  by simp

theorem EnsureGroupOnJob_pods_labelled_once_witness:
  "let pod = plain_pod ''default'' ''pi-0'' (Some [PodGroupLabel \<mapsto> ''fluence-group-default-pi'',
                                                   PodGroupSizeLabel \<mapsto> ''10''])
   in GetPodGroupLabel pod = job_group_name example_job \<and> EnsureGroup pod = pod"
  using EnsureGroupOnJob_pods_labelled_once [OF example_job_ensured,
      of "plain_pod ''default'' ''pi-0'' (Some [PodGroupLabel \<mapsto> ''fluence-group-default-pi'',
                                                   PodGroupSizeLabel \<mapsto> ''10''])"]
  by (simp add: plain_pod_def Let_def)

text \<open>
  The size label round trips: unless the user set one, the label the webhook
  writes parses (base 10, 32 bits, as the controller parses it) to the job's
  parallelism, with 0 counted as 1.
\<close>

theorem EnsureGroupOnJob_size_roundtrip:
  assumes "EnsureGroupOnJob job = Inr job'" and "Parallelism job = Some n" and "in_int32 n"
    and "label (job_Labels job) PodGroupSizeLabel = None"
    and "label (job_TemplateLabels job) PodGroupSizeLabel = None"
  shows "Option.bind (label (job_TemplateLabels job') PodGroupSizeLabel) (ParseInt 32)
           = Some (if n = 0 then 1 else n)"
proof -
  have "label (job_TemplateLabels job') PodGroupSizeLabel = Some (size_label n)"
    using job_ensurer.template_labels(2) [OF assms(1)] assms(2,4,5)
    by (simp add: job_group_size_def getJobLabel_def)
  with assms(3) show ?thesis by (simp add: size_label_def ParseInt32_fmt_d in_int32_def)
qed

theorem EnsureGroupOnJob_size_roundtrip_witness:
  "ParseInt 32 ''10'' = Some 10"
  using EnsureGroupOnJob_size_roundtrip [OF example_job_ensured, of 10]
  by (simp add: example_job_def in_int32_def)

definition decoded :: "'r decoders \<Rightarrow> 'r \<Rightarrow> runtime_Object" where
  "decoded D req =
     (case (decode_Job D req, decode_Pod D req, decode_StatefulSet D req, decode_Deployment D req,
            decode_ReplicaSet D req) of
        (Inr j, _) \<Rightarrow> ObjJob j
      | (Inl _, Inr p, _) \<Rightarrow> ObjPod p
      | (Inl _, Inl _, Inr s, _) \<Rightarrow> ObjStatefulSet s
      | (Inl _, Inl _, Inl _, Inr d, _) \<Rightarrow> ObjDeployment d
      | (Inl _, Inl _, Inl _, Inl _, Inr r) \<Rightarrow> ObjReplicaSet r
      | _ \<Rightarrow> ObjOther)"

text \<open>
  C37. The two entry points agree: \<open>Handle\<close> answers a request with the encoding of
  what \<open>Default\<close> makes of the first object the request decodes to, and lets every
  other request pass unchanged.
\<close>

theorem Handle_eq_Default:
  "Handle D req =
     (if decoded D req = ObjOther
      then Inr (Allowed ''Object not known, this webhook does not validate beyond those.'')
      else respond D req (Default (decoded D req)))"
  by (simp add: Handle_def decoded_def split: sum.splits)

fun has_template_labels :: "runtime_Object \<Rightarrow> bool" where
  "has_template_labels (ObjStatefulSet w) = (wl_TemplateLabels w \<noteq> None)"
| "has_template_labels (ObjDeployment w) = (wl_TemplateLabels w \<noteq> None)"
| "has_template_labels (ObjReplicaSet w) = (wl_TemplateLabels w \<noteq> None)"
| "has_template_labels _ = True"

fun has_pod_count :: "runtime_Object \<Rightarrow> bool" where
  "has_pod_count (ObjJob j) = (Parallelism j \<noteq> None)"
| "has_pod_count (ObjStatefulSet w) = (Replicas w \<noteq> None)"
| "has_pod_count (ObjDeployment w) = (Replicas w \<noteq> None)"
| "has_pod_count (ObjReplicaSet w) = (Replicas w \<noteq> None)"
| "has_pod_count _ = True"

text \<open>
  C38. Admission fails only by a panic, and exactly on a missing number of pods or,
  for a stateful set, replica set or deployment, on a pod template without a labels
  map: the operations of those three make the map of the object, not of the template.
\<close>

theorem Default_failures:
  "Default obj = Inl e \<longleftrightarrow>
     (\<not> has_template_labels obj \<and> e = Panic NilMapWrite) \<or>
     (has_template_labels obj \<and> \<not> has_pod_count obj \<and> e = Panic NilDereference)"
  by (cases obj)
    (auto simp: EnsureGroupOnJob_eq EnsureGroupStatefulSet_eq EnsureGroupReplicaSet_eq
      EnsureGroupDeployment_eq ensured_workload_def split: option.splits)

end
