(* ===== verification/Controller_Server.thy ===== *)
theory Controller_Server
  imports Controller Webhook
begin

text \<open>
  The set-up of the controller process: \<open>Run\<close> and \<open>init\<close> of \<open>cmd/controller/app/server.go\<close>,
  \<open>SetupWithManager\<close> of the PodGroup controller and \<open>NewMutatingWebhook\<close>. The
  controller-runtime library, the reconciler of elastic quotas and the kube configuration
  are not part of the repository: they are the fields of the record \<open>ctrl_runtime\<close>, over
  a manager of type \<open>'m\<close>, a scheme of type \<open>'s\<close>, an API server of type \<open>'k\<close> and admission
  requests of type \<open>'r\<close>.
\<close>

section \<open>The library\<close>

text \<open>A \<open>float32\<close> occurs only as the conversion of an integer.\<close>

datatype float32 = Float32 int

record rest_config =
  QPS :: float32
  Burst :: int

record 's manager_Options =
  opt_Scheme :: 's
  MetricsBindAddress :: string
  HealthProbeBindAddress :: string
  LeaderElection :: bool
  LeaderElectionID :: string
  LeaderElectionNamespace :: string

datatype object_kind = KindPod | KindPodGroup

text \<open>What the builder of a controller is given: sources of events, a mapping of events to requests, a reconciler.\<close>

record 'k ctrl_spec =
  Watches :: "object_kind \<times> (instant \<Rightarrow> Pod \<Rightarrow> 'k \<Rightarrow> (string \<times> string) list \<times> 'k)"
  For_kind :: object_kind
  MaxConcurrentReconciles :: int
  reconciler :: "instant \<Rightarrow> string \<Rightarrow> string \<Rightarrow> 'k handler"

record ('m, 's, 'k, 'r) ctrl_runtime =
  GetConfigOrDie :: "rest_config option"
  NewScheme :: 's
  clientgo_AddToScheme :: "'s \<Rightarrow> unit result \<times> 's"
  api_AddToScheme :: "'s \<Rightarrow> unit result \<times> 's"
  NewManager :: "rest_config \<Rightarrow> 's manager_Options \<Rightarrow> 'm result"
  GetClient :: "'m \<Rightarrow> 'k api"
  GetScheme :: "'m \<Rightarrow> 's"
  builder_Complete :: "'k ctrl_spec \<Rightarrow> 'm \<Rightarrow> unit result \<times> 'm"
  NewDecoder :: "'s \<Rightarrow> 'r decoders"
  Webhook_Register :: "string \<Rightarrow> ('r \<Rightarrow> Response result) \<Rightarrow> 'm \<Rightarrow> 'm"
  ElasticQuota_SetupWithManager :: "int \<Rightarrow> 'm \<Rightarrow> unit result \<times> 'm"
  AddHealthzCheck :: "string \<Rightarrow> 'm \<Rightarrow> unit result \<times> 'm"
  AddReadyzCheck :: "string \<Rightarrow> 'm \<Rightarrow> unit result \<times> 'm"
  mgr_Start :: "'m \<Rightarrow> unit result"

section \<open>The set-up\<close>

text \<open>\<open>init\<close>: \<open>utilruntime.Must\<close> panics on an error.\<close>

definition Must :: "unit result \<times> 's \<Rightarrow> 's result" where
  "Must x = (case fst x of Inl _ \<Rightarrow> Inl (Panic PanicCalled) | Inr _ \<Rightarrow> Inr (snd x))"

definition server_init :: "('m, 's, 'k, 'r) ctrl_runtime \<Rightarrow> 's result" where
  "server_init C = bind_result (Must (clientgo_AddToScheme C (NewScheme C))) (\<lambda>scheme. Must (api_AddToScheme C scheme))"

text \<open>The logger, the recorder and the scheme of the reconciler have no effect on what it stores and are left out.\<close>

record 'k PodGroupReconciler =
  Client :: "'k api"
  Workers :: int

definition SetupWithManager ::
    "('m, 's, 'k, 'r) ctrl_runtime \<Rightarrow> 'k PodGroupReconciler \<Rightarrow> 'm \<Rightarrow> unit result \<times> 'm" where
  "SetupWithManager C r mgr = builder_Complete C
     \<lparr>Watches = (KindPod, ensurePodGroup (Client r)), For_kind = KindPodGroup,
      MaxConcurrentReconciles = Workers r, reconciler = Reconcile (Client r)\<rparr> mgr"

record 'r fluenceWatcher =
  hook_decoder :: "'r decoders"

definition NewMutatingWebhook :: "('m, 's, 'k, 'r) ctrl_runtime \<Rightarrow> 'm \<Rightarrow> 'r fluenceWatcher" where
  "NewMutatingWebhook C mgr = \<lparr>hook_decoder = NewDecoder C (GetScheme C mgr)\<rparr>"

text \<open>The fields of \<open>ServerRunOptions\<close> that \<open>Run\<close> reads.\<close>

record ServerRunOptions =
  ApiServerQPS :: int
  ApiServerBurst :: int
  MetricsAddr :: string
  ProbeAddr :: string
  EnableLeaderElection :: bool
  run_Workers :: int

text \<open>The process dies without a configuration; otherwise \<open>Run\<close> fails before the manager is started, or starts it.\<close>

datatype 'm run_outcome = Died | Refused go_error | Ran 'm "unit result"

definition or_refuse :: "unit result \<times> 'm \<Rightarrow> ('m \<Rightarrow> 'm run_outcome) \<Rightarrow> 'm run_outcome" where
  "or_refuse x k = (case x of (Inl err, _) \<Rightarrow> Refused err | (Inr _, mgr) \<Rightarrow> k mgr)"

definition Run :: "('m, 's, 'k, 'r) ctrl_runtime \<Rightarrow> 's \<Rightarrow> ServerRunOptions \<Rightarrow> 'm run_outcome" where
  "Run C scheme s =
     (case GetConfigOrDie C of
        None \<Rightarrow> Died
      | Some config0 \<Rightarrow>
          let config = config0\<lparr>QPS := Float32 (ApiServerQPS s), Burst := ApiServerBurst s\<rparr> in
          (case GetConfigOrDie C of
             None \<Rightarrow> Died
           | Some config' \<Rightarrow>
               (case NewManager C config'
                       \<lparr>opt_Scheme = scheme, MetricsBindAddress = MetricsAddr s, HealthProbeBindAddress = ProbeAddr s,
                        LeaderElection = EnableLeaderElection s, LeaderElectionID = ''sched-plugins-controllers'',
                        LeaderElectionNamespace = ''kube-system''\<rparr> of
                  Inl err \<Rightarrow> Refused err
                | Inr mgr \<Rightarrow>
                    or_refuse (SetupWithManager C \<lparr>Client = GetClient C mgr, Workers = run_Workers s\<rparr> mgr) (\<lambda>mgr.
                    let mgr = Webhook_Register C ''/mutate-v1-fluence'' (Handle (hook_decoder (NewMutatingWebhook C mgr))) mgr in
                    or_refuse (ElasticQuota_SetupWithManager C (run_Workers s) mgr) (\<lambda>mgr.
                    or_refuse (AddHealthzCheck C ''healthz'' mgr) (\<lambda>mgr.
                    or_refuse (AddReadyzCheck C ''readyz'' mgr) (\<lambda>mgr.
                    Ran mgr (mgr_Start C mgr))))))))"

section \<open>What runs\<close>

text \<open>
  What a manager has been given, and what the library documents: a new manager has the
  configuration and the options it was made with and nothing else, and each call that
  returns no error adds what it is given and keeps the rest.
\<close>

record ('s, 'k, 'r) wiring =
  w_config :: rest_config
  w_options :: "'s manager_Options"
  w_controllers :: "'k ctrl_spec list"
  w_webhooks :: "string \<rightharpoonup> ('r \<Rightarrow> Response result)"
  w_quota :: "int option"
  w_healthz :: "string set"
  w_readyz :: "string set"

definition manager_laws :: "('m \<Rightarrow> ('s, 'k, 'r) wiring) \<Rightarrow> ('m, 's, 'k, 'r) ctrl_runtime \<Rightarrow> bool" where
  "manager_laws W C \<longleftrightarrow>
     (\<forall>config options m. NewManager C config options = Inr m \<longrightarrow>
        W m = \<lparr>w_config = config, w_options = options, w_controllers = [], w_webhooks = Map.empty,
               w_quota = None, w_healthz = {}, w_readyz = {}\<rparr>)
     \<and> (\<forall>m. GetScheme C m = opt_Scheme (w_options (W m)))
     \<and> (\<forall>spec m m'. builder_Complete C spec m = (Inr (), m') \<longrightarrow> W m' = (W m)\<lparr>w_controllers := w_controllers (W m) @ [spec]\<rparr>)
     \<and> (\<forall>path h m. W (Webhook_Register C path h m) = (W m)\<lparr>w_webhooks := (w_webhooks (W m))(path \<mapsto> h)\<rparr>)
     \<and> (\<forall>n m m'. ElasticQuota_SetupWithManager C n m = (Inr (), m') \<longrightarrow> W m' = (W m)\<lparr>w_quota := Some n\<rparr>)
     \<and> (\<forall>name m m'. AddHealthzCheck C name m = (Inr (), m') \<longrightarrow> W m' = (W m)\<lparr>w_healthz := insert name (w_healthz (W m))\<rparr>)
     \<and> (\<forall>name m m'. AddReadyzCheck C name m = (Inr (), m') \<longrightarrow> W m' = (W m)\<lparr>w_readyz := insert name (w_readyz (W m))\<rparr>)"

lemma manager_lawsD:
  assumes "manager_laws W C"
  shows "NewManager C config options = Inr m \<Longrightarrow>
      W m = \<lparr>w_config = config, w_options = options, w_controllers = [], w_webhooks = Map.empty,
             w_quota = None, w_healthz = {}, w_readyz = {}\<rparr>"
    and "GetScheme C m = opt_Scheme (w_options (W m))"
    and "builder_Complete C spec m = (Inr (), m') \<Longrightarrow> W m' = (W m)\<lparr>w_controllers := w_controllers (W m) @ [spec]\<rparr>"
    and "W (Webhook_Register C path h m) = (W m)\<lparr>w_webhooks := (w_webhooks (W m))(path \<mapsto> h)\<rparr>"
    and "ElasticQuota_SetupWithManager C n m = (Inr (), m') \<Longrightarrow> W m' = (W m)\<lparr>w_quota := Some n\<rparr>"
    and "AddHealthzCheck C name m = (Inr (), m') \<Longrightarrow> W m' = (W m)\<lparr>w_healthz := insert name (w_healthz (W m))\<rparr>"
    and "AddReadyzCheck C name m = (Inr (), m') \<Longrightarrow> W m' = (W m)\<lparr>w_readyz := insert name (w_readyz (W m))\<rparr>"
  using assms by (simp_all add: manager_laws_def)

lemma or_refuse_Ran: "or_refuse x k = Ran m r \<longleftrightarrow> (\<exists>mgr. x = (Inr (), mgr) \<and> k mgr = Ran m r)"
  by (cases x; cases "fst x") (auto simp: or_refuse_def)

text \<open>The stages of a run that starts the manager, in their order.\<close>

lemma Run_stages:
  assumes "Run C scheme s = Ran m r"
  obtains config m0 m1 m2 m3 where "GetConfigOrDie C = Some config"
    and "NewManager C config
       \<lparr>opt_Scheme = scheme, MetricsBindAddress = MetricsAddr s, HealthProbeBindAddress = ProbeAddr s,
        LeaderElection = EnableLeaderElection s, LeaderElectionID = ''sched-plugins-controllers'',
        LeaderElectionNamespace = ''kube-system''\<rparr> = Inr m0"
    and "SetupWithManager C \<lparr>Client = GetClient C m0, Workers = run_Workers s\<rparr> m0 = (Inr (), m1)"
    and "ElasticQuota_SetupWithManager C (run_Workers s)
       (Webhook_Register C ''/mutate-v1-fluence'' (Handle (NewDecoder C (GetScheme C m1))) m1) = (Inr (), m2)"
    and "AddHealthzCheck C ''healthz'' m2 = (Inr (), m3)" and "AddReadyzCheck C ''readyz'' m3 = (Inr (), m)"
    and "r = mgr_Start C m"
  using assms
  by (auto simp: Run_def Let_def NewMutatingWebhook_def or_refuse_Ran split: option.splits sum.splits)

text \<open>
  C28. What the controller process runs. When the manager is started, it has exactly one
  controller of its own, which maps pod events through \<open>ensurePodGroup\<close> and reconciles
  groups with \<open>Reconcile\<close>, both on the manager's client, with the configured number of
  workers; the webhook \<open>Handle\<close> is served under the path of the webhook configuration, the
  quota controller is set up, and both checks are there. The manager has the addresses
  and the leader election of the options, but the configuration of the environment: the
  rate limits of the options never reach it.
\<close>

theorem Run_wires_controller_and_webhook:
  assumes "manager_laws W C" and "Run C scheme s = Ran m r"
  shows "\<exists>config A. GetConfigOrDie C = Some config \<and> r = mgr_Start C m
    \<and> W m = \<lparr>w_config = config,
         w_options = \<lparr>opt_Scheme = scheme, MetricsBindAddress = MetricsAddr s, HealthProbeBindAddress = ProbeAddr s,
           LeaderElection = EnableLeaderElection s, LeaderElectionID = ''sched-plugins-controllers'',
           LeaderElectionNamespace = ''kube-system''\<rparr>,
         w_controllers = [\<lparr>Watches = (KindPod, ensurePodGroup A), For_kind = KindPodGroup,
           MaxConcurrentReconciles = run_Workers s, reconciler = Reconcile A\<rparr>],
         w_webhooks = [''/mutate-v1-fluence'' \<mapsto> Handle (NewDecoder C scheme)],
         w_quota = Some (run_Workers s), w_healthz = {''healthz''}, w_readyz = {''readyz''}\<rparr>
    \<and> (\<forall>qps burst. Run C scheme (s\<lparr>ApiServerQPS := qps, ApiServerBurst := burst\<rparr>) = Run C scheme s)"
proof -
  note law = manager_lawsD [OF assms(1)]
  from assms(2) obtain config m0 m1 m2 m3 where st: "GetConfigOrDie C = Some config"
    "NewManager C config
       \<lparr>opt_Scheme = scheme, MetricsBindAddress = MetricsAddr s, HealthProbeBindAddress = ProbeAddr s,
        LeaderElection = EnableLeaderElection s, LeaderElectionID = ''sched-plugins-controllers'',
        LeaderElectionNamespace = ''kube-system''\<rparr> = Inr m0"
    "SetupWithManager C \<lparr>Client = GetClient C m0, Workers = run_Workers s\<rparr> m0 = (Inr (), m1)"
    "ElasticQuota_SetupWithManager C (run_Workers s)
       (Webhook_Register C ''/mutate-v1-fluence'' (Handle (NewDecoder C (GetScheme C m1))) m1) = (Inr (), m2)"
    "AddHealthzCheck C ''healthz'' m2 = (Inr (), m3)" "AddReadyzCheck C ''readyz'' m3 = (Inr (), m)" "r = mgr_Start C m"
    by (rule Run_stages)
  note w0 = law(1) [OF st(2)] and w1 = law(3) [OF st(3) [unfolded SetupWithManager_def]]
  have "W m = (W m1)\<lparr>w_webhooks := (w_webhooks (W m1))(''/mutate-v1-fluence'' \<mapsto> Handle (NewDecoder C (GetScheme C m1))),
      w_quota := Some (run_Workers s), w_healthz := insert ''healthz'' (w_healthz (W m1)),
      w_readyz := insert ''readyz'' (w_readyz (W m1))\<rparr>"
    using law(7) [OF st(6)] law(6) [OF st(5)] law(5) [OF st(4)] law(4) by simp
  moreover have "Run C scheme (s\<lparr>ApiServerQPS := qps, ApiServerBurst := burst\<rparr>) = Run C scheme s" for qps burst
    by (cases "GetConfigOrDie C") (simp_all add: Run_def split: sum.split)
  ultimately show ?thesis
    using st(1,7) w0 w1 law(2) [of m1] by (intro exI [of _ config] exI [of _ "GetClient C m0"]) simp
qed

text \<open>A manager that is no more than what it was given.\<close>

definition plain_decoders :: "string decoders" where
  "plain_decoders = \<lparr>decode_Job = (\<lambda>_. Inl (Err ''no job'')), decode_Pod = (\<lambda>_. Inl (Err ''no pod'')),
     decode_StatefulSet = (\<lambda>_. Inl (Err ''no set'')), decode_Deployment = (\<lambda>_. Inl (Err ''no deployment'')),
     decode_ReplicaSet = (\<lambda>_. Inl (Err ''no set'')), json_Marshal = (\<lambda>_. Inr ''{}''), object_Raw = (\<lambda>r. r)\<rparr>"

definition plain_runtime ::
    "((string list, string \<times> string \<rightharpoonup> PodGroup, string) wiring, string list, string \<times> string \<rightharpoonup> PodGroup, string) ctrl_runtime" where
  "plain_runtime = \<lparr>GetConfigOrDie = Some \<lparr>QPS = Float32 20, Burst = 30\<rparr>, NewScheme = [],
     clientgo_AddToScheme = (\<lambda>s. (Inr (), s @ [''core''])), api_AddToScheme = (\<lambda>s. (Inr (), s @ [''scheduling''])),
     NewManager = (\<lambda>config options. Inr \<lparr>w_config = config, w_options = options, w_controllers = [], w_webhooks = Map.empty,
        w_quota = None, w_healthz = {}, w_readyz = {}\<rparr>),
     GetClient = (\<lambda>_. store_api []), GetScheme = (\<lambda>m. opt_Scheme (w_options m)),
     builder_Complete = (\<lambda>spec m. (Inr (), m\<lparr>w_controllers := w_controllers m @ [spec]\<rparr>)),
     NewDecoder = (\<lambda>_. plain_decoders),
     Webhook_Register = (\<lambda>path h m. m\<lparr>w_webhooks := (w_webhooks m)(path \<mapsto> h)\<rparr>),
     ElasticQuota_SetupWithManager = (\<lambda>n m. (Inr (), m\<lparr>w_quota := Some n\<rparr>)),
     AddHealthzCheck = (\<lambda>name m. (Inr (), m\<lparr>w_healthz := insert name (w_healthz m)\<rparr>)),
     AddReadyzCheck = (\<lambda>name m. (Inr (), m\<lparr>w_readyz := insert name (w_readyz m)\<rparr>)),
     mgr_Start = (\<lambda>_. Inr ())\<rparr>"

lemma plain_runtime_laws: "manager_laws (\<lambda>m. m) plain_runtime"
  by (simp add: manager_laws_def plain_runtime_def)

theorem Run_wires_controller_and_webhook_witness:
  "\<exists>m scheme. server_init plain_runtime = Inr scheme
     \<and> Run plain_runtime scheme \<lparr>ApiServerQPS = 5, ApiServerBurst = 10, MetricsAddr = '':8080'', ProbeAddr = '':8081'',
         EnableLeaderElection = True, run_Workers = 1\<rparr> = Ran m (Inr ())
     \<and> w_config m = \<lparr>QPS = Float32 20, Burst = 30\<rparr> \<and> length (w_controllers m) = 1 \<and> dom (w_webhooks m) = {''/mutate-v1-fluence''}"
proof -
  let ?s = "\<lparr>ApiServerQPS = 5, ApiServerBurst = 10, MetricsAddr = '':8080'', ProbeAddr = '':8081'',
         EnableLeaderElection = True, run_Workers = 1\<rparr>"
  have scheme: "server_init plain_runtime = Inr [''core'', ''scheduling'']"
    by (simp add: server_init_def Must_def plain_runtime_def)
  obtain m where m: "Run plain_runtime [''core'', ''scheduling''] ?s = Ran m (Inr ())"
    by (simp add: Run_def plain_runtime_def or_refuse_def SetupWithManager_def Let_def)
  obtain config where "GetConfigOrDie plain_runtime = Some config" "w_config m = config" "length (w_controllers m) = 1"
    "dom (w_webhooks m) = {''/mutate-v1-fluence''}"
    using Run_wires_controller_and_webhook [OF plain_runtime_laws m] by auto
  with scheme m show ?thesis by (auto simp: plain_runtime_def)
qed

end
