(* ===== verification/Allocation.thy ===== *)
theory Allocation
  imports JGF
begin

text \<open>
  \<open>ParseAllocResult\<close> of \<open>src/fluence/utils/utils.go\<close>: the nodes of the allocation that
  Fluxion returns as a JSON graph. The vertices of a node's cores come before the
  vertex of the node, so cores are counted until the next node vertex. Every type
  assertion of the code that fails is a panic.
\<close>

section \<open>The operation\<close>

record allocation =
  alloc_Type :: string
  alloc_Basename :: string
  CoreCount :: int64

text \<open>Type assertions on a value of dynamic type; an absent member is a nil interface.\<close>

definition assert_obj :: "json option \<Rightarrow> (string \<times> json) list result" where
  "assert_obj v = (case v of Some (JObj ms) \<Rightarrow> Inr ms | _ \<Rightarrow> Inl (Panic BadTypeAssertion))"

definition assert_arr :: "json option \<Rightarrow> json list result" where
  "assert_arr v = (case v of Some (JArr vs) \<Rightarrow> Inr vs | _ \<Rightarrow> Inl (Panic BadTypeAssertion))"

definition assert_str :: "json option \<Rightarrow> string result" where
  "assert_str v = (case v of Some (JStr s) \<Rightarrow> Inr s | _ \<Rightarrow> Inl (Panic BadTypeAssertion))"

text \<open>The body of the loop; the state is the result so far and the running core count.\<close>

definition parse_vertex :: "json \<Rightarrow> allocation list \<times> int64 \<Rightarrow> (allocation list \<times> int64) result" where
  "parse_vertex item acc =
     (case acc of (result, corecount) \<Rightarrow>
        bind_result (assert_obj (Some item)) (\<lambda>str1.
        bind_result (assert_obj (obj_get str1 ''metadata'')) (\<lambda>metadata.
        bind_result (assert_str (obj_get metadata ''type'')) (\<lambda>ty.
          let corecount = (if ty = CoreType then wrap64 (corecount + 1) else corecount) in
          if ty = NodeType then
            bind_result (assert_str (obj_get metadata ''basename'')) (\<lambda>basename.
              Inr (result @ [\<lparr>alloc_Type = ty, alloc_Basename = basename, CoreCount = corecount\<rparr>], 0))
          else Inr (result, corecount)))))"

text \<open>\<open>json.Unmarshal\<close> into a map: an object fills it, null leaves it nil, the rest is an error.\<close>

definition unmarshal_map :: "string \<Rightarrow> (string \<times> json) list option" where
  "unmarshal_map s =
     (case json_parse s of Some (JObj ms) \<Rightarrow> Some ms | Some JNull \<Rightarrow> Some [] | _ \<Rightarrow> None)"

definition ParseAllocResult :: "string \<Rightarrow> allocation list result" where
  "ParseAllocResult allocated =
     (case unmarshal_map allocated of
        None \<Rightarrow> Inl (Panic PanicCalled)
      | Some dat \<Rightarrow>
          bind_result (assert_obj (obj_get dat ''graph'')) (\<lambda>str1.
          bind_result (assert_arr (obj_get str1 ''nodes'')) (\<lambda>str2.
          bind_result (fold_result parse_vertex str2 ([], 0)) (\<lambda>(result, corecount).
            Inr result))))"

section \<open>The reference definition\<close>

text \<open>
  The allocation of a list of vertices, each a type and a basename: per node vertex
  its name and the number of core vertices since the node vertex before it.
\<close>

fun alloc_spec :: "(string \<times> string) list \<Rightarrow> nat \<Rightarrow> allocation list" where
  "alloc_spec [] cores = []"
| "alloc_spec ((ty, basename) # vs) cores =
     (if ty = NodeType
      then \<lparr>alloc_Type = NodeType, alloc_Basename = basename, CoreCount = wrap64 (int cores)\<rparr> # alloc_spec vs 0
      else alloc_spec vs (if ty = CoreType then Suc cores else cores))"

text \<open>The vertices of the JSON value, for a value of the right shape.\<close>

definition vertex_json :: "json \<Rightarrow> string \<Rightarrow> string \<Rightarrow> bool" where
  "vertex_json item ty basename \<longleftrightarrow>
     (\<exists>ms md. item = JObj ms \<and> obj_get ms ''metadata'' = Some (JObj md)
        \<and> obj_get md ''type'' = Some (JStr ty) \<and> obj_get md ''basename'' = Some (JStr basename))"

lemma core_not_node [simp]: "CoreType \<noteq> NodeType" "NodeType \<noteq> CoreType"
  by (simp_all add: vertex_types)

lemma parse_vertex_eq:
  assumes "vertex_json item ty basename"
  shows "parse_vertex item (result, cc) =
    (if ty = NodeType
     then Inr (result @ [\<lparr>alloc_Type = ty, alloc_Basename = basename, CoreCount = cc\<rparr>], 0)
     else Inr (result, if ty = CoreType then wrap64 (cc + 1) else cc))"
  using assms
  by (auto simp: vertex_json_def parse_vertex_def assert_obj_def assert_str_def Let_def
      simp del: bind_result_Inr_iff)

lemma fold_parse_vertex:
  "list_all2 (\<lambda>item (ty, b). vertex_json item ty b) items vs \<Longrightarrow>
   \<exists>rest. fold_result parse_vertex items (result, wrap64 (int cores))
     = Inr (result @ alloc_spec vs cores, rest)"
proof (induction items vs arbitrary: result cores rule: list_all2_induct)
  case Nil
  then show ?case by simp
next
  case (Cons item items v vs)
  obtain ty b where v: "v = (ty, b)" by (cases v)
  have vj: "vertex_json item ty b" using Cons.hyps(1) v by simp
  have next_core: "wrap64 (wrap64 (int cores) + 1) = wrap64 (int (Suc cores))"
    using wrap64_add_wrap [of "int cores" 1] by (simp add: add.commute)
  show ?case
    using Cons.IH [of "result @ [\<lparr>alloc_Type = ty, alloc_Basename = b, CoreCount = wrap64 (int cores)\<rparr>]" 0]
      Cons.IH [of result cores] Cons.IH [of result "Suc cores"]
    by (auto simp: parse_vertex_eq [OF vj] v next_core simp del: of_nat_Suc)
qed

section \<open>Properties\<close>

lemma vertex_json_Node: "vertex_json (Node_json n) (md_Type (Metadata n)) (Basename (Metadata n))"
  by (simp add: vertex_json_def Node_json_def nodeMetadata_json_def obj_get_def omitempty_def)

definition vertices :: "FluxJGF \<Rightarrow> (string \<times> string) list" where
  "vertices g = map (\<lambda>n. (md_Type (Metadata n), Basename (Metadata n))) (Nodes (Graph g))"

lemma vertices_json:
  "list_all2 (\<lambda>item (ty, b). vertex_json item ty b) (map Node_json (Nodes (Graph g))) (vertices g)"
  by (simp add: vertices_def list_all2_conv_all_nth vertex_json_Node)

text \<open>An allocation of the right shape, with its vertices.\<close>

definition allocation_json :: "string \<Rightarrow> (string \<times> string) list \<Rightarrow> bool" where
  "allocation_json allocated vs \<longleftrightarrow>
     (\<exists>dat str1 items. unmarshal_map allocated = Some dat \<and> obj_get dat ''graph'' = Some (JObj str1)
        \<and> obj_get str1 ''nodes'' = Some (JArr items)
        \<and> list_all2 (\<lambda>item (ty, b). vertex_json item ty b) items vs)"

lemma ParseAllocResult_shape:
  assumes "allocation_json allocated vs"
  shows "ParseAllocResult allocated = Inr (alloc_spec vs 0)"
proof -
  from assms obtain dat str1 items where shape: "unmarshal_map allocated = Some dat"
      "obj_get dat ''graph'' = Some (JObj str1)" "obj_get str1 ''nodes'' = Some (JArr items)"
    and items: "list_all2 (\<lambda>item (ty, b). vertex_json item ty b) items vs"
    unfolding allocation_json_def by blast
  obtain rest where "fold_result parse_vertex items ([], 0) = Inr (alloc_spec vs 0, rest)"
    using fold_parse_vertex [OF items, where result = "[]" and cores = 0] by auto
  with shape show ?thesis by (simp add: ParseAllocResult_def assert_obj_def assert_arr_def)
qed

lemma allocation_json_encoded:
  assumes "Nodes (Graph g) \<noteq> []"
  shows "allocation_json (encodedJGF g) (vertices g)"
proof -
  have "json_parse (encodedJGF g) = Some (FluxJGF_json g)"
    unfolding encodedJGF_def
    by (rule json_parse_print) (simp_all add: is_ws_def numbers_ok_FluxJGF depth_FluxJGF)
  with assms vertices_json [of g] show ?thesis
    by (auto simp: allocation_json_def unmarshal_map_def FluxJGF_json_def graph_json_def slice_json_def obj_get_def)
qed

text \<open>
  C19. \<open>ParseAllocResult\<close> agrees with the reference definition: on the JSON form of a
  graph with at least one vertex, as \<open>WriteJGF\<close> writes it, it does not panic and returns,
  per compute node and in order, the node's name and the number of core vertices
  listed since the previous compute node.
\<close>

theorem ParseAllocResult_correct:
  assumes "Nodes (Graph g) \<noteq> []"
  shows "ParseAllocResult (encodedJGF g) = Inr (alloc_spec (vertices g) 0)"
  by (rule ParseAllocResult_shape [OF allocation_json_encoded [OF assms]])

text \<open>A graph with one core under a node.\<close>

definition small_graph :: FluxJGF where
  "small_graph = snd (MakeNode (snd (MakeCore NewFluxJGF CoreType ''s0/n0'' 0)) ''w'' ''s0'' 0)"

lemma vertices_small: "vertices small_graph = [(CoreType, CoreType), (NodeType, ''w'')]"
  by (simp add: vertices_def small_graph_def NewFluxJGF_def MakeNode_def MakeCore_def make_defs)

theorem ParseAllocResult_correct_witness:
  "ParseAllocResult (encodedJGF small_graph) =
     Inr [\<lparr>alloc_Type = NodeType, alloc_Basename = ''w'', CoreCount = 1\<rparr>]"
proof -
  have "Nodes (Graph small_graph) \<noteq> []" using vertices_small by (auto simp: vertices_def)
  from ParseAllocResult_correct [OF this] show ?thesis
    by (simp add: vertices_small in_int64_def)
qed

text \<open>Cores are conserved: each core vertex is counted for one node, or comes after the last one.\<close>

fun trailing_cores :: "(string \<times> string) list \<Rightarrow> nat \<Rightarrow> nat" where
  "trailing_cores [] cores = cores"
| "trailing_cores ((ty, b) # vs) cores =
     trailing_cores vs (if ty = NodeType then 0 else if ty = CoreType then Suc cores else cores)"

lemma alloc_spec_cores:
  "int (length (filter (\<lambda>v. fst v = CoreType) vs)) + int cores < 2 ^ 63 \<Longrightarrow>
   (\<Sum>a\<leftarrow>alloc_spec vs cores. CoreCount a) + int (trailing_cores vs cores)
     = int cores + int (length (filter (\<lambda>v. fst v = CoreType) vs))"
proof (induction vs arbitrary: cores)
  case (Cons v vs)
  obtain ty b where v: "v = (ty, b)" by (cases v)
  have "wrap64 (int cores) = int cores" using Cons.prems by (simp add: in_int64_def)
  with Cons.prems Cons.IH [of 0] Cons.IH [of cores] Cons.IH [of "Suc cores"] show ?case
    by (auto simp: v)
qed simp

lemma alloc_spec_names:
  "map alloc_Basename (alloc_spec vs cores) = map snd (filter (\<lambda>v. fst v = NodeType) vs)"
  by (induction vs cores rule: alloc_spec.induct) auto

lemma alloc_spec_bounds:
  "int (length (filter (\<lambda>v. fst v = CoreType) vs)) + int cores < 2 ^ 63 \<Longrightarrow> a \<in> set (alloc_spec vs cores) \<Longrightarrow>
   0 \<le> CoreCount a \<and> CoreCount a \<le> int cores + int (length (filter (\<lambda>v. fst v = CoreType) vs))"
  by (induction vs cores rule: alloc_spec.induct) (auto simp: in_int64_def split: if_splits)

text \<open>
  No core is counted twice and no node is invented: the names returned are those
  of the node vertices in order, and the core counts add up to the core vertices of
  the allocation, less those listed after the last node.
\<close>

theorem ParseAllocResult_conserves:
  assumes "ParseAllocResult (encodedJGF g) = Inr result" and "Nodes (Graph g) \<noteq> []"
    and "length (Nodes (Graph g)) < 2 ^ 63"
  shows "map alloc_Basename result = map snd (filter (\<lambda>v. fst v = NodeType) (vertices g))
    \<and> (\<Sum>a\<leftarrow>result. CoreCount a) + int (trailing_cores (vertices g) 0) = int (number_of CoreType g)"
proof -
  from ParseAllocResult_shape [OF allocation_json_encoded [OF assms(2)]] assms(1) have r: "result = alloc_spec (vertices g) 0" by simp
  have n: "length (filter (\<lambda>v. fst v = CoreType) (vertices g)) = number_of CoreType g"
    by (simp add: vertices_def number_of_def filter_map o_def)
  have "number_of CoreType g \<le> length (Nodes (Graph g))" by (simp add: number_of_def)
  with assms(3) n alloc_spec_cores [of "vertices g" 0] alloc_spec_names [of "vertices g" 0] r show ?thesis
    by simp
qed

theorem ParseAllocResult_conserves_witness:
  "(\<Sum>a\<leftarrow>projr (ParseAllocResult (encodedJGF small_graph)). CoreCount a) = 1"
proof -
  have ne: "Nodes (Graph small_graph) \<noteq> []" using vertices_small by (auto simp: vertices_def)
  have len: "length (Nodes (Graph small_graph)) = 2"
    using arg_cong [OF vertices_small, of length] by (simp add: vertices_def)
  have n: "number_of CoreType small_graph = 1"
    using arg_cong [OF vertices_small, of "\<lambda>vs. length (filter (\<lambda>v. fst v = CoreType) vs)"]
    by (simp add: vertices_def number_of_def filter_map o_def)
  obtain result where r: "ParseAllocResult (encodedJGF small_graph) = Inr result"
    using ParseAllocResult_shape [OF allocation_json_encoded [OF ne]] by blast
  from ParseAllocResult_conserves [OF r ne] len n vertices_small r show ?thesis by simp
qed

end
