(* ===== verification/Jobspec.thy ===== *)
theory Jobspec
  imports Podspec
begin

text \<open>
  \<open>src/fluence/jobspec\<close>: the Fluxion job specification built from a pod's request and
  the size of its group, and what it asks Fluxion for in total.
\<close>

section \<open>types.go\<close>

datatype Resource = Resource (r_Type: string) (r_Count: int64) (r_Label: string) (r_With: "Resource list")

record Version =
  v_Version :: int
  v_Resources :: "Resource list"

record System =
  Duration :: int64

record Attribute =
  SystemAttr :: System

record Count =
  PerSlot :: int64

record Task =
  Command :: "string list"
  Slot :: string
  Counts :: Count

record JobSpec =
  js_Version :: Version
  Attributes :: Attribute
  js_Tasks :: "Task list"

section \<open>jobspec.go\<close>

definition createSocketResources :: "PodSpec \<Rightarrow> Resource list" where
  "createSocketResources spec =
     (let socketResources = [Resource ''core'' (ps_Cpu spec) '''' []];
          socketResources1 =
            (if ps_Memory spec > 0
             then socketResources @ [Resource ''memory'' (drop_bit 20 (ps_Memory spec)) '''' []]
             else socketResources)
      in if ps_Gpu spec > 0 then socketResources1 @ [Resource ''gpu'' (ps_Gpu spec) '''' []]
         else socketResources1)"

text \<open>The loop of \<open>createResources\<close> returns at the first label \<open>zone\<close>.\<close>

fun zone_loop :: "string list \<Rightarrow> Resource list \<Rightarrow> Resource list" where
  "zone_loop [] slotResource = slotResource"
| "zone_loop (l # ls) slotResource =
     (if l = ''zone''
      then [Resource ''subnet'' 1 '''' [Resource ''node'' 1 '''' slotResource]]
      else zone_loop ls slotResource)"

definition createResources :: "PodSpec \<Rightarrow> Resource list \<Rightarrow> int32 \<Rightarrow> Resource list" where
  "createResources spec socketResources count =
     (let slotResource = [Resource ''slot'' count ''default'' socketResources]
      in if length (ps_Labels spec) > 0 then zone_loop (ps_Labels spec) slotResource
         else slotResource)"

definition make_JobSpec :: "PodSpec \<Rightarrow> int32 \<Rightarrow> JobSpec" where
  "make_JobSpec spec count =
     \<lparr>js_Version = \<lparr>v_Version = 9999,
        v_Resources = createResources spec (createSocketResources spec) count\<rparr>,
      Attributes = \<lparr>SystemAttr = \<lparr>Duration = 3600\<rparr>\<rparr>,
      js_Tasks = [\<lparr>Command = [ps_Container spec], Slot = ''default'', Counts = \<lparr>PerSlot = 1\<rparr>\<rparr>]\<rparr>"

text \<open>
  \<open>yaml.Marshal\<close> is a package of its own, so it is an argument. On an error of the
  encoder the process exits (\<open>log.Fatalf\<close>), which ends the call.
\<close>

definition CreateJobSpecYaml ::
    "(JobSpec \<Rightarrow> string result) \<Rightarrow> PodSpec \<Rightarrow> int32 \<Rightarrow> string result" where
  "CreateJobSpecYaml yaml_Marshal spec count =
     (case yaml_Marshal (make_JobSpec spec count) of
        Inl err \<Rightarrow> Inl (Panic PanicCalled)
      | Inr yamlbytes \<Rightarrow> Inr yamlbytes)"

section \<open>What a specification asks for\<close>

text \<open>
  The number of resources of a type in a request: a count multiplies what is below it.
\<close>

fun demand :: "string \<Rightarrow> Resource \<Rightarrow> int" where
  "demand t (Resource ty c l w) = c * ((if ty = t then 1 else 0) + (\<Sum>r\<leftarrow>w. demand t r))"

definition total_demand :: "string \<Rightarrow> Resource list \<Rightarrow> int" where
  "total_demand t rs = (\<Sum>r\<leftarrow>rs. demand t r)"

lemma zone_loop_eq:
  "zone_loop ls slot =
     (if ''zone'' \<in> set ls then [Resource ''subnet'' 1 '''' [Resource ''node'' 1 '''' slot]] else slot)"
  by (induction ls) auto

lemma createResources_eq:
  "createResources spec socket count =
     (let slot = [Resource ''slot'' count ''default'' socket]
      in if ''zone'' \<in> set (ps_Labels spec)
         then [Resource ''subnet'' 1 '''' [Resource ''node'' 1 '''' slot]] else slot)"
  by (cases "ps_Labels spec") (auto simp: createResources_def zone_loop_eq Let_def)

lemma createResources_demand:
  "t \<notin> {''subnet'', ''node'', ''slot''} \<Longrightarrow>
   total_demand t (createResources spec socket count) = count * total_demand t socket"
  by (auto simp: createResources_eq total_demand_def Let_def)

lemma createSocketResources_demand:
  "total_demand ''core'' (createSocketResources spec) = ps_Cpu spec"
  "total_demand ''memory'' (createSocketResources spec) = max 0 (drop_bit 20 (ps_Memory spec))"
  "total_demand ''gpu'' (createSocketResources spec) = max 0 (ps_Gpu spec)"
  by (auto simp: createSocketResources_def total_demand_def Let_def max_def drop_bit_eq_div
      zdiv_mono1 div_nonpos_pos_le0 intro: order_antisym)

section \<open>Properties\<close>

text \<open>
  The specification for a group of \<open>count\<close> pods asks Fluxion for exactly
  \<open>count\<close> times the cores, mebibytes of memory and GPUs of the representative pod,
  with or without the zone constraint.
\<close>

theorem make_JobSpec_demand:
  "let rs = v_Resources (js_Version (make_JobSpec spec count))
   in total_demand ''core'' rs = count * ps_Cpu spec
    \<and> total_demand ''memory'' rs = count * max 0 (ps_Memory spec div 2 ^ 20)
    \<and> total_demand ''gpu'' rs = count * max 0 (ps_Gpu spec)"
  by (simp add: make_JobSpec_def createResources_demand createSocketResources_demand drop_bit_eq_div)

text \<open>
  The specification does not depend on the order in which Go's runtime ranges
  over the pod's labels map: every order gives the same request.
\<close>

theorem make_JobSpec_order_irrelevant:
  assumes "range_order (pod_Labels pod) order" and "range_order (pod_Labels pod) order'"
  shows "make_JobSpec (PreparePodJobSpec order pod g) n = make_JobSpec (PreparePodJobSpec order' pod g) n"
proof -
  have "set (getPodJobspecLabels order pod) = set (getPodJobspecLabels order' pod)"
    using assms by (simp add: getPodJobspecLabels_set)
  then show ?thesis
    by (simp add: make_JobSpec_def createResources_eq createSocketResources_def PreparePodJobSpec_def Let_def)
qed

theorem make_JobSpec_order_irrelevant_witness:
  "let pod = plain_pod ''default'' ''p'' (Some [''jobspec-zone'' \<mapsto> ''zone'', ''app'' \<mapsto> ''x''])
   in make_JobSpec (PreparePodJobSpec [''jobspec-zone'', ''app''] pod ''g'') 2
    = make_JobSpec (PreparePodJobSpec [''app'', ''jobspec-zone''] pod ''g'') 2"
  unfolding Let_def
  by (rule make_JobSpec_order_irrelevant) (auto simp: range_order_def plain_pod_def)

end
