(* ===== verification/Fluxion_Service.thy ===== *)
theory Fluxion_Service
  imports Allocation Jobspec Cluster_Graph Flux_Messages
begin

text \<open>
  The sidecar: the gRPC handlers of \<open>src/fluence/fluxion/fluxion.go\<close>, the external
  service of \<open>src/fluence/service/service.go\<close> and the address \<open>src/fluence/cmd/main.go\<close>
  listens on. Fluxion itself, behind its Go bindings, is the record \<open>reapi\<close> over a
  state of type \<open>'f\<close>; the YAML encoder and the leave to open a file are fields of it too.
\<close>

section \<open>Fluxion\<close>

text \<open>
  \<open>MatchAllocate\<close> returns the allocation, the job id and an error; the other results
  of the binding are only printed.
\<close>

record 'f reapi =
  NewReapiClient :: 'f
  InitContext :: "string \<Rightarrow> string \<Rightarrow> 'f \<Rightarrow> 'f"
  MatchAllocate :: "bool \<Rightarrow> string \<Rightarrow> 'f \<Rightarrow> (string \<times> jobid \<times> go_error option) \<times> 'f"
  reapi_Cancel :: "int64 \<Rightarrow> bool \<Rightarrow> 'f \<Rightarrow> go_error option \<times> 'f"
  yaml_Marshal :: "JobSpec \<Rightarrow> string result"
  os_Open :: "string \<Rightarrow> unit result"

definition KubernetesJsonGraphFormat :: string where
  "KubernetesJsonGraphFormat = ''/home/data/jgf/kubecluster.json''"

definition matcher_policy :: "string \<Rightarrow> string" where
  "matcher_policy policy =
     (if policy \<noteq> '''' then ''{'' @ [quote_char] @ ''matcher_policy'' @ [quote_char] @ '': '' @ [quote_char]
        @ policy @ [quote_char] @ ''}''
      else ''{}'')"

text \<open>Reading a file that the system lets be opened and that is there.\<close>

definition os_ReadFile :: "'f reapi \<Rightarrow> files \<Rightarrow> string \<Rightarrow> string result" where
  "os_ReadFile R fs path =
     (case os_Open R path of
        Inl err \<Rightarrow> Inl err
      | Inr _ \<Rightarrow> (case fs path of None \<Rightarrow> Inl (Err ''no such file or directory'') | Some text \<Rightarrow> Inr text))"

text \<open>An error of the graph or of reading it back leaves the client without a context.\<close>

definition InitFluxion :: "kube \<Rightarrow> 'f reapi \<Rightarrow> string \<Rightarrow> string \<Rightarrow> files \<Rightarrow> 'f result \<times> files" where
  "InitFluxion K R policy skipLabel fs0 =
     (let cli = NewReapiClient R in
      case CreateInClusterJGF K KubernetesJsonGraphFormat skipLabel fs0 of
        (Inl (Panic p), fs) \<Rightarrow> (Inl (Panic p), fs)
      | (Inl (Err e), fs) \<Rightarrow> (Inr cli, fs)
      | (Inr _, fs) \<Rightarrow>
          (case os_ReadFile R fs KubernetesJsonGraphFormat of
             Inl err \<Rightarrow> (Inr cli, fs)
           | Inr jgf \<Rightarrow> (Inr (InitContext R jgf (matcher_policy policy) cli), fs)))"

definition Cancel :: "'f reapi \<Rightarrow> CancelRequest \<Rightarrow> 'f \<Rightarrow> CancelResponse result \<times> 'f" where
  "Cancel R req w =
     (case reapi_Cancel R (creq_JobID req) True w of
        (Some err, w') \<Rightarrow> (Inl err, w')
      | (None, w') \<Rightarrow> (Inr \<lparr>cres_JobID = creq_JobID req, cres_Error = 0\<rparr>, w'))"

text \<open>The loop that turns allocations into node entries.\<close>

definition node_alloc :: "int32 \<Rightarrow> allocation \<Rightarrow> NodeAlloc result" where
  "node_alloc cpu a =
     (if cpu = 0 then Inl (Panic DivideByZero)
      else Inr \<lparr>NodeID = alloc_Basename a, Tasks = wrap32 (go_quot (wrap32 (CoreCount a)) cpu)\<rparr>)"

definition node_allocs :: "int32 \<Rightarrow> allocation list \<Rightarrow> NodeAlloc list result" where
  "node_allocs cpu as =
     fold_result (\<lambda>a acc. bind_result (node_alloc cpu a) (\<lambda>n. Inr (acc @ [n]))) as []"

definition Match :: "'f reapi \<Rightarrow> MatchRequest \<Rightarrow> 'f \<Rightarrow> MatchResponse result \<times> 'f" where
  "Match R req w =
     (case CreateJobSpecYaml (yaml_Marshal R) (mr_Ps req) (mr_Count req) of
        Inl err \<Rightarrow> (Inl err, w)
      | Inr spec \<Rightarrow>
          (case MatchAllocate R False spec w of
             ((allocated, jobid, fluxerr), w') \<Rightarrow>
               if fluxerr \<noteq> None then (Inl (Err ''[Fluence] Error in ReapiCliMatchAllocate''), w')
               else if allocated = '''' then (Inl (Err ''Allocation was not possible''), w')
               else
                 (bind_result (ParseAllocResult allocated) (\<lambda>nodetasks.
                  bind_result (node_allocs (ps_Cpu (mr_Ps req)) nodetasks) (\<lambda>nodetaskslist.
                    Inr \<lparr>PodID = ps_Id (mr_Ps req), Nodelist = nodetaskslist,
                         mres_JobID = int64_of_jobid jobid\<rparr>)), w')))"

section \<open>The external service and the address\<close>

record GroupRequest =
  Group :: string

record GroupResponse =
  gr_Name :: string
  gr_Size :: int64

record ResourceResponse =
  rr_Graph :: string

definition GetGroup :: "GroupRequest \<Rightarrow> GroupResponse result" where
  "GetGroup req = Inr \<lparr>gr_Name = '''', gr_Size = 0\<rparr>"

definition ListGroups :: "GroupRequest \<Rightarrow> GroupResponse result" where
  "ListGroups req = Inr \<lparr>gr_Name = '''', gr_Size = 0\<rparr>"

definition GetResources :: "'f reapi \<Rightarrow> files \<Rightarrow> ResourceResponse result" where
  "GetResources R fs =
     (case os_ReadFile R fs KubernetesJsonGraphFormat of
        Inl err \<Rightarrow> Inl err
      | Inr jgf \<Rightarrow> Inr \<lparr>rr_Graph = jgf\<rparr>)"

definition defaultPort :: string where
  "defaultPort = '':4242''"

definition listen_port :: "string \<Rightarrow> string" where
  "listen_port grpcPort =
     (if \<not> HasPrefix '':'' grpcPort then '':'' @ grpcPort else grpcPort)"

section \<open>What a match answers\<close>

lemma node_allocs_eq:
  "cpu \<noteq> 0 \<Longrightarrow> node_allocs cpu as =
     Inr (map (\<lambda>a. \<lparr>NodeID = alloc_Basename a, Tasks = wrap32 (go_quot (wrap32 (CoreCount a)) cpu)\<rparr>) as)"
proof -
  assume cpu: "cpu \<noteq> 0"
  have "fold_result (\<lambda>a acc. bind_result (node_alloc cpu a) (\<lambda>n. Inr (acc @ [n]))) as acc =
     Inr (acc @ map (\<lambda>a. \<lparr>NodeID = alloc_Basename a, Tasks = wrap32 (go_quot (wrap32 (CoreCount a)) cpu)\<rparr>) as)" for acc
    using cpu by (induction as arbitrary: acc) (simp_all add: node_alloc_def del: bind_result_Inr_iff)
  then show ?thesis by (simp add: node_allocs_def)
qed

text \<open>
  What Fluxion documents: an allocation without error is a job with a fresh id and a
  graph of the allocated vertices; a failed call allocates nothing; a cancellation
  without error frees the job.
\<close>

definition reapi_laws :: "('f \<Rightarrow> jobid set) \<Rightarrow> 'f reapi \<Rightarrow> bool" where
  "reapi_laws live R \<longleftrightarrow>
     (\<forall>spec w. case MatchAllocate R False spec w of ((allocated, job, err), w') \<Rightarrow>
        if err = None \<and> allocated \<noteq> ''''
        then job \<notin> live w \<and> live w' = insert job (live w) \<and> (\<exists>vs. allocation_json allocated vs)
        else live w' = live w)
   \<and> (\<forall>j w. case reapi_Cancel R j True w of (err, w') \<Rightarrow>
        live w' = (if err = None then live w - {jobid_of_int64 j} else live w))"

lemma reapi_lawsD:
  assumes "reapi_laws live R"
  shows "MatchAllocate R False spec w = ((allocated, job, None), w') \<Longrightarrow> allocated \<noteq> '''' \<Longrightarrow>
      job \<notin> live w \<and> live w' = insert job (live w) \<and> (\<exists>vs. allocation_json allocated vs)"
    and "MatchAllocate R False spec w = ((allocated, job, err), w') \<Longrightarrow> err \<noteq> None \<or> allocated = '''' \<Longrightarrow>
      live w' = live w"
    and "reapi_Cancel R j True w = (err, w') \<Longrightarrow>
      live w' = (if err = None then live w - {jobid_of_int64 j} else live w)"
proof -
  from assms have m: "\<And>spec w. case MatchAllocate R False spec w of ((allocated, job, err), w') \<Rightarrow>
        if err = None \<and> allocated \<noteq> ''''
        then job \<notin> live w \<and> live w' = insert job (live w) \<and> (\<exists>vs. allocation_json allocated vs)
        else live w' = live w"
    and c: "\<And>j w. case reapi_Cancel R j True w of (err, w') \<Rightarrow>
        live w' = (if err = None then live w - {jobid_of_int64 j} else live w)"
    by (auto simp: reapi_laws_def)
  show "MatchAllocate R False spec w = ((allocated, job, None), w') \<Longrightarrow> allocated \<noteq> '''' \<Longrightarrow>
      job \<notin> live w \<and> live w' = insert job (live w) \<and> (\<exists>vs. allocation_json allocated vs)"
    and "MatchAllocate R False spec w = ((allocated, job, err), w') \<Longrightarrow> err \<noteq> None \<or> allocated = '''' \<Longrightarrow>
      live w' = live w"
    using m [where spec = spec and w = w] by (auto split: if_splits)
  show "reapi_Cancel R j True w = (err, w') \<Longrightarrow>
      live w' = (if err = None then live w - {jobid_of_int64 j} else live w)"
    using c [where j = j and w = w] by simp
qed

lemma Match_allocated:
  assumes "CreateJobSpecYaml (yaml_Marshal R) (mr_Ps req) (mr_Count req) = Inr spec"
    and "MatchAllocate R False spec w = ((allocated, job, None), w')" and "allocated \<noteq> ''''"
    and "allocation_json allocated vs" and "ps_Cpu (mr_Ps req) \<noteq> 0"
  shows "Match R req w =
    (Inr \<lparr>PodID = ps_Id (mr_Ps req),
          Nodelist = map (\<lambda>a. \<lparr>NodeID = alloc_Basename a,
             Tasks = wrap32 (go_quot (wrap32 (CoreCount a)) (ps_Cpu (mr_Ps req)))\<rparr>) (alloc_spec vs 0),
          mres_JobID = int64_of_jobid job\<rparr>, w')"
  using assms by (simp add: Match_def ParseAllocResult_shape node_allocs_eq del: bind_result_Inr_iff)


section \<open>Properties\<close>

text \<open>
  C20. A match that Fluxion can satisfy is answered with Fluxion's own allocation: the
  response names exactly the node vertices of the allocation in order, gives each the
  number of tasks its cores allow (cores divided by the cores of one pod), carries the
  group's name and the id of the fresh job; nothing panics when a pod needs at least
  one core.
\<close>

theorem Match_answers_allocation:
  assumes "reapi_laws live R" and "yaml_Marshal R (make_JobSpec (mr_Ps req) (mr_Count req)) = Inr spec"
    and "MatchAllocate R False spec w = ((allocated, job, None), w')" and "allocated \<noteq> ''''"
    and "0 < ps_Cpu (mr_Ps req)"
  shows "\<exists>vs resp. allocation_json allocated vs \<and> Match R req w = (Inr resp, w')
    \<and> map NodeID (Nodelist resp) = map snd (filter (\<lambda>v. fst v = NodeType) vs)
    \<and> (length vs < 2 ^ 31 \<longrightarrow> map Tasks (Nodelist resp) =
         map (\<lambda>a. CoreCount a div ps_Cpu (mr_Ps req)) (alloc_spec vs 0))
    \<and> PodID resp = ps_Id (mr_Ps req) \<and> jobid_of_int64 (mres_JobID resp) = job
    \<and> job \<notin> live w \<and> job \<in> live w'"
proof -
  obtain vs where shape: "allocation_json allocated vs" and fresh: "job \<notin> live w" "job \<in> live w'"
    using reapi_lawsD(1) [OF assms(1,3,4)] by blast
  have yaml: "CreateJobSpecYaml (yaml_Marshal R) (mr_Ps req) (mr_Count req) = Inr spec"
    using assms(2) by (simp add: CreateJobSpecYaml_def)
  have cpu: "ps_Cpu (mr_Ps req) \<noteq> 0" using assms(5) by simp
  have tasks: "wrap32 (go_quot (wrap32 (CoreCount a)) (ps_Cpu (mr_Ps req))) = CoreCount a div ps_Cpu (mr_Ps req)"
    if "length vs < 2 ^ 31" "a \<in> set (alloc_spec vs 0)" for a
  proof -
    let ?n = "length (filter (\<lambda>v. fst v = CoreType) vs)" and ?c = "ps_Cpu (mr_Ps req)"
    have "?n < 2 ^ 31" using that(1) length_filter_le le_less_trans by blast
    then have bnd: "0 \<le> CoreCount a" "CoreCount a < 2 ^ 31"
      using alloc_spec_bounds [OF _ that(2)] by auto
    then have "0 \<le> CoreCount a div ?c" "CoreCount a div ?c < 2 ^ 31"
      using assms(5) zdiv_mono2 [of "CoreCount a" 1 ?c] by (auto simp: pos_imp_zdiv_nonneg_iff)
    with bnd assms(5) show ?thesis by (simp add: go_quot_nonneg in_int32_def)
  qed
  show ?thesis
    using Match_allocated [OF yaml assms(3,4) shape cpu] shape fresh tasks
    by (auto simp: o_def alloc_spec_names)
qed

text \<open>A Fluxion that hands out one node with one core per job.\<close>

definition demo_reapi :: "(jobid list \<times> jobid) reapi" where
  "demo_reapi =
     \<lparr>NewReapiClient = ([], 1), InitContext = (\<lambda>_ _ w. w),
      MatchAllocate = (\<lambda>_ _ (live, next).
        if next \<in> set live then (('''', 0, Some (Err ''no more job ids'')), live, next)
        else ((encodedJGF small_graph, next, None), next # live, next + 1)),
      reapi_Cancel = (\<lambda>j _ (live, next). (None, removeAll (jobid_of_int64 j) live, next)),
      yaml_Marshal = (\<lambda>_. Inr ''spec''), os_Open = (\<lambda>_. Inr ())\<rparr>"

lemma small_graph_allocation:
  "allocation_json (encodedJGF small_graph) [(CoreType, CoreType), (NodeType, ''w'')]"
  "encodedJGF small_graph \<noteq> ''''"
proof -
  have "Nodes (Graph small_graph) \<noteq> []" using vertices_small by (auto simp: vertices_def)
  from allocation_json_encoded [OF this]
  show "allocation_json (encodedJGF small_graph) [(CoreType, CoreType), (NodeType, ''w'')]"
    by (simp add: vertices_small)
  show "encodedJGF small_graph \<noteq> ''''" by (simp add: encodedJGF_def FluxJGF_json_def)
qed

lemma demo_reapi_laws: "reapi_laws (set \<circ> fst) demo_reapi"
  using small_graph_allocation by (auto simp: reapi_laws_def demo_reapi_def)

definition demo_request :: MatchRequest where
  "demo_request = \<lparr>mr_Ps = PreparePodJobSpec [] (plain_pod ''ns'' ''a'' None) ''ns/g'',
     mr_Request = ''allocate'', mr_Count = 1\<rparr>"

lemma demo_request_cpu: "ps_Cpu (mr_Ps demo_request) = 1" "ps_Id (mr_Ps demo_request) = ''ns/g''"
  by (simp_all add: demo_request_def PreparePodJobSpec_def plain_pod_def sum_containers_def zero_sums_def)

theorem Match_answers_allocation_witness:
  "\<exists>resp w'. Match demo_reapi demo_request ([], 1) = (Inr resp, w') \<and> PodID resp = ''ns/g''
      \<and> jobid_of_int64 (mres_JobID resp) = 1"
proof -
  have yaml: "yaml_Marshal demo_reapi (make_JobSpec (mr_Ps demo_request) (mr_Count demo_request)) = Inr ''spec''"
    and alloc: "MatchAllocate demo_reapi False ''spec'' ([], 1) = ((encodedJGF small_graph, 1, None), [1], 2)"
    by (simp_all add: demo_reapi_def)
  from Match_answers_allocation [OF demo_reapi_laws yaml alloc small_graph_allocation(2)] demo_request_cpu
  show ?thesis by auto
qed

lemma assert_errors:
  "assert_obj v = Inl e \<Longrightarrow> e = Panic BadTypeAssertion" "assert_arr v = Inl e \<Longrightarrow> e = Panic BadTypeAssertion"
  "assert_str v = Inl e \<Longrightarrow> e = Panic BadTypeAssertion"
  by (auto simp: assert_obj_def assert_arr_def assert_str_def split: option.splits json.splits)

lemma parse_vertex_errors: "parse_vertex item acc = Inl e \<Longrightarrow> e = Panic BadTypeAssertion"
  by (cases acc) (auto simp: parse_vertex_def bind_result_Inl_iff Let_def dest: assert_errors split: if_splits)

lemma ParseAllocResult_errors:
  "ParseAllocResult s = Inl e \<Longrightarrow> e = Panic PanicCalled \<or> e = Panic BadTypeAssertion"
  by (auto simp: ParseAllocResult_def bind_result_Inl_iff dest!: fold_result_error dest: assert_errors parse_vertex_errors
      split: option.splits)

text \<open>
  A match never divides by zero: whatever Fluxion answers, a request built from a
  pod by \<open>PreparePodJobSpec\<close>, which replaces a sum of 0 cores by 1, does not make the
  handler panic in the division of cores by the cores of a pod.
\<close>

theorem Match_no_division_by_zero:
  "fst (Match R \<lparr>mr_Ps = PreparePodJobSpec order pod g, mr_Request = r, mr_Count = n\<rparr> w)
     \<noteq> Inl (Panic DivideByZero)"
  by (auto simp: Match_def CreateJobSpecYaml_def node_allocs_eq PreparePodJobSpec_Cpu_nonzero bind_result_Inl_iff
      dest: ParseAllocResult_errors split: sum.splits prod.splits)

text \<open>
  The port flag is not normalised: the test for a leading colon has its arguments
  swapped, so every port but the empty string and \<open>:\<close> itself gets a colon in front,
  also the default port, which becomes \<open>::4242\<close>.
\<close>

theorem listen_port_always_prefixed:
  "listen_port p = (if p = '''' \<or> p = '':'' then p else '':'' @ p) \<and> listen_port defaultPort = ''::4242''"
proof -
  have "HasPrefix '':'' p \<longleftrightarrow> p = '''' \<or> p = '':''"
    by (cases p) (auto simp: HasPrefix_def take_Cons' split: if_splits)
  then show ?thesis by (simp add: listen_port_def defaultPort_def HasPrefix_def)
qed

end
