(* ===== verification/Sidecar_Main.thy ===== *)
theory Sidecar_Main
  imports Fluxion_Service
begin

text \<open>
  The command of the sidecar, \<open>cmd/main.go\<close>, with what it uses of Go's library: the
  command line as package \<open>flag\<close> parses it, and the address as \<open>net.Listen\<close> splits it.
  What the operating system answers when it is asked for a port is an argument, as is
  how serving ends.
\<close>

section \<open>The command line\<close>

record server_flags =
  flag_policy :: string
  flag_label :: string
  flag_port :: string
  flag_external :: bool

definition enableExternalService :: bool where
  "enableExternalService = False"

definition default_flags :: server_flags where
  "default_flags = \<lparr>flag_policy = '''', flag_label = '''', flag_port = defaultPort, flag_external = enableExternalService\<rparr>"

definition ParseBool :: "string \<Rightarrow> bool option" where
  "ParseBool s = (if s \<in> {''1'', ''t'', ''T'', ''true'', ''TRUE'', ''True''} then Some True
     else if s \<in> {''0'', ''f'', ''F'', ''false'', ''FALSE'', ''False''} then Some False else None)"

text \<open>A string flag is set to its value.\<close>

definition set_string :: "string \<Rightarrow> string \<Rightarrow> server_flags \<Rightarrow> server_flags option" where
  "set_string name value fl =
     (if name = ''policy'' then Some (fl\<lparr>flag_policy := value\<rparr>)
      else if name = ''label'' then Some (fl\<lparr>flag_label := value\<rparr>)
      else if name = ''port'' then Some (fl\<lparr>flag_port := value\<rparr>)
      else None)"

text \<open>An argument is the name of a flag, after one or two dashes, with a value or not.\<close>

datatype flag_arg = NoFlag | Terminator | BadSyntax | Flag string "string option"

definition flag_of :: "string \<Rightarrow> flag_arg" where
  "flag_of s =
     (if length s < 2 \<or> hd s \<noteq> CHR ''-'' then NoFlag
      else if s = ''--'' then Terminator
      else let name = (if s ! 1 = CHR ''-'' then drop 2 s else drop 1 s) in
        if name = [] \<or> hd name = CHR ''-'' \<or> hd name = CHR ''='' then BadSyntax
        else Flag (takeWhile (\<lambda>c. c \<noteq> CHR ''='') name)
          (if CHR ''='' \<in> set name then Some (tl (dropWhile (\<lambda>c. c \<noteq> CHR ''='') name)) else None))"

text \<open>\<open>flag.Parse\<close>; on the left the code the process exits with.\<close>

fun flag_Parse :: "string list \<Rightarrow> server_flags \<Rightarrow> nat + server_flags" where
  "flag_Parse [] fl = Inr fl"
| "flag_Parse (s # args) fl =
     (case flag_of s of
        NoFlag \<Rightarrow> Inr fl
      | Terminator \<Rightarrow> Inr fl
      | BadSyntax \<Rightarrow> Inl 2
      | Flag name value \<Rightarrow>
          if name = ''external-service'' then
            (case value of
               None \<Rightarrow> flag_Parse args (fl\<lparr>flag_external := True\<rparr>)
             | Some v \<Rightarrow> (case ParseBool v of None \<Rightarrow> Inl 2 | Some b \<Rightarrow> flag_Parse args (fl\<lparr>flag_external := b\<rparr>)))
          else if name \<in> {''policy'', ''label'', ''port''} then
            (case value of
               Some v \<Rightarrow> (case set_string name v fl of None \<Rightarrow> Inl 2 | Some fl' \<Rightarrow> flag_Parse args fl')
             | None \<Rightarrow> (case args of
                  [] \<Rightarrow> Inl 2
                | v # args' \<Rightarrow> (case set_string name v fl of None \<Rightarrow> Inl 2 | Some fl' \<Rightarrow> flag_Parse args' fl')))
          else if name \<in> {''help'', ''h''} then Inl 0 else Inl 2)"

section \<open>Listening\<close>

text \<open>\<open>net.SplitHostPort\<close> for an address that does not begin with a bracket.\<close>

definition SplitHostPort :: "string \<Rightarrow> (string \<times> string) result" where
  "SplitHostPort hostport =
     (if CHR '':'' \<notin> set hostport then Inl (Err ''missing port in address'')
      else let port = rev (takeWhile (\<lambda>c. c \<noteq> CHR '':'') (rev hostport));
               host = take (length hostport - length port - 1) hostport in
        if CHR '':'' \<in> set host then Inl (Err ''too many colons in address'')
        else if CHR ''['' \<in> set hostport then Inl (Err ''unexpected '[' in address'')
        else if CHR '']'' \<in> set hostport then Inl (Err ''unexpected ']' in address'')
        else Inr (host, port))"

definition net_Listen :: "(string \<Rightarrow> string \<Rightarrow> string result) \<Rightarrow> string \<Rightarrow> string result" where
  "net_Listen bind_port address =
     (if address = '''' then bind_port '''' ''''
      else bind_result (SplitHostPort address) (\<lambda>(host, port). bind_port host port))"

section \<open>The command\<close>

datatype grpc_service = FluxcliService | ExternalPluginService

datatype 'f outcome =
    Exit nat
  | Crash go_panic
  | Served string 'f "grpc_service list" "unit result"

text \<open>\<open>InitFluxion\<close> returns no error; it can only panic.\<close>

fun panic_of :: "go_error \<Rightarrow> go_panic" where
  "panic_of (Panic p) = p"
| "panic_of (Err e) = PanicCalled"

lemma InitFluxion_no_error: "fst (InitFluxion K R policy skipLabel fs) \<noteq> Inl (Err e)"
  by (auto simp: InitFluxion_def Let_def split: prod.splits sum.splits go_error.splits)

text \<open>
  A failure to listen is only printed; the nil listener is then asked for its address.
  The server is handed to \<open>Serve\<close> with the services registered before, and the error of
  \<open>Serve\<close> is only printed.
\<close>

definition sidecar_main ::
    "kube \<Rightarrow> 'f reapi \<Rightarrow> (string \<Rightarrow> string \<Rightarrow> string result) \<Rightarrow> (string \<Rightarrow> grpc_service list \<Rightarrow> unit result)
     \<Rightarrow> string list \<Rightarrow> files \<Rightarrow> 'f outcome \<times> files" where
  "sidecar_main K R bind_port Serve args fs0 =
     (case flag_Parse args default_flags of
        Inl code \<Rightarrow> (Exit code, fs0)
      | Inr fl \<Rightarrow>
          let port = listen_port (flag_port fl) in
          (case InitFluxion K R (flag_policy fl) (flag_label fl) fs0 of
             (Inl e, fs) \<Rightarrow> (Crash (panic_of e), fs)
           | (Inr flux, fs) \<Rightarrow>
               let lis = (case net_Listen bind_port port of Inl err \<Rightarrow> None | Inr addr \<Rightarrow> Some addr);
                   server = [FluxcliService];
                   server = (if flag_external fl then server @ [ExternalPluginService] else server)
               in case lis of
                    None \<Rightarrow> (Crash NilDereference, fs)
                  | Some addr \<Rightarrow> (Served addr flux server (Serve addr server), fs)))"

section \<open>When the sidecar serves\<close>

text \<open>The port the flag asks for: none, for a flag that is refused.\<close>

definition port_asked :: "string \<Rightarrow> string option" where
  "port_asked p = (if p = '''' \<or> p = '':'' then Some '''' else if set p \<inter> set '':[]'' = {} then Some p else None)"

lemma SplitHostPort_colon:
  "SplitHostPort (CHR '':'' # p) =
     (if CHR '':'' \<in> set p then Inl (Err ''too many colons in address'')
      else if CHR ''['' \<in> set p then Inl (Err ''unexpected '[' in address'')
      else if CHR '']'' \<in> set p then Inl (Err ''unexpected ']' in address'')
      else Inr ('''', p))"
proof (cases "CHR '':'' \<in> set p")
  case True
  let ?q = "takeWhile (\<lambda>c. c \<noteq> CHR '':'') (rev p)"
  have "?q \<noteq> rev p" using True by (metis set_rev set_takeWhileD)
  then have "dropWhile (\<lambda>c. c \<noteq> CHR '':'') (rev p) \<noteq> []"
    by (metis append.right_neutral takeWhile_dropWhile_id)
  then have "length ?q < length p"
    by (metis length_append length_greater_0_conv length_rev less_add_same_cancel1 takeWhile_dropWhile_id)
  moreover have "takeWhile (\<lambda>c. c \<noteq> CHR '':'') (rev p @ [CHR '':'']) = ?q"
    using True by (auto simp: takeWhile_append)
  ultimately show ?thesis using True
    by (simp add: SplitHostPort_def Let_def take_Cons')
next
  case False
  then have "takeWhile (\<lambda>c. c \<noteq> CHR '':'') (rev p @ [CHR '':'']) = rev p"
    by (subst takeWhile_append2) auto
  with False show ?thesis by (simp add: SplitHostPort_def Let_def)
qed

lemma net_Listen_port:
  "(case net_Listen b (listen_port p) of Inl err \<Rightarrow> None | Inr addr \<Rightarrow> Some addr) =
   (case port_asked p of None \<Rightarrow> None | Some q \<Rightarrow> (case b '''' q of Inl err \<Rightarrow> None | Inr addr \<Rightarrow> Some addr))"
proof -
  have "SplitHostPort '':'' = Inr ('''', '''')" by (simp add: SplitHostPort_colon)
  moreover have "net_Listen b (CHR '':'' # p) = (case SplitHostPort (CHR '':'' # p) of Inl e \<Rightarrow> Inl e | Inr (h, q) \<Rightarrow> b h q)"
    by (cases "SplitHostPort (CHR '':'' # p)") (auto simp: net_Listen_def)
  ultimately show ?thesis
    by (auto simp: listen_port_always_prefixed port_asked_def SplitHostPort_colon net_Listen_def)
qed

text \<open>
  C29. When the sidecar serves. Once the flags are parsed and the graph is made, the
  sidecar serves the Fluxion service, and the external one exactly when its flag is set,
  if and only if the system grants the port that the flag asks for. A flag with a bracket, or one
  with a colon other than the lone colon, asks for none: the sidecar then crashes on its nil listener. The flags
  \<open>''\<close> and \<open>':'\<close> ask the system to choose a port. The default of the flag is a colon with a
  number: started without a port, the sidecar always crashes.
\<close>

theorem sidecar_serves_iff:
  assumes "flag_Parse args default_flags = Inr fl" and "InitFluxion K R (flag_policy fl) (flag_label fl) fs0 = (Inr flux, fs)"
    and "services = FluxcliService # (if flag_external fl then [ExternalPluginService] else [])"
  shows "sidecar_main K R bind_port Serve args fs0 =
      ((if flag_port fl \<in> {'''', '':''} \<or> set (flag_port fl) \<inter> set '':[]'' = {} then
          (case bind_port '''' (if flag_port fl = '':'' then '''' else flag_port fl) of
             Inl err \<Rightarrow> Crash NilDereference
           | Inr addr \<Rightarrow> Served addr flux services (Serve addr services))
        else Crash NilDereference), fs)
    \<and> \<not> (flag_port default_flags \<in> {'''', '':''} \<or> set (flag_port default_flags) \<inter> set '':[]'' = {})"
proof -
  have "\<not> (flag_port default_flags \<in> {'''', '':''} \<or> set (flag_port default_flags) \<inter> set '':[]'' = {})"
    by (simp add: default_flags_def defaultPort_def)
  moreover have "(case net_Listen bind_port (listen_port (flag_port fl)) of Inl err \<Rightarrow> None | Inr addr \<Rightarrow> Some addr) =
      (if flag_port fl \<in> {'''', '':''} \<or> set (flag_port fl) \<inter> set '':[]'' = {} then
         (case bind_port '''' (if flag_port fl = '':'' then '''' else flag_port fl) of Inl err \<Rightarrow> None | Inr addr \<Rightarrow> Some addr)
       else None)"
    unfolding net_Listen_port by (auto simp: port_asked_def)
  ultimately show ?thesis using assms
    by (simp add: sidecar_main_def Let_def split: option.splits sum.splits)
qed

text \<open>The command line of the deployment with the external service enabled, a port of a colon only, and no port at all.\<close>

theorem sidecar_serves_iff_witness:
  "\<exists>flux fs. InitFluxion example_kube demo_reapi ''lonode'' '''' Map.empty = (Inr flux, fs) \<and>
     sidecar_main example_kube demo_reapi (\<lambda>host port. Inr (''[::]:'' @ port)) (\<lambda>_ _. Inr ())
       [''--policy=lonode'', ''--port=4242'', ''--external-service''] Map.empty =
       (Served ''[::]:4242'' flux [FluxcliService, ExternalPluginService] (Inr ()), fs) \<and>
     sidecar_main example_kube demo_reapi (\<lambda>host port. Inr (''[::]:'' @ port)) (\<lambda>_ _. Inr ())
       [''--policy=lonode'', ''--port=:''] Map.empty = (Served ''[::]:'' flux [FluxcliService] (Inr ()), fs) \<and>
     sidecar_main example_kube demo_reapi (\<lambda>host port. Inr (''[::]:'' @ port)) (\<lambda>_ _. Inr ())
       [''--policy=lonode''] Map.empty = (Crash NilDereference, fs)"
proof -
  let ?fl = "\<lambda>p ext. \<lparr>flag_policy = ''lonode'', flag_label = '''', flag_port = p, flag_external = ext\<rparr>"
  have args: "flag_Parse [''--policy=lonode'', ''--port=4242'', ''--external-service''] default_flags = Inr (?fl ''4242'' True)"
    "flag_Parse [''--policy=lonode'', ''--port=:''] default_flags = Inr (?fl '':'' False)"
    "flag_Parse [''--policy=lonode''] default_flags = Inr (?fl defaultPort False)"
    by (simp_all add: flag_of_def set_string_def default_flags_def enableExternalService_def)
  obtain st where "cluster_graph example_kube '''' = Inr st" using example_cluster_graph by blast
  then obtain flux fs where init: "InitFluxion example_kube demo_reapi ''lonode'' '''' Map.empty = (Inr flux, fs)"
    by (auto simp: InitFluxion_def CreateInClusterJGF_def WriteJGF_def os_ReadFile_def example_kube_def demo_reapi_def)
  note run = sidecar_serves_iff [where K = example_kube and R = demo_reapi and ?fs0.0 = Map.empty and flux = flux and fs = fs, OF _ _ refl]
  show ?thesis
    using init run [OF args(1)] run [OF args(2)] run [OF args(3)] by (simp add: defaultPort_def)
qed

end
