(* ===== verification/PodGroup_Manager.thy ===== *)
theory PodGroup_Manager
  imports Podspec Group_Labels
begin

text \<open>
  The pod group manager of the scheduler plugin: \<open>pkg/fluence/core/core.go\<close> and
  \<open>pkg/fluence/core/flux.go\<close>. Its state is the record \<open>PodGroupManager\<close>: the two
  caches of permitted and backed-off groups, the Fluxion job of every group and the
  node of every pod. What the code calls outside the repository is the record \<open>env\<close>,
  an argument of every operation: the Kubernetes client and listers, the go-cache
  library, the label helper of scheduler-plugins, and the gRPC connection to the
  sidecar, whose state is threaded through the calls as a value of type \<open>'w\<close>. An
  operation is atomic: the code holds its mutex around every access to the two maps.
\<close>

section \<open>State and environment\<close>

record FluxStateData =
  NodeName :: string

record PermitState =
  Activate :: bool

text \<open>
  The framework's cycle state: a map from keys to values of dynamic type, read by a
  type assertion. The framework's own \<open>PodsToActivate\<close> holds a map of pods.
\<close>

datatype StateData = FluxState FluxStateData | PermitStateData PermitState
  | PodsToActivate "string \<rightharpoonup> Pod"

type_synonym CycleState = "string \<rightharpoonup> StateData"

definition PermitState_Clone :: "PermitState \<Rightarrow> PermitState" where
  "PermitState_Clone s = \<lparr>Activate = Activate s\<rparr>"

definition FluxStateData_Clone :: "FluxStateData \<Rightarrow> FluxStateData" where
  "FluxStateData_Clone s = \<lparr>NodeName = NodeName s\<rparr>"

text \<open>The framework clones a cycle state value by value; its own \<open>PodsToActivate\<close> returns itself.\<close>

fun StateData_Clone :: "StateData \<Rightarrow> StateData" where
  "StateData_Clone (FluxState s) = FluxState (FluxStateData_Clone s)"
| "StateData_Clone (PermitStateData s) = PermitStateData (PermitState_Clone s)"
| "StateData_Clone (PodsToActivate m) = PodsToActivate m"

lemma StateData_Clone_id: "StateData_Clone s = s"
  by (cases s) (simp_all add: FluxStateData_Clone_def PermitState_Clone_def)

datatype Status = PodGroupNotSpecified | PodGroupNotFound | Success | Wait

definition permitStateKey :: string where
  "permitStateKey = ''PermitFluence''"

definition PodsToActivateKey :: string where
  "PodsToActivateKey = ''kubernetes.io/pods-to-activate''"

record 'c PodGroupManager =
  scheduleTimeout :: "duration option"
  permittedpodGroup :: 'c
  backedOffpodGroup :: 'c
  groupToJobId :: "string \<rightharpoonup> jobid"
  podToNode :: "string \<rightharpoonup> string"

record ('c, 'w) env =
  client_Get :: "string \<Rightarrow> string \<Rightarrow> PodGroup result"
  podLister_List :: "string \<Rightarrow> string \<Rightarrow> Pod list result"
  NodeInfos_List :: "Pod list list result"
  util_GetPodGroupLabel :: "Pod \<Rightarrow> string"
  cache_New :: "duration \<Rightarrow> duration \<Rightarrow> 'c"
  cache_Add :: "'c \<Rightarrow> string \<Rightarrow> duration \<Rightarrow> 'c"
  cache_Get :: "'c \<Rightarrow> string \<Rightarrow> bool"
  cache_Delete :: "'c \<Rightarrow> string \<Rightarrow> 'c"
  map_order :: "labels \<Rightarrow> string list"
  grpc_Dial :: "'w \<Rightarrow> unit result \<times> 'w"
  grpc_Match :: "MatchRequest \<Rightarrow> 'w \<Rightarrow> MatchResponse result \<times> 'w"
  grpc_Cancel :: "CancelRequest \<Rightarrow> 'w \<Rightarrow> CancelResponse result \<times> 'w"

text \<open>The manager beside the sidecar it talks to.\<close>

record ('c, 'w) world =
  mgr :: "'c PodGroupManager"
  remote :: 'w

section \<open>core.go\<close>

definition NewPodGroupManager :: "('c, 'w) env \<Rightarrow> duration option \<Rightarrow> 'c PodGroupManager" where
  "NewPodGroupManager E timeout =
     \<lparr>scheduleTimeout = timeout,
      permittedpodGroup = cache_New E (3 * Second) (3 * Second),
      backedOffpodGroup = cache_New E (10 * Second) (10 * Second),
      groupToJobId = Map.empty,
      podToNode = Map.empty\<rparr>"

definition BackoffPodGroup ::
    "('c, 'w) env \<Rightarrow> string \<Rightarrow> duration \<Rightarrow> 'c PodGroupManager \<Rightarrow> 'c PodGroupManager" where
  "BackoffPodGroup E groupName backoff m =
     (if backoff = 0 then m
      else m\<lparr>backedOffpodGroup := cache_Add E (backedOffpodGroup m) groupName backoff\<rparr>)"

definition GetNamespacedName :: "Pod \<Rightarrow> string" where
  "GetNamespacedName pod = pod_Namespace pod @ ''/'' @ pod_Name pod"

text \<open>The loop that drops the first pod with the UID of the given pod.\<close>

fun drop_uid :: "string \<Rightarrow> Pod list \<Rightarrow> Pod list" where
  "drop_uid uid [] = []"
| "drop_uid uid (p # ps) = (if pod_UID p = uid then ps else p # drop_uid uid ps)"

definition stash_pods :: "Pod list \<Rightarrow> CycleState \<Rightarrow> CycleState" where
  "stash_pods pods state =
     (case state PodsToActivateKey of
        Some (PodsToActivate m) \<Rightarrow>
          state(PodsToActivateKey \<mapsto> PodsToActivate (fold (\<lambda>p m. m(GetNamespacedName p \<mapsto> p)) pods m))
      | _ \<Rightarrow> state)"

definition ActivateSiblings :: "('c, 'w) env \<Rightarrow> Pod \<Rightarrow> CycleState \<Rightarrow> CycleState" where
  "ActivateSiblings E pod state =
     (let groupName = util_GetPodGroupLabel E pod in
      if groupName = '''' then state
      else
        (case state permitStateKey of
           Some (PermitStateData s) \<Rightarrow>
             if \<not> Activate s then state
             else
               (case podLister_List E (pod_Namespace pod) groupName of
                  Inl err \<Rightarrow> state
                | Inr pods0 \<Rightarrow>
                    let pods = drop_uid (pod_UID pod) pods0
                    in if length pods \<noteq> 0 then stash_pods pods state else state)
         | _ \<Rightarrow> state))"

definition GetStatuses :: "Pod list \<Rightarrow> string" where
  "GetStatuses pods = fold (\<lambda>pod statuses. statuses @ '' '' @ phase_string (pod_Phase pod)) pods ''''"

definition GetPodNode :: "'c PodGroupManager \<Rightarrow> Pod \<Rightarrow> string" where
  "GetPodNode m pod = (case podToNode m (pod_Name pod) of None \<Rightarrow> '''' | Some node \<Rightarrow> node)"

definition GetPodGroup :: "('c, 'w) env \<Rightarrow> Pod \<Rightarrow> string \<times> PodGroup option" where
  "GetPodGroup E pod =
     (let groupName = util_GetPodGroupLabel E pod in
      if length groupName = 0 then ('''', None)
      else (pod_Namespace pod @ ''/'' @ groupName,
            case client_Get E (pod_Namespace pod) groupName of Inl err \<Rightarrow> None | Inr pg \<Rightarrow> Some pg))"

definition CalculateAssignedPods :: "('c, 'w) env \<Rightarrow> string \<Rightarrow> string \<Rightarrow> int64" where
  "CalculateAssignedPods E podGroupName namespace =
     (case NodeInfos_List E of
        Inl err \<Rightarrow> 0
      | Inr nodeInfos \<Rightarrow>
          fold (\<lambda>pods count.
            fold (\<lambda>pod count.
              if util_GetPodGroupLabel E pod = podGroupName \<and> pod_Namespace pod = namespace
                 \<and> pod_NodeName pod \<noteq> '''' then wrap64 (count + 1) else count) pods count)
            nodeInfos 0)"

definition Manager_Permit :: "('c, 'w) env \<Rightarrow> CycleState \<Rightarrow> Pod \<Rightarrow> Status \<times> CycleState" where
  "Manager_Permit E state pod =
     (case GetPodGroup E pod of (groupName, podGroup) \<Rightarrow>
        if groupName = '''' then (PodGroupNotSpecified, state)
        else
          (case podGroup of
             None \<Rightarrow> (PodGroupNotFound, state)
           | Some pg \<Rightarrow>
               let assigned = CalculateAssignedPods E (pg_Name pg) (pg_Namespace pg) in
               if wrap32 (wrap32 assigned + 1) \<ge> MinMember (Spec pg) then (Success, state)
               else (Wait, if assigned = 0
                           then state(permitStateKey \<mapsto> PermitStateData \<lparr>Activate = True\<rparr>)
                           else state)))"

definition Manager_GetCreationTimestamp :: "('c, 'w) env \<Rightarrow> Pod \<Rightarrow> instant \<Rightarrow> instant" where
  "Manager_GetCreationTimestamp E pod ts =
     (let groupName = util_GetPodGroupLabel E pod in
      if length groupName = 0 then ts
      else
        (case client_Get E (pod_Namespace pod) groupName of
           Inl err \<Rightarrow> ts
         | Inr podGroup \<Rightarrow>
             if \<not> IsZero (CreationTime (Status podGroup))
             then CreationTime (Status podGroup)
             else pg_CreationTimestamp podGroup))"

definition DeletePermittedPodGroup ::
    "('c, 'w) env \<Rightarrow> string \<Rightarrow> 'c PodGroupManager \<Rightarrow> 'c PodGroupManager" where
  "DeletePermittedPodGroup E groupName m =
     m\<lparr>permittedpodGroup := cache_Delete E (permittedpodGroup m) groupName\<rparr>"


section \<open>flux.go\<close>

text \<open>\<open>cleanup\<close> forgets the job of a group and the nodes of the pods the lister finds.\<close>

definition cleanup :: "('c, 'w) env \<Rightarrow> Pod \<Rightarrow> string \<Rightarrow> 'c PodGroupManager \<Rightarrow> 'c PodGroupManager" where
  "cleanup E pod groupName m =
     (let m1 = m\<lparr>groupToJobId := (groupToJobId m)(groupName := None)\<rparr> in
      case podLister_List E (pod_Namespace pod) groupName of
        Inl err \<Rightarrow> m1
      | Inr pods \<Rightarrow> m1\<lparr>podToNode := fold (\<lambda>p t. t(pod_Name p := None)) pods (podToNode m1)\<rparr>)"

definition cancelFluxJob ::
    "('c, 'w) env \<Rightarrow> string \<Rightarrow> Pod \<Rightarrow> ('c, 'w) world \<Rightarrow> unit result \<times> ('c, 'w) world" where
  "cancelFluxJob E groupName pod st =
     (case groupToJobId (mgr st) groupName of
        None \<Rightarrow> (Inr (), st)
      | Some job \<Rightarrow>
          (case grpc_Dial E (remote st) of
             (Inl err, w1) \<Rightarrow> (Inl err, st\<lparr>remote := w1\<rparr>)
           | (Inr _, w1) \<Rightarrow>
               (case grpc_Cancel E \<lparr>creq_JobID = int64_of_jobid job\<rparr> w1 of
                  (Inl err, w2) \<Rightarrow> (Inl err, st\<lparr>remote := w2\<rparr>)
                | (Inr response, w2) \<Rightarrow>
                    (Inr (),
                     if cres_Error response = 0
                     then st\<lparr>mgr := cleanup E pod groupName (mgr st), remote := w2\<rparr>
                     else st\<lparr>remote := w2\<rparr>))))"

definition match_request :: "('c, 'w) env \<Rightarrow> Pod \<Rightarrow> PodGroup \<Rightarrow> string \<Rightarrow> MatchRequest" where
  "match_request E pod podGroup groupName =
     \<lparr>mr_Ps = PreparePodJobSpec (map_order E (pod_Labels pod)) pod groupName,
      mr_Request = ''allocate'', mr_Count = MinMember (Spec podGroup)\<rparr>"

definition AskFlux ::
    "('c, 'w) env \<Rightarrow> Pod \<Rightarrow> PodGroup \<Rightarrow> string \<Rightarrow> ('c, 'w) world \<Rightarrow> string list result \<times> ('c, 'w) world" where
  "AskFlux E pod podGroup groupName st0 =
     (let isAllocated = (groupToJobId (mgr st0) groupName \<noteq> None);
          st = (if isAllocated then snd (cancelFluxJob E groupName pod st0) else st0)
      in case grpc_Dial E (remote st) of
           (Inl err, w1) \<Rightarrow> (Inl err, st\<lparr>remote := w1\<rparr>)
         | (Inr _, w1) \<Rightarrow>
             (case grpc_Match E (match_request E pod podGroup groupName) w1 of
                (Inl err, w2) \<Rightarrow> (Inl err, st\<lparr>remote := w2\<rparr>)
              | (Inr response, w2) \<Rightarrow>
                  (Inr (map NodeID (Nodelist response)),
                   st\<lparr>mgr := (mgr st)\<lparr>groupToJobId :=
                        (groupToJobId (mgr st))(groupName \<mapsto> jobid_of_int64 (mres_JobID response))\<rparr>,
                      remote := w2\<rparr>)))"

text \<open>The group of an event: a pod without a PodGroup falls back to a made-up name.\<close>

definition event_group :: "('c, 'w) env \<Rightarrow> Pod \<Rightarrow> string" where
  "event_group E pod =
     (case GetPodGroup E pod of
        (groupName, Some podGroup) \<Rightarrow> groupName
      | (_, None) \<Rightarrow> pg_Name (CreateFakeGroup pod))"

definition UpdatePod :: "('c, 'w) env \<Rightarrow> Pod \<Rightarrow> Pod \<Rightarrow> ('c, 'w) world \<Rightarrow> ('c, 'w) world" where
  "UpdatePod E oldPod newPod st =
     (let groupName = event_group E oldPod in
      case pod_Phase newPod of
        PodPending \<Rightarrow> st
      | PodRunning \<Rightarrow> st
      | PodSucceeded \<Rightarrow>
          if groupToJobId (mgr st) groupName \<noteq> None
          then snd (cancelFluxJob E groupName oldPod st) else st
      | PodFailed \<Rightarrow>
          if groupToJobId (mgr st) groupName \<noteq> None
          then snd (cancelFluxJob E groupName oldPod st) else st
      | PodUnknown \<Rightarrow> st
      | PodPhaseOther _ \<Rightarrow> st)"

definition DeletePod :: "('c, 'w) env \<Rightarrow> Pod \<Rightarrow> ('c, 'w) world \<Rightarrow> ('c, 'w) world" where
  "DeletePod E pod st =
     (let groupName = event_group E pod in
      case pod_Phase pod of
        PodSucceeded \<Rightarrow> st
      | PodPending \<Rightarrow>
          if groupToJobId (mgr st) groupName \<noteq> None
          then snd (cancelFluxJob E groupName pod st) else st
      | PodRunning \<Rightarrow>
          if groupToJobId (mgr st) groupName \<noteq> None
          then snd (cancelFluxJob E groupName pod st) else st
      | _ \<Rightarrow> st)"

section \<open>PreFilter\<close>

text \<open>
  The last loop of \<open>PreFilter\<close>: the node at position \<open>i\<close> goes to the pod at position
  \<open>i\<close>; a node without a pod is an index out of range.
\<close>

fun assign_nodes ::
    "Pod list \<Rightarrow> string list \<Rightarrow> 'c PodGroupManager \<times> CycleState \<Rightarrow> unit result \<times> 'c PodGroupManager \<times> CycleState" where
  "assign_nodes pods [] acc = (Inr (), acc)"
| "assign_nodes [] (node # nodes) acc = (Inl (Panic IndexOutOfRange), acc)"
| "assign_nodes (pod # pods) (node # nodes) (m, state) =
     assign_nodes pods nodes
       (m\<lparr>podToNode := (podToNode m)(pod_Name pod \<mapsto> node)\<rparr>,
        state(pod_Name pod \<mapsto> FluxState \<lparr>NodeName = node\<rparr>))"

text \<open>The end of \<open>PreFilter\<close>, once Fluxion has answered with nodes.\<close>

definition admit_group ::
    "('c, 'w) env \<Rightarrow> string \<Rightarrow> Pod list \<Rightarrow> Pod \<Rightarrow> string list \<Rightarrow> CycleState \<Rightarrow> ('c, 'w) world
     \<Rightarrow> unit result \<times> CycleState \<times> ('c, 'w) world" where
  "admit_group E groupName pods repPod nodes state st0 =
     (let st = (if length nodes \<noteq> length pods then snd (cancelFluxJob E groupName repPod st0) else st0) in
      case assign_nodes pods nodes (mgr st, state) of
        (Inl err, m, state') \<Rightarrow> (Inl err, state', st\<lparr>mgr := m\<rparr>)
      | (Inr _, m, state') \<Rightarrow>
          (case deref (scheduleTimeout m) of
             Inl err \<Rightarrow> (Inl err, state', st\<lparr>mgr := m\<rparr>)
           | Inr timeout \<Rightarrow>
               (Inr (), state',
                st\<lparr>mgr := m\<lparr>permittedpodGroup := cache_Add E (permittedpodGroup m) groupName timeout\<rparr>\<rparr>)))"

definition Manager_PreFilter ::
    "('c, 'w) env \<Rightarrow> Pod \<Rightarrow> CycleState \<Rightarrow> ('c, 'w) world \<Rightarrow> unit result \<times> CycleState \<times> ('c, 'w) world" where
  "Manager_PreFilter E pod state st =
     (case GetPodGroup E pod of
        (groupName, None) \<Rightarrow> (Inr (), state, st)
      | (groupName, Some podGroup) \<Rightarrow>
          if cache_Get E (backedOffpodGroup (mgr st)) groupName then
            (Inl (Err (''podGroup '' @ groupName @ '' failed recently'')), state, st)
          else
            (case podLister_List E (pod_Namespace pod) (util_GetPodGroupLabel E pod) of
               Inl err \<Rightarrow> (Inl (wrap_error ''podLister list pods failed: '' err), state, st)
             | Inr pods \<Rightarrow>
                 if int (length pods) < MinMember (Spec podGroup) then
                   (Inl (Err (''pre-filter pod '' @ pod_Name pod @ '' cannot find enough sibling pods, ''
                      @ ''current pods number: '' @ fmt_d (int (length pods)) @ '', minMember of group: ''
                      @ fmt_d (MinMember (Spec podGroup)))), state, st)
                 else if cache_Get E (permittedpodGroup (mgr st)) groupName then (Inr (), state, st)
                 else
                   (case pods of
                      [] \<Rightarrow> (Inl (Panic IndexOutOfRange), state, st)
                    | repPod # _ \<Rightarrow>
                        (case AskFlux E repPod podGroup groupName st of
                           (Inl err, st1) \<Rightarrow> (Inl err, state, st1)
                         | (Inr nodes, st1) \<Rightarrow>
                             admit_group E groupName pods repPod nodes state st1))))"


section \<open>What each operation changes\<close>

lemma cleanup_simps [simp]:
  "groupToJobId (cleanup E pod g m) = (groupToJobId m)(g := None)"
  "scheduleTimeout (cleanup E pod g m) = scheduleTimeout m"
  "permittedpodGroup (cleanup E pod g m) = permittedpodGroup m"
  "backedOffpodGroup (cleanup E pod g m) = backedOffpodGroup m"
  by (auto simp: cleanup_def Let_def split: sum.splits)

lemma fold_delete_le: "fold (\<lambda>p t. t(f p := None)) ps t \<subseteq>\<^sub>m t"
proof (induction ps arbitrary: t)
  case (Cons p ps)
  have "t(f p := None) \<subseteq>\<^sub>m t" by (simp add: map_le_def)
  from map_le_trans [OF Cons.IH this] show ?case by simp
qed simp

lemma cleanup_podToNode_le: "podToNode (cleanup E pod g m) \<subseteq>\<^sub>m podToNode m"
  by (auto simp: cleanup_def Let_def fold_delete_le split: sum.splits)

text \<open>
  The outcomes of a cancellation: nothing to cancel, the sidecar not reached, the
  cancellation refused, or the job cancelled and forgotten.
\<close>

lemma cancelFluxJob_cases:
  assumes "cancelFluxJob E g pod st = (r, st')"
  obtains (absent) "groupToJobId (mgr st) g = None" "r = Inr ()" "st' = st"
  | (unreachable) job err w1 where "groupToJobId (mgr st) g = Some job"
      "grpc_Dial E (remote st) = (Inl err, w1)" "r = Inl err" "st' = st\<lparr>remote := w1\<rparr>"
  | (unanswered) job w1 err w2 where "groupToJobId (mgr st) g = Some job"
      "grpc_Dial E (remote st) = (Inr (), w1)"
      "grpc_Cancel E \<lparr>creq_JobID = int64_of_jobid job\<rparr> w1 = (Inl err, w2)" "r = Inl err"
      "st' = st\<lparr>remote := w2\<rparr>"
  | (refused) job w1 resp w2 where "groupToJobId (mgr st) g = Some job"
      "grpc_Dial E (remote st) = (Inr (), w1)"
      "grpc_Cancel E \<lparr>creq_JobID = int64_of_jobid job\<rparr> w1 = (Inr resp, w2)" "cres_Error resp \<noteq> 0"
      "r = Inr ()" "st' = st\<lparr>remote := w2\<rparr>"
  | (cancelled) job w1 resp w2 where "groupToJobId (mgr st) g = Some job"
      "grpc_Dial E (remote st) = (Inr (), w1)"
      "grpc_Cancel E \<lparr>creq_JobID = int64_of_jobid job\<rparr> w1 = (Inr resp, w2)" "cres_Error resp = 0"
      "r = Inr ()" "st' = st\<lparr>mgr := cleanup E pod g (mgr st), remote := w2\<rparr>"
  using assms unfolding cancelFluxJob_def
  by (auto split: option.splits prod.splits sum.splits if_splits)

lemma cancelFluxJob_mgr:
  assumes "cancelFluxJob E g pod st = (r, st')"
  shows "mgr st' = mgr st \<or> mgr st' = cleanup E pod g (mgr st)"
  using assms by (cases rule: cancelFluxJob_cases) auto

lemma cancelFluxJob_podToNode_le:
  "cancelFluxJob E g pod st = (r, st') \<Longrightarrow> podToNode (mgr st') \<subseteq>\<^sub>m podToNode (mgr st)"
  by (drule cancelFluxJob_mgr) (auto simp: cleanup_podToNode_le)

lemma cancelFluxJob_dom:
  "cancelFluxJob E g pod st = (r, st') \<Longrightarrow> dom (groupToJobId (mgr st')) \<subseteq> dom (groupToJobId (mgr st))"
  by (drule cancelFluxJob_mgr) (auto split: if_splits)

lemma cancelFluxJob_timeout [simp]:
  "scheduleTimeout (mgr (snd (cancelFluxJob E g pod st))) = scheduleTimeout (mgr st)"
  "permittedpodGroup (mgr (snd (cancelFluxJob E g pod st))) = permittedpodGroup (mgr st)"
  "backedOffpodGroup (mgr (snd (cancelFluxJob E g pod st))) = backedOffpodGroup (mgr st)"
  using cancelFluxJob_mgr [OF surjective_pairing, of E g pod st] by auto

text \<open>\<open>AskFlux\<close> first releases the job the group may hold, then asks for a new one.\<close>

definition released :: "('c, 'w) env \<Rightarrow> string \<Rightarrow> Pod \<Rightarrow> ('c, 'w) world \<Rightarrow> ('c, 'w) world" where
  "released E g pod st = snd (cancelFluxJob E g pod st)"

lemma released_absent: "groupToJobId (mgr st) g = None \<Longrightarrow> released E g pod st = st"
  by (simp add: released_def cancelFluxJob_def)

lemma AskFlux_cases:
  assumes "AskFlux E pod pg g st = (r, st')"
  obtains (unreachable) err w1 where "grpc_Dial E (remote (released E g pod st)) = (Inl err, w1)" "r = Inl err"
      "st' = (released E g pod st)\<lparr>remote := w1\<rparr>"
  | (unmatched) w1 err w2 where "grpc_Dial E (remote (released E g pod st)) = (Inr (), w1)"
      "grpc_Match E (match_request E pod pg g) w1 = (Inl err, w2)" "r = Inl err"
      "st' = (released E g pod st)\<lparr>remote := w2\<rparr>"
  | (matched) w1 resp w2 where "grpc_Dial E (remote (released E g pod st)) = (Inr (), w1)"
      "grpc_Match E (match_request E pod pg g) w1 = (Inr resp, w2)" "r = Inr (map NodeID (Nodelist resp))"
      "mgr st' = (mgr (released E g pod st))\<lparr>groupToJobId :=
         (groupToJobId (mgr (released E g pod st)))(g \<mapsto> jobid_of_int64 (mres_JobID resp))\<rparr>"
      "remote st' = w2"
proof -
  have "(if groupToJobId (mgr st) g \<noteq> None then snd (cancelFluxJob E g pod st) else st) = released E g pod st"
    using released_absent [of st g E pod] by (simp add: released_def)
  with assms show thesis unfolding AskFlux_def Let_def
    by (auto intro: that split: prod.splits sum.splits)
qed

lemma AskFlux_podToNode_le:
  assumes "AskFlux E pod pg g st = (r, st')"
  shows "podToNode (mgr st') \<subseteq>\<^sub>m podToNode (mgr st)"
proof -
  have "podToNode (mgr (released E g pod st)) \<subseteq>\<^sub>m podToNode (mgr st)"
    unfolding released_def by (rule cancelFluxJob_podToNode_le [OF surjective_pairing])
  with assms show ?thesis by (cases rule: AskFlux_cases) auto
qed

section \<open>Assigning nodes\<close>

lemma assign_nodes_fits:
  "length nodes \<le> length pods \<Longrightarrow>
   assign_nodes pods nodes (m, s) =
     (Inr (), m\<lparr>podToNode := (podToNode m)(map pod_Name pods [\<mapsto>] nodes)\<rparr>,
      s(map pod_Name pods [\<mapsto>] map (\<lambda>n. FluxState \<lparr>NodeName = n\<rparr>) nodes))"
  by (induction pods nodes "(m, s)" arbitrary: m s rule: assign_nodes.induct) simp_all

lemma assign_nodes_overflow:
  "length pods < length nodes \<Longrightarrow> fst (assign_nodes pods nodes acc) = Inl (Panic IndexOutOfRange)"
  by (induction pods nodes acc rule: assign_nodes.induct) simp_all

lemma map_upds_nth:
  "distinct xs \<Longrightarrow> i < length xs \<Longrightarrow> i < length ys \<Longrightarrow> (m(xs [\<mapsto>] ys)) (xs ! i) = Some (ys ! i)"
proof (induction xs arbitrary: m ys i)
  case (Cons x xs)
  then obtain y ys' where ys: "ys = y # ys'" by (cases ys) auto
  show ?case
  proof (cases i)
    case 0
    with Cons.prems show ?thesis by (simp add: ys)
  next
    case (Suc j)
    moreover from Suc Cons.prems have "xs ! j \<noteq> x" by auto
    ultimately show ?thesis using Cons.prems Cons.IH [of j ys'] by (simp add: ys)
  qed
qed simp

lemma assign_nodes_frame:
  "assign_nodes pods nodes (m, s) = (r, m', s') \<Longrightarrow>
   scheduleTimeout m' = scheduleTimeout m \<and> groupToJobId m' = groupToJobId m
   \<and> permittedpodGroup m' = permittedpodGroup m \<and> backedOffpodGroup m' = backedOffpodGroup m"
  by (induction pods nodes "(m, s)" arbitrary: m s rule: assign_nodes.induct) auto

section \<open>PreFilter\<close>

text \<open>
  The state in which \<open>PreFilter\<close> asks Fluxion: the group exists, is not backed off,
  has enough pods and has not been admitted already.
\<close>

definition asks_fluxion :: "('c, 'w) env \<Rightarrow> Pod \<Rightarrow> ('c, 'w) world \<Rightarrow> (string \<times> PodGroup \<times> Pod list) option" where
  "asks_fluxion E pod st =
     (case GetPodGroup E pod of
        (_, None) \<Rightarrow> None
      | (g, Some pg) \<Rightarrow>
          (case podLister_List E (pod_Namespace pod) (util_GetPodGroupLabel E pod) of
             Inl _ \<Rightarrow> None
           | Inr pods \<Rightarrow>
               if cache_Get E (backedOffpodGroup (mgr st)) g \<or> int (length pods) < MinMember (Spec pg)
                  \<or> cache_Get E (permittedpodGroup (mgr st)) g
               then None else Some (g, pg, pods)))"

lemma PreFilter_not_asking:
  "asks_fluxion E pod st = None \<Longrightarrow> \<exists>r. Manager_PreFilter E pod state st = (r, state, st)"
  by (auto simp: asks_fluxion_def Manager_PreFilter_def split: prod.splits option.splits sum.splits if_splits)

lemma PreFilter_asking:
  "asks_fluxion E pod st = Some (g, pg, pods) \<Longrightarrow>
   Manager_PreFilter E pod state st =
     (case pods of
        [] \<Rightarrow> (Inl (Panic IndexOutOfRange), state, st)
      | repPod # _ \<Rightarrow>
          (case AskFlux E repPod pg g st of
             (Inl err, st1) \<Rightarrow> (Inl err, state, st1)
           | (Inr nodes, st1) \<Rightarrow> admit_group E g pods repPod nodes state st1))"
  by (auto simp: asks_fluxion_def Manager_PreFilter_def split: prod.splits option.splits sum.splits if_splits)

lemma PreFilter_asking_hd:
  assumes "asks_fluxion E pod st = Some (g, pg, pods)" and "pods \<noteq> []"
    and "AskFlux E (hd pods) pg g st = (Inr nodes, st1)"
  shows "Manager_PreFilter E pod state st = admit_group E g pods (hd pods) nodes state st1"
  using assms(2,3) by (cases pods) (simp_all add: PreFilter_asking [OF assms(1)])

lemma assign_nodes_panics: "assign_nodes pods nodes acc = (Inl e, x) \<Longrightarrow> e = Panic IndexOutOfRange"
  by (induction pods nodes acc rule: assign_nodes.induct) auto

lemma admit_group_error:
  "admit_group E g pods rep nodes state st = (Inl (Err e), state', st') \<Longrightarrow> False"
  by (auto simp: admit_group_def Let_def deref_def dest: assign_nodes_panics
      split: prod.splits sum.splits option.splits)

lemma admit_group_exact:
  assumes "length nodes = length pods" and "scheduleTimeout (mgr st) = Some timeout"
  shows "admit_group E g pods rep nodes state st =
    (Inr (), state(map pod_Name pods [\<mapsto>] map (\<lambda>n. FluxState \<lparr>NodeName = n\<rparr>) nodes),
     st\<lparr>mgr := (mgr st)\<lparr>podToNode := (podToNode (mgr st))(map pod_Name pods [\<mapsto>] nodes),
         permittedpodGroup := cache_Add E (permittedpodGroup (mgr st)) g timeout\<rparr>\<rparr>)"
  using assms by (simp add: admit_group_def assign_nodes_fits deref_def)

text \<open>
  A concrete environment: a group of two pods, caches as lists of keys, and a sidecar
  that hands out two nodes per match and counts its jobs.
\<close>

definition demo_pods :: "Pod list" where
  "demo_pods = [plain_pod ''ns'' ''a'' (Some [PodGroupLabel \<mapsto> ''g'']),
                plain_pod ''ns'' ''b'' (Some [PodGroupLabel \<mapsto> ''g''])]"

definition demo_group :: PodGroup where
  "demo_group = zero_PodGroup\<lparr>pg_Name := ''g'', pg_Namespace := ''ns'',
     Spec := zero_PodGroupSpec\<lparr>MinMember := 2\<rparr>\<rparr>"

definition demo_env :: "(string list, jobid list \<times> jobid) env" where
  "demo_env =
     \<lparr>client_Get = (\<lambda>ns n. if ns = ''ns'' \<and> n = ''g'' then Inr demo_group else Inl (Err ''not found'')),
      podLister_List = (\<lambda>ns v. Inr (filter (\<lambda>p. pod_Namespace p = ns \<and> GetPodGroupLabel p = v) demo_pods)),
      NodeInfos_List = Inr [],
      util_GetPodGroupLabel = GetPodGroupLabel,
      cache_New = (\<lambda>_ _. []), cache_Add = (\<lambda>c k d. k # c), cache_Get = (\<lambda>c k. k \<in> set c),
      cache_Delete = (\<lambda>c k. removeAll k c),
      map_order = (\<lambda>_. [PodGroupLabel]),
      grpc_Dial = (\<lambda>w. (Inr (), w)),
      grpc_Match = (\<lambda>req (live, next).
         if next \<in> set live then (Inl (Err ''no more job ids''), live, next)
         else (Inr \<lparr>PodID = ps_Id (mr_Ps req),
                    Nodelist = [\<lparr>NodeID = ''n1'', Tasks = 1\<rparr>, \<lparr>NodeID = ''n2'', Tasks = 1\<rparr>],
                    mres_JobID = int64_of_jobid next\<rparr>, next # live, next + 1)),
      grpc_Cancel = (\<lambda>req (live, next). (Inr \<lparr>cres_JobID = creq_JobID req, cres_Error = 0\<rparr>,
         removeAll (jobid_of_int64 (creq_JobID req)) live, next))\<rparr>"

definition demo_start :: "(string list, jobid list \<times> jobid) world" where
  "demo_start = \<lparr>mgr = NewPodGroupManager demo_env (Some (300 * Second)), remote = ([], 1)\<rparr>"

lemma demo_pod_simps [simp]:
  "demo_pods \<noteq> []" "length demo_pods = 2" "distinct (map pod_Name demo_pods)"
  "pod_Namespace (hd demo_pods) = ''ns''" "GetPodGroupLabel (hd demo_pods) = ''g''"
  "MinMember (Spec demo_group) = 2"
  by (simp_all add: demo_pods_def demo_group_def plain_pod_def GetPodGroupLabel_def label_or_empty_def)

lemma demo_env_simps [simp]:
  "client_Get demo_env ''ns'' ''g'' = Inr demo_group" "podLister_List demo_env ''ns'' ''g'' = Inr demo_pods"
  "util_GetPodGroupLabel demo_env = GetPodGroupLabel"
  "cache_New demo_env d d' = []" "cache_Add demo_env c k d = k # c" "cache_Get demo_env c k \<longleftrightarrow> k \<in> set c"
  by (simp_all add: demo_env_def demo_pods_def plain_pod_def GetPodGroupLabel_def label_or_empty_def)

lemma demo_start_simps [simp]:
  "scheduleTimeout (mgr demo_start) = Some (300 * Second)" "permittedpodGroup (mgr demo_start) = []"
  "backedOffpodGroup (mgr demo_start) = []" "groupToJobId (mgr demo_start) = Map.empty"
  "podToNode (mgr demo_start) = Map.empty"
  by (simp_all add: demo_start_def NewPodGroupManager_def)

lemma demo_asks: "asks_fluxion demo_env (hd demo_pods) demo_start = Some (''ns/g'', demo_group, demo_pods)"
  by (simp add: asks_fluxion_def GetPodGroup_def)

lemma demo_AskFlux:
  "AskFlux demo_env (hd demo_pods) demo_group ''ns/g'' demo_start =
     (Inr [''n1'', ''n2''], demo_start\<lparr>mgr := (mgr demo_start)\<lparr>groupToJobId := [''ns/g'' \<mapsto> 1]\<rparr>,
        remote := ([1], 2)\<rparr>)"
  by (simp add: demo_env_def demo_start_def AskFlux_def NewPodGroupManager_def)

lemma PreFilter_assigns:
  assumes "asks_fluxion E pod st = Some (g, pg, pods)" and "pods \<noteq> []"
    and "AskFlux E (hd pods) pg g st = (Inr nodes, st1)"
    and "length nodes = length pods" and "distinct (map pod_Name pods)"
    and "scheduleTimeout (mgr st1) = Some timeout"
    and "Manager_PreFilter E pod state st = (r, state', st')"
  shows "r = Inr ()
    \<and> (\<forall>i<length pods. GetPodNode (mgr st') (pods ! i) = nodes ! i
         \<and> state' (pod_Name (pods ! i)) = Some (FluxState \<lparr>NodeName = nodes ! i\<rparr>))
    \<and> (\<forall>p. pod_Name p \<notin> pod_Name ` set pods \<longrightarrow> GetPodNode (mgr st') p = GetPodNode (mgr st1) p)
    \<and> permittedpodGroup (mgr st') = cache_Add E (permittedpodGroup (mgr st1)) g timeout
    \<and> groupToJobId (mgr st') = groupToJobId (mgr st1)"
proof -
  from PreFilter_asking_hd [OF assms(1-3)] assms(7) admit_group_exact [OF assms(4,6)] have
    res: "r = Inr ()" "state' = state(map pod_Name pods [\<mapsto>] map (\<lambda>n. FluxState \<lparr>NodeName = n\<rparr>) nodes)"
      "st' = st1\<lparr>mgr := (mgr st1)\<lparr>podToNode := (podToNode (mgr st1))(map pod_Name pods [\<mapsto>] nodes),
         permittedpodGroup := cache_Add E (permittedpodGroup (mgr st1)) g timeout\<rparr>\<rparr>"
    by simp_all
  have "GetPodNode (mgr st') (pods ! i) = nodes ! i"
    and "state' (pod_Name (pods ! i)) = Some (FluxState \<lparr>NodeName = nodes ! i\<rparr>)" if "i < length pods" for i
    using map_upds_nth [OF assms(5), of i nodes] that assms(4)
      map_upds_nth [OF assms(5), of i "map (\<lambda>n. FluxState \<lparr>NodeName = n\<rparr>) nodes"]
    by (simp_all add: GetPodNode_def res)
  moreover have "GetPodNode (mgr st') p = GetPodNode (mgr st1) p" if "pod_Name p \<notin> pod_Name ` set pods" for p
    using that by (simp add: GetPodNode_def res(3) map_upds_apply_nontin)
  ultimately show ?thesis by (simp add: res)
qed

text \<open>
  A group is admitted as a whole: when \<open>PreFilter\<close> asks Fluxion and gets one node
  per pod, every pod of the group (not only the pod being scheduled) gets the node at
  its position, in the manager and in the cycle state, no other pod's assignment
  changes, and the group is marked as admitted for the schedule timeout.
\<close>

theorem PreFilter_assigns_group:
  assumes "asks_fluxion E pod st = Some (g, pg, pods)" and "pods \<noteq> []"
    and "AskFlux E (hd pods) pg g st = (Inr nodes, st1)"
    and "length nodes = length pods" and "distinct (map pod_Name pods)"
    and "scheduleTimeout (mgr st1) = Some timeout"
    and "Manager_PreFilter E pod state st = (r, state', st')"
  shows "r = Inr ()
    \<and> (\<forall>i<length pods. GetPodNode (mgr st') (pods ! i) = nodes ! i
         \<and> state' (pod_Name (pods ! i)) = Some (FluxState \<lparr>NodeName = nodes ! i\<rparr>))
    \<and> (\<forall>p. pod_Name p \<notin> pod_Name ` set pods \<longrightarrow> GetPodNode (mgr st') p = GetPodNode (mgr st1) p)
    \<and> permittedpodGroup (mgr st') = cache_Add E (permittedpodGroup (mgr st1)) g timeout
    \<and> groupToJobId (mgr st') = groupToJobId (mgr st1)"
  by (rule PreFilter_assigns [OF assms])

theorem PreFilter_assigns_group_witness:
  "\<exists>state' st'. Manager_PreFilter demo_env (hd demo_pods) Map.empty demo_start = (Inr (), state', st')
      \<and> GetPodNode (mgr st') (demo_pods ! 1) = ''n2''"
proof -
  obtain r state' st' where run: "Manager_PreFilter demo_env (hd demo_pods) Map.empty demo_start = (r, state', st')"
    by (cases "Manager_PreFilter demo_env (hd demo_pods) Map.empty demo_start")
  from PreFilter_assigns_group [OF demo_asks _ demo_AskFlux _ _ _ run] have
    "r = Inr ()" "GetPodNode (mgr st') (demo_pods ! 1) = ''n2''"
    by simp_all
  with run show ?thesis by blast
qed

text \<open>
  C26. An error admits nothing: when \<open>PreFilter\<close> fails with an error, no pod gains a
  node, no cycle state is written and the group is not marked as admitted.
\<close>

theorem PreFilter_error_assigns_nothing:
  assumes "Manager_PreFilter E pod state st = (Inl (Err e), state', st')"
  shows "state' = state \<and> podToNode (mgr st') \<subseteq>\<^sub>m podToNode (mgr st)
      \<and> permittedpodGroup (mgr st') = permittedpodGroup (mgr st)"
proof (cases "asks_fluxion E pod st")
  case None
  with PreFilter_not_asking [of E pod st state] assms show ?thesis by auto
next
  case (Some x)
  obtain g pg pods where "x = (g, pg, pods)" by (cases x)
  with assms PreFilter_asking [of E pod st g pg pods state] Some admit_group_error
  obtain rep where ask: "AskFlux E rep pg g st = (Inl (Err e), st')" and "state' = state"
    by (fastforce split: list.splits prod.splits sum.splits)
  moreover have "permittedpodGroup (mgr st') = permittedpodGroup (mgr st)"
    using ask by (cases rule: AskFlux_cases) (auto simp: released_def)
  ultimately show ?thesis using AskFlux_podToNode_le [OF ask] by simp
qed

theorem PreFilter_error_assigns_nothing_witness:
  "\<exists>e st'. Manager_PreFilter (demo_env\<lparr>grpc_Dial := \<lambda>w. (Inl (Err ''refused''), w)\<rparr>) (hd demo_pods)
      Map.empty demo_start = (Inl (Err e), Map.empty, st') \<and> GetPodNode (mgr st') (hd demo_pods) = ''''"
proof -
  let ?E = "demo_env\<lparr>grpc_Dial := \<lambda>w. (Inl (Err ''refused''), w)\<rparr>"
  have "asks_fluxion ?E (hd demo_pods) demo_start = Some (''ns/g'', demo_group, demo_pods)"
    by (simp add: asks_fluxion_def GetPodGroup_def)
  note pf = PreFilter_asking [OF this, of Map.empty]
  have "\<exists>state' st'. Manager_PreFilter ?E (hd demo_pods) Map.empty demo_start = (Inl (Err ''refused''), state', st')"
    unfolding pf using demo_pod_simps(1) by (simp add: AskFlux_def split: list.split)
  then obtain state' st' where
    run: "Manager_PreFilter ?E (hd demo_pods) Map.empty demo_start = (Inl (Err ''refused''), state', st')"
    by blast
  from PreFilter_error_assigns_nothing [OF run]
  have "state' = Map.empty" and "podToNode (mgr st') = Map.empty"
    by (simp_all add: map_le_antisym)
  then have "GetPodNode (mgr st') (hd demo_pods) = ''''" by (simp add: GetPodNode_def)
  with run \<open>state' = Map.empty\<close> show ?thesis by blast
qed

end
