(* ===== verification/Manager_Jobs.thy ===== *)
theory Manager_Jobs
  imports PodGroup_Manager
begin

text \<open>
  The manager over time. Its operations are the steps of a transition system in which
  the cluster (pods, groups, listers) changes freely between steps; the reachable
  states keep the job table consistent with the jobs that are live in Fluxion.
\<close>

section \<open>What Fluxion promises\<close>

text \<open>
  The documented behaviour of the sidecar, as far as jobs go: a successful match
  (of a request for at least one core per pod) allocates a job with a fresh id, a successful cancellation (error code 0) frees the
  job, every other answer leaves the jobs alone. \<open>live\<close> reads the jobs off its state.
\<close>

definition fluxion_laws :: "('w \<Rightarrow> jobid set) \<Rightarrow> ('c, 'w) env \<Rightarrow> bool" where
  "fluxion_laws live E \<longleftrightarrow>
     (\<forall>w. live (snd (grpc_Dial E w)) = live w)
   \<and> (\<forall>req w. ps_Cpu (mr_Ps req) \<noteq> 0 \<longrightarrow> (case grpc_Match E req w of
        (Inl _, w') \<Rightarrow> live w' = live w
      | (Inr resp, w') \<Rightarrow> jobid_of_int64 (mres_JobID resp) \<notin> live w
           \<and> live w' = insert (jobid_of_int64 (mres_JobID resp)) (live w)))
   \<and> (\<forall>req w. case grpc_Cancel E req w of
        (Inl _, w') \<Rightarrow> live w' = live w
      | (Inr resp, w') \<Rightarrow>
          live w' = (if cres_Error resp = 0 then live w - {jobid_of_int64 (creq_JobID req)} else live w))"

lemma fluxion_lawsD:
  assumes "fluxion_laws live E"
  shows "grpc_Dial E w = (r, w1) \<Longrightarrow> live w1 = live w"
    and "grpc_Match E (match_request E pod pg g) w = (Inl err, w1) \<Longrightarrow> live w1 = live w"
    and "grpc_Match E (match_request E pod pg g) w = (Inr resp, w1) \<Longrightarrow> jobid_of_int64 (mres_JobID resp) \<notin> live w"
    and "grpc_Match E (match_request E pod pg g) w = (Inr resp, w1) \<Longrightarrow>
      live w1 = insert (jobid_of_int64 (mres_JobID resp)) (live w)"
    and "grpc_Cancel E creq w = (Inl err, w1) \<Longrightarrow> live w1 = live w"
    and "grpc_Cancel E creq w = (Inr cresp, w1) \<Longrightarrow> cres_Error cresp \<noteq> 0 \<Longrightarrow> live w1 = live w"
    and "grpc_Cancel E creq w = (Inr cresp, w1) \<Longrightarrow> cres_Error cresp = 0 \<Longrightarrow>
      live w1 = live w - {jobid_of_int64 (creq_JobID creq)}"
proof -
  let ?req = "match_request E pod pg g"
  from assms have dial: "\<And>w. live (snd (grpc_Dial E w)) = live w"
    and mtch: "\<And>req w. ps_Cpu (mr_Ps req) \<noteq> 0 \<Longrightarrow> case grpc_Match E req w of (Inl _, w') \<Rightarrow> live w' = live w
      | (Inr resp, w') \<Rightarrow> jobid_of_int64 (mres_JobID resp) \<notin> live w
           \<and> live w' = insert (jobid_of_int64 (mres_JobID resp)) (live w)"
    and cncl: "\<And>req w. case grpc_Cancel E req w of (Inl _, w') \<Rightarrow> live w' = live w
      | (Inr resp, w') \<Rightarrow>
          live w' = (if cres_Error resp = 0 then live w - {jobid_of_int64 (creq_JobID req)} else live w)"
    by (auto simp: fluxion_laws_def)
  have cpu: "ps_Cpu (mr_Ps ?req) \<noteq> 0" by (simp add: match_request_def PreparePodJobSpec_Cpu_nonzero)
  show "grpc_Dial E w = (r, w1) \<Longrightarrow> live w1 = live w" using dial [of w] by simp
  show "grpc_Match E ?req w = (Inl err, w1) \<Longrightarrow> live w1 = live w"
    and "grpc_Match E ?req w = (Inr resp, w1) \<Longrightarrow> jobid_of_int64 (mres_JobID resp) \<notin> live w"
    and "grpc_Match E ?req w = (Inr resp, w1) \<Longrightarrow> live w1 = insert (jobid_of_int64 (mres_JobID resp)) (live w)"
    using mtch [OF cpu, where w = w] by simp_all
  show "grpc_Cancel E creq w = (Inl err, w1) \<Longrightarrow> live w1 = live w"
    and "grpc_Cancel E creq w = (Inr cresp, w1) \<Longrightarrow> cres_Error cresp \<noteq> 0 \<Longrightarrow> live w1 = live w"
    and "grpc_Cancel E creq w = (Inr cresp, w1) \<Longrightarrow> cres_Error cresp = 0 \<Longrightarrow>
      live w1 = live w - {jobid_of_int64 (creq_JobID creq)}"
    using cncl [where req = creq and w = w] by simp_all
qed

section \<open>The job table\<close>

text \<open>Every group of the table has a job of its own, and it is live.\<close>

definition jobs_ok :: "('w \<Rightarrow> jobid set) \<Rightarrow> ('c, 'w) world \<Rightarrow> bool" where
  "jobs_ok live st \<longleftrightarrow>
     inj_on (groupToJobId (mgr st)) (dom (groupToJobId (mgr st)))
   \<and> ran (groupToJobId (mgr st)) \<subseteq> live (remote st)"

text \<open>Every live job is the job of some group: nothing is leaked.\<close>

definition no_leak :: "('w \<Rightarrow> jobid set) \<Rightarrow> ('c, 'w) world \<Rightarrow> bool" where
  "no_leak live st \<longleftrightarrow> live (remote st) \<subseteq> ran (groupToJobId (mgr st))"

lemma ran_delete_inj:
  assumes "inj_on m (dom m)" and "m k = Some v"
  shows "ran (m(k := None)) = ran m - {v}"
proof -
  have k: "a = k" if "m a = Some v" for a
    by (rule inj_onD [OF assms(1)]) (use that assms(2) in auto)
  have "ran (m(k := None)) = {x. \<exists>a. a \<noteq> k \<and> m a = Some x}" by (auto simp: ran_def)
  also have "\<dots> = ran m - {v}" using assms(2) by (auto simp: ran_def dest: k) (metis option.inject)
  finally show ?thesis .
qed

lemma inj_on_delete: "inj_on m (dom m) \<Longrightarrow> inj_on (m(k := None)) (dom (m(k := None)))"
  by (auto simp: inj_on_def)

lemma inj_on_fresh:
  assumes "inj_on m (dom m)" and "v \<notin> ran m"
  shows "inj_on (m(k \<mapsto> v)) (dom (m(k \<mapsto> v)))"
  using assms by (auto simp: inj_on_def ran_def split: if_splits)

lemma ran_update: "ran (m(k \<mapsto> v)) \<subseteq> insert v (ran m)"
  by (auto simp: ran_def)

lemma cancelFluxJob_jobs:
  assumes "fluxion_laws live E" and "jobs_ok live st" and "cancelFluxJob E g pod st = (r, st')"
  shows "jobs_ok live st'" and "no_leak live st \<Longrightarrow> no_leak live st'"
proof -
  have "jobs_ok live st' \<and> (no_leak live st \<longrightarrow> no_leak live st')"
    using assms(3)
  proof (cases rule: cancelFluxJob_cases)
    case (cancelled job w1 resp w2)
    have inj: "inj_on (groupToJobId (mgr st)) (dom (groupToJobId (mgr st)))"
      and sub: "ran (groupToJobId (mgr st)) \<subseteq> live (remote st)" using assms(2) by (simp_all add: jobs_ok_def)
    have "live w2 = live (remote st) - {job}"
      using fluxion_lawsD(1,7) [OF assms(1)] cancelled(2-4) by fastforce
    with cancelled sub ran_delete_inj [OF inj cancelled(1)] inj_on_delete [OF inj, of g] show ?thesis
      by (auto simp: jobs_ok_def no_leak_def)
  qed (use assms(2) in \<open>auto simp: jobs_ok_def no_leak_def fluxion_lawsD [OF assms(1)]\<close>)
  then show "jobs_ok live st'" and "no_leak live st \<Longrightarrow> no_leak live st'" by blast+
qed

lemma released_jobs:
  assumes "fluxion_laws live E" and "jobs_ok live st"
  shows "jobs_ok live (released E g pod st)" and "no_leak live st \<Longrightarrow> no_leak live (released E g pod st)"
  using cancelFluxJob_jobs [OF assms surjective_pairing] by (simp_all add: released_def)

lemma AskFlux_jobs:
  assumes "fluxion_laws live E" and "jobs_ok live st" and "AskFlux E pod pg g st = (r, st')"
  shows "jobs_ok live st'"
    and "no_leak live st \<Longrightarrow> groupToJobId (mgr (released E g pod st)) g = None \<Longrightarrow> no_leak live st'"
proof -
  let ?s = "released E g pod st"
  note rel = released_jobs [OF assms(1,2), of g pod] and law = fluxion_lawsD [OF assms(1)]
  have "jobs_ok live st' \<and> (no_leak live ?s \<longrightarrow> groupToJobId (mgr ?s) g = None \<longrightarrow> no_leak live st')"
    using assms(3)
  proof (cases rule: AskFlux_cases)
    case (matched w1 resp w2)
    let ?j = "jobid_of_int64 (mres_JobID resp)" and ?m = "groupToJobId (mgr ?s)"
    have live: "live w2 = insert ?j (live (remote ?s))" "?j \<notin> live (remote ?s)"
      using law(1) [OF matched(1)] law(3,4) [OF matched(2)] by simp_all
    then have "?j \<notin> ran ?m" using rel(1) by (auto simp: jobs_ok_def)
    then have "inj_on (?m(g \<mapsto> ?j)) (dom (?m(g \<mapsto> ?j)))" using rel(1) by (intro inj_on_fresh) (simp_all add: jobs_ok_def)
    moreover have "ran (?m(g \<mapsto> ?j)) \<subseteq> live w2" using ran_update [of ?m g ?j] rel(1) live by (auto simp: jobs_ok_def)
    ultimately have "jobs_ok live st'" using matched(4,5) by (simp add: jobs_ok_def)
    moreover have "no_leak live st'" if "no_leak live ?s" "?m g = None"
      using that live matched(4,5) ran_map_upd [of ?m g ?j] by (auto simp: no_leak_def)
    ultimately show ?thesis by blast
  qed (use rel law in \<open>auto simp: jobs_ok_def no_leak_def\<close>)
  then show "jobs_ok live st'"
    and "no_leak live st \<Longrightarrow> groupToJobId (mgr ?s) g = None \<Longrightarrow> no_leak live st'"
    using rel(2) by blast+
qed


text \<open>\<open>admit_group\<close> touches jobs only by the cancellation it may start with.\<close>

lemma admit_group_jobs_eq:
  assumes "admit_group E g pods rep nodes state st = (r, state', st')"
  obtains st1 where "st1 = st \<or> st1 = released E g rep st"
    and "groupToJobId (mgr st') = groupToJobId (mgr st1)" and "remote st' = remote st1"
proof
  let ?st1 = "if length nodes \<noteq> length pods then released E g rep st else st"
  show "?st1 = st \<or> ?st1 = released E g rep st" by simp
  show "groupToJobId (mgr st') = groupToJobId (mgr ?st1)" and "remote st' = remote ?st1"
    using assms by (auto simp: admit_group_def Let_def released_def dest!: assign_nodes_frame
        split: prod.splits sum.splits)
qed

lemma jobs_ok_eq:
  "groupToJobId (mgr st') = groupToJobId (mgr st) \<Longrightarrow> remote st' = remote st \<Longrightarrow>
   jobs_ok live st' = jobs_ok live st"
  by (simp add: jobs_ok_def)

text \<open>What holds of the job table and the sidecar after \<open>PreFilter\<close>.\<close>

lemma PreFilter_preserves:
  assumes "Manager_PreFilter E pod state st = (r, state', st')" and "P st"
    and ask: "\<And>rep pg g r s. AskFlux E rep pg g st = (r, s) \<Longrightarrow> P s"
    and rel: "\<And>g rep s. P s \<Longrightarrow> P (released E g rep s)"
    and ext: "\<And>s s'. P s \<Longrightarrow> groupToJobId (mgr s') = groupToJobId (mgr s) \<Longrightarrow> remote s' = remote s \<Longrightarrow> P s'"
  shows "P st'"
proof (cases "asks_fluxion E pod st")
  case None
  with PreFilter_not_asking [of E pod st state] assms(1,2) show ?thesis by auto
next
  case (Some x)
  obtain g pg pods where x: "x = (g, pg, pods)" by (cases x)
  note pf = PreFilter_asking [OF Some [unfolded x], of state]
  show ?thesis
  proof (cases pods)
    case Nil
    with pf assms(1,2) show ?thesis by simp
  next
    case (Cons rep rest)
    obtain r1 st1 where run: "AskFlux E rep pg g st = (r1, st1)" by (cases "AskFlux E rep pg g st")
    note ok = ask [OF run]
    show ?thesis
    proof (cases r1)
      case (Inl e)
      with pf Cons run ok assms(1) show ?thesis by simp
    next
      case (Inr nodes)
      with pf Cons run assms(1) have "admit_group E g pods rep nodes state st1 = (r, state', st')" by simp
      then show ?thesis by (rule admit_group_jobs_eq) (use ok rel [OF ok] ext in blast)
    qed
  qed
qed

lemma UpdatePod_cases: "UpdatePod E p q st = st \<or> UpdatePod E p q st = released E (event_group E p) p st"
  by (simp add: UpdatePod_def released_def Let_def split: PodPhase.splits)

lemma DeletePod_cases: "DeletePod E p st = st \<or> DeletePod E p st = released E (event_group E p) p st"
  by (simp add: DeletePod_def released_def Let_def split: PodPhase.splits)

section \<open>Reachable states\<close>

text \<open>
  One step of the manager. The environment of a step is any that satisfies \<open>P\<close>: the
  cluster may change between steps. \<open>expire\<close> is the janitor of the caches.
\<close>

inductive mstep :: "(('c, 'w) env \<Rightarrow> bool) \<Rightarrow> ('c, 'w) world \<Rightarrow> ('c, 'w) world \<Rightarrow> bool" for P where
  prefilter: "P E \<Longrightarrow> Manager_PreFilter E pod state st = (r, state', st') \<Longrightarrow> mstep P st st'"
| update: "P E \<Longrightarrow> mstep P st (UpdatePod E oldPod newPod st)"
| delete: "P E \<Longrightarrow> mstep P st (DeletePod E pod st)"
| backoff: "P E \<Longrightarrow> mstep P st (st\<lparr>mgr := BackoffPodGroup E g d (mgr st)\<rparr>)"
| unpermit: "P E \<Longrightarrow> mstep P st (st\<lparr>mgr := DeletePermittedPodGroup E g (mgr st)\<rparr>)"
| expire: "mstep P st (st\<lparr>mgr := (mgr st)\<lparr>permittedpodGroup := c, backedOffpodGroup := c'\<rparr>\<rparr>)"

inductive reachable :: "('w \<Rightarrow> jobid set) \<Rightarrow> (('c, 'w) env \<Rightarrow> bool) \<Rightarrow> ('c, 'w) world \<Rightarrow> bool" for live P where
  start: "P E \<Longrightarrow> live w = {} \<Longrightarrow> reachable live P \<lparr>mgr = NewPodGroupManager E timeout, remote = w\<rparr>"
| step: "reachable live P st \<Longrightarrow> mstep P st st' \<Longrightarrow> reachable live P st'"

lemma Backoff_Delete_jobs [simp]:
  "groupToJobId (BackoffPodGroup E g d m) = groupToJobId m"
  "groupToJobId (DeletePermittedPodGroup E g m) = groupToJobId m"
  "podToNode (BackoffPodGroup E g d m) = podToNode m"
  "podToNode (DeletePermittedPodGroup E g m) = podToNode m"
  by (simp_all add: BackoffPodGroup_def DeletePermittedPodGroup_def)

lemma mstep_preserves:
  assumes "mstep P st st'" and "I st"
    and ask: "\<And>E rep pg g r s. P E \<Longrightarrow> AskFlux E rep pg g st = (r, s) \<Longrightarrow> I s"
    and rel: "\<And>E g rep s. P E \<Longrightarrow> I s \<Longrightarrow> I (released E g rep s)"
    and ext: "\<And>s s'. I s \<Longrightarrow> groupToJobId (mgr s') = groupToJobId (mgr s) \<Longrightarrow> remote s' = remote s \<Longrightarrow> I s'"
  shows "I st'"
  using assms(1)
proof cases
  case (prefilter E pod state r state')
  show ?thesis
    by (rule PreFilter_preserves [where P = I, OF prefilter(2) assms(2) _ _ ext]) (use prefilter(1) ask rel in blast)+
next
  case (update E oldPod newPod)
  with UpdatePod_cases [of E oldPod newPod st] rel assms(2) show ?thesis by metis
next
  case (delete E pod)
  with DeletePod_cases [of E pod st] rel assms(2) show ?thesis by metis
qed (rule ext [OF assms(2)], simp_all)+

lemma jobs_ok_ext:
  "jobs_ok live s \<Longrightarrow> groupToJobId (mgr s') = groupToJobId (mgr s) \<Longrightarrow> remote s' = remote s \<Longrightarrow> jobs_ok live s'"
  "no_leak live s \<Longrightarrow> groupToJobId (mgr s') = groupToJobId (mgr s) \<Longrightarrow> remote s' = remote s \<Longrightarrow> no_leak live s'"
  by (simp_all add: jobs_ok_def no_leak_def)

lemma reachable_jobs_ok:
  assumes "reachable live P st" and "\<And>E. P E \<Longrightarrow> fluxion_laws live E"
  shows "jobs_ok live st"
  using assms(1)
proof induction
  case (start E w timeout)
  then show ?case by (simp add: jobs_ok_def NewPodGroupManager_def)
next
  case (step st st')
  show ?case
    by (rule mstep_preserves [where I = "jobs_ok live", OF step.hyps(2) step.IH _ _ jobs_ok_ext(1)])
      (use assms(2) step.IH AskFlux_jobs(1) released_jobs(1) in blast)+
qed

text \<open>When no cancellation of a held job fails, no job is ever leaked.\<close>

lemma reachable_no_leak:
  fixes st :: "('c, 'w) world"
  assumes "reachable live P st" and "\<And>E. P E \<Longrightarrow> fluxion_laws live E"
    and "\<And>E g pod s. P E \<Longrightarrow> jobs_ok live s \<Longrightarrow> groupToJobId (mgr (released E g pod s)) g = None"
  shows "live (remote st) = ran (groupToJobId (mgr st))"
proof -
  let ?I = "\<lambda>s :: ('c, 'w) world. jobs_ok live s \<and> no_leak live s"
  have "?I st"
    using assms(1)
  proof induction
    case (start E w timeout)
    then show ?case by (simp add: jobs_ok_def no_leak_def NewPodGroupManager_def)
  next
    case (step st st')
    show ?case
    proof (rule mstep_preserves [where I = ?I, OF step.hyps(2) step.IH])
      fix E rep pg g r s assume "P E" and ask: "AskFlux E rep pg g st = (r, s)"
      note ok = assms(2) [OF \<open>P E\<close>] step.IH [THEN conjunct1]
      show "?I s"
        using AskFlux_jobs [OF ok ask] assms(3) [OF \<open>P E\<close> ok(2), of g rep] step.IH by simp
    next
      fix E g rep s assume "P E" and "?I s"
      then show "?I (released E g rep s)" using released_jobs [of live E s g rep] assms(2) by blast
    qed (use jobs_ok_ext in blast)
  qed
  then show ?thesis by (auto simp: jobs_ok_def no_leak_def)
qed


section \<open>Names of the groups in the table\<close>

text \<open>Every key of the job table is a namespaced name \<open>namespace/group\<close>.\<close>

definition keys_namespaced :: "('c, 'w) world \<Rightarrow> bool" where
  "keys_namespaced st \<longleftrightarrow> (\<forall>g\<in>dom (groupToJobId (mgr st)). \<exists>ns n. g = ns @ ''/'' @ n)"

lemma released_dom: "dom (groupToJobId (mgr (released E g pod st))) \<subseteq> dom (groupToJobId (mgr st))"
  unfolding released_def by (rule cancelFluxJob_dom [OF surjective_pairing])

lemma AskFlux_dom:
  assumes "AskFlux E pod pg g st = (r, st')"
  shows "dom (groupToJobId (mgr st')) \<subseteq> insert g (dom (groupToJobId (mgr st)))"
  using assms released_dom [of E g pod st] by (cases rule: AskFlux_cases) auto

lemma asks_fluxion_name:
  assumes "asks_fluxion E pod st = Some (g, pg, pods)"
  shows "g = pod_Namespace pod @ ''/'' @ util_GetPodGroupLabel E pod"
    and "client_Get E (pod_Namespace pod) (util_GetPodGroupLabel E pod) = Inr pg"
    and "podLister_List E (pod_Namespace pod) (util_GetPodGroupLabel E pod) = Inr pods"
    and "MinMember (Spec pg) \<le> int (length pods)"
  using assms
  by (auto simp: asks_fluxion_def GetPodGroup_def Let_def split: prod.splits option.splits sum.splits if_splits)

lemma PreFilter_dom:
  assumes "Manager_PreFilter E pod state st = (r, state', st')"
  shows "dom (groupToJobId (mgr st')) \<subseteq>
    insert (pod_Namespace pod @ ''/'' @ util_GetPodGroupLabel E pod) (dom (groupToJobId (mgr st)))"
proof (cases "asks_fluxion E pod st")
  case None
  with PreFilter_not_asking [of E pod st state] assms show ?thesis by auto
next
  case (Some x)
  obtain g pg pods where x: "x = (g, pg, pods)" by (cases x)
  note pf = PreFilter_asking [OF Some [unfolded x], of state]
  show ?thesis
  proof (cases pods)
    case Nil
    with pf assms show ?thesis by auto
  next
    case (Cons rep rest)
    obtain r1 st1 where ask: "AskFlux E rep pg g st = (r1, st1)" by (cases "AskFlux E rep pg g st")
    have "dom (groupToJobId (mgr st')) \<subseteq> dom (groupToJobId (mgr st1))"
    proof (cases r1)
      case (Inl e)
      with pf Cons ask assms show ?thesis by simp
    next
      case (Inr nodes)
      with pf Cons ask assms have "admit_group E g pods rep nodes state st1 = (r, state', st')" by simp
      then show ?thesis
        by (rule admit_group_jobs_eq) (use released_dom [of E g rep st1] in auto)
    qed
    with AskFlux_dom [OF ask] asks_fluxion_name(1) [OF Some [unfolded x]] show ?thesis by blast
  qed
qed

lemma keys_namespaced_mono:
  "keys_namespaced st \<Longrightarrow> dom (groupToJobId (mgr st')) \<subseteq> dom (groupToJobId (mgr st)) \<Longrightarrow> keys_namespaced st'"
  unfolding keys_namespaced_def by blast

lemma events_dom:
  "dom (groupToJobId (mgr (UpdatePod E p q st))) \<subseteq> dom (groupToJobId (mgr st))"
  "dom (groupToJobId (mgr (DeletePod E p st))) \<subseteq> dom (groupToJobId (mgr st))"
  using UpdatePod_cases [of E p q st] DeletePod_cases [of E p st] released_dom [of E "event_group E p" p st]
  by (metis order_refl)+

lemma mstep_keys:
  assumes "mstep P st st'" and "keys_namespaced st"
  shows "keys_namespaced st'"
  using assms(1)
proof cases
  case (prefilter E pod state r state')
  from PreFilter_dom [OF prefilter(2)] assms(2) show ?thesis unfolding keys_namespaced_def by blast
next
  case (update E oldPod newPod)
  from assms(2) events_dom(1) show ?thesis unfolding update(1) by (rule keys_namespaced_mono)
next
  case (delete E pod)
  from assms(2) events_dom(2) show ?thesis unfolding delete(1) by (rule keys_namespaced_mono)
qed (use assms(2) in \<open>simp_all add: keys_namespaced_def\<close>)

lemma reachable_keys: "reachable live P st \<Longrightarrow> keys_namespaced st"
proof (induction rule: reachable.induct)
  case (start E w timeout)
  then show ?case by (simp add: keys_namespaced_def NewPodGroupManager_def)
qed (rule mstep_keys)

section \<open>Properties\<close>

text \<open>
  In every reachable state of the manager, whatever the order of scheduling
  attempts and pod events and whatever the cluster does in between, two groups never
  share a Fluxion job and every job the manager remembers is live in Fluxion.
\<close>

theorem manager_jobs_invariant:
  assumes "reachable live (fluxion_laws live) st"
  shows "inj_on (groupToJobId (mgr st)) (dom (groupToJobId (mgr st)))
    \<and> ran (groupToJobId (mgr st)) \<subseteq> live (remote st)"
  using reachable_jobs_ok [OF assms] by (simp add: jobs_ok_def)

definition demo_live :: "jobid list \<times> jobid \<Rightarrow> jobid set" where
  "demo_live w = set (fst w)"

lemma demo_fluxion_laws: "fluxion_laws demo_live demo_env"
  by (auto simp: fluxion_laws_def demo_env_def demo_live_def)

text \<open>The demo manager after the group's first pod was pre-filtered.\<close>

definition demo_admitted :: "(string list, jobid list \<times> jobid) world" where
  "demo_admitted = snd (snd (Manager_PreFilter demo_env (hd demo_pods) Map.empty demo_start))"

lemma demo_admitted_eq:
  "demo_admitted = demo_start\<lparr>mgr := (mgr demo_start)\<lparr>groupToJobId := [''ns/g'' \<mapsto> 1],
      podToNode := Map.empty(map pod_Name demo_pods [\<mapsto>] [''n1'', ''n2'']), permittedpodGroup := [''ns/g'']\<rparr>,
     remote := ([1], 2)\<rparr>"
  using PreFilter_asking_hd [OF demo_asks demo_pod_simps(1) demo_AskFlux, of Map.empty]
  by (simp add: demo_admitted_def admit_group_exact)

lemma demo_admitted_simps [simp]:
  "groupToJobId (mgr demo_admitted) = [''ns/g'' \<mapsto> 1]" "remote demo_admitted = ([1], 2)"
  by (simp_all add: demo_admitted_eq)

lemma demo_reachable: "reachable demo_live (fluxion_laws demo_live) demo_admitted"
proof -
  have "reachable demo_live (fluxion_laws demo_live) demo_start"
    unfolding demo_start_def by (rule reachable.start) (simp_all add: demo_fluxion_laws demo_live_def)
  moreover have "mstep (fluxion_laws demo_live) demo_start demo_admitted"
    unfolding demo_admitted_def
    by (cases "Manager_PreFilter demo_env (hd demo_pods) Map.empty demo_start")
      (auto intro: mstep.prefilter demo_fluxion_laws)
  ultimately show ?thesis by (rule reachable.step)
qed

theorem manager_jobs_invariant_witness:
  "groupToJobId (mgr demo_admitted) ''ns/g'' = Some 1 \<and> 1 \<in> demo_live (remote demo_admitted)"
proof -
  have "1 \<in> ran (groupToJobId (mgr demo_admitted))" by simp
  with manager_jobs_invariant [OF demo_reachable] show ?thesis by auto
qed

text \<open>
  C25. Asking Fluxion again for a group that already holds a job leaks that job
  exactly when its cancellation did not succeed: the new job id replaces the old one
  in the table although the old job is still live.
\<close>

theorem AskFlux_leaks_iff:
  assumes "fluxion_laws live E" and "reachable live (fluxion_laws live) st" and "no_leak live st"
    and "AskFlux E pod pg g st = (Inr nodes, st')"
  shows "no_leak live st' \<longleftrightarrow> groupToJobId (mgr (released E g pod st)) g = None"
proof
  note ok = reachable_jobs_ok [OF assms(2)]
  note rel = released_jobs(1) [OF assms(1) ok, of g pod] and law = fluxion_lawsD [OF assms(1)]
  let ?m = "groupToJobId (mgr (released E g pod st))"
  assume leakfree: "no_leak live st'"
  show "?m g = None"
  proof (rule ccontr)
    assume "?m g \<noteq> None"
    then obtain old where old: "?m g = Some old" by blast
    from assms(4) show False
    proof (cases rule: AskFlux_cases)
      case (matched w1 resp w2)
      let ?j = "jobid_of_int64 (mres_JobID resp)"
      have "old \<in> live (remote (released E g pod st))" using rel old by (auto simp: jobs_ok_def ran_def)
      then have "old \<in> live w2" "?j \<noteq> old"
        using law(1) [OF matched(1)] law(3,4) [OF matched(2)] by auto
      then have "old \<in> ran (?m(g \<mapsto> ?j))" using leakfree matched(4,5) by (auto simp: no_leak_def)
      then obtain k where "k \<noteq> g" "?m k = Some old" using \<open>?j \<noteq> old\<close> by (auto simp: ran_def split: if_splits)
      with old rel show False by (auto simp: jobs_ok_def dest: inj_onD [of _ _ k g])
    qed simp_all
  qed
next
  assume "groupToJobId (mgr (released E g pod st)) g = None"
  with AskFlux_jobs(2) [OF assms(1) reachable_jobs_ok [OF assms(2)] assms(4,3)] show "no_leak live st'" by simp
qed

text \<open>The same environment with a sidecar that refuses every cancellation.\<close>

definition stubborn_env :: "(string list, jobid list \<times> jobid) env" where
  "stubborn_env = demo_env\<lparr>grpc_Cancel := \<lambda>req w. (Inr \<lparr>cres_JobID = creq_JobID req, cres_Error = 1\<rparr>, w)\<rparr>"

theorem AskFlux_leaks_iff_witness:
  "\<exists>nodes st'. AskFlux stubborn_env (hd demo_pods) demo_group ''ns/g'' demo_admitted = (Inr nodes, st')
      \<and> \<not> no_leak demo_live st'"
proof -
  have laws: "fluxion_laws demo_live stubborn_env"
    using demo_fluxion_laws by (simp add: stubborn_env_def fluxion_laws_def)
  have "released stubborn_env ''ns/g'' (hd demo_pods) demo_admitted = demo_admitted"
    by (simp add: released_def cancelFluxJob_def stubborn_env_def demo_env_def)
  then have held: "groupToJobId (mgr (released stubborn_env ''ns/g'' (hd demo_pods) demo_admitted)) ''ns/g'' = Some 1"
    by simp
  have "no_leak demo_live demo_admitted" by (simp add: no_leak_def demo_live_def)
  moreover obtain nodes st' where
    ask: "AskFlux stubborn_env (hd demo_pods) demo_group ''ns/g'' demo_admitted = (Inr nodes, st')"
    by (simp add: AskFlux_def cancelFluxJob_def stubborn_env_def demo_env_def)
  ultimately have "\<not> no_leak demo_live st'"
    using AskFlux_leaks_iff [OF laws demo_reachable _ ask] held by simp
  with ask show ?thesis by blast
qed

text \<open>
  Completion frees the resources: when a pod of a known group succeeds or fails
  and the sidecar confirms the cancellation, the group's job is forgotten and is no
  longer live, and the jobs of all other groups stay as they are.
\<close>

theorem UpdatePod_releases_job:
  assumes "fluxion_laws live E" and "GetPodGroup E oldPod = (g, Some pg)"
    and "groupToJobId (mgr st) g = Some job" and "pod_Phase newPod \<in> {PodSucceeded, PodFailed}"
    and "grpc_Dial E (remote st) = (Inr (), w1)"
    and "grpc_Cancel E \<lparr>creq_JobID = int64_of_jobid job\<rparr> w1 = (Inr resp, w2)" and "cres_Error resp = 0"
  shows "groupToJobId (mgr (UpdatePod E oldPod newPod st)) = (groupToJobId (mgr st))(g := None)
    \<and> live (remote (UpdatePod E oldPod newPod st)) = live (remote st) - {job}"
proof -
  have "event_group E oldPod = g" by (simp add: event_group_def assms(2))
  then have "UpdatePod E oldPod newPod st = st\<lparr>mgr := cleanup E oldPod g (mgr st), remote := w2\<rparr>"
    using assms(3-7) by (auto simp: UpdatePod_def cancelFluxJob_def)
  moreover have "live w2 = live (remote st) - {job}"
    using fluxion_lawsD(1) [OF assms(1,5)] fluxion_lawsD(7) [OF assms(1,6,7)] by simp
  ultimately show ?thesis by simp
qed

theorem UpdatePod_releases_job_witness:
  "groupToJobId (mgr (UpdatePod demo_env (hd demo_pods) ((hd demo_pods)\<lparr>pod_Phase := PodSucceeded\<rparr>) demo_admitted))
     ''ns/g'' = None"
  using UpdatePod_releases_job [of demo_live demo_env "hd demo_pods" "''ns/g''" demo_group demo_admitted 1
      "(hd demo_pods)\<lparr>pod_Phase := PodSucceeded\<rparr>" "([1], 2)" "\<lparr>cres_JobID = 1, cres_Error = 0\<rparr>" "([], 2)"]
    demo_fluxion_laws
  by (simp add: GetPodGroup_def) (simp add: demo_env_def int64_of_jobid_def jobid_of_int64_def)


section \<open>What the clean-up misses\<close>

lemma fake_group_not_tracked:
  assumes "reachable live P st" and "well_named pod"
  shows "groupToJobId (mgr st) (fakeGroupName pod) = None"
proof (rule ccontr)
  assume "groupToJobId (mgr st) (fakeGroupName pod) \<noteq> None"
  with reachable_keys [OF assms(1)] obtain ns n where "fakeGroupName pod = ns @ ''/'' @ n"
    unfolding keys_namespaced_def by blast
  with fakeGroupName_slash_free [OF assms(2)] show False by (simp add: slash_free_def)
qed

text \<open>
  C39. Once the PodGroup of a pod cannot be read any more, the events of the pod free
  nothing: the name the handlers fall back to is never a key of the job table, so
  neither an update (to Succeeded or Failed) nor a deletion changes the state, and the
  job of the group stays allocated.
\<close>

theorem events_without_PodGroup_free_nothing:
  assumes "reachable live P st" and "well_named pod" and "snd (GetPodGroup E pod) = None"
  shows "UpdatePod E pod newPod st = st \<and> DeletePod E pod st = st"
proof -
  have "event_group E pod = fakeGroupName pod"
    using assms(3) by (auto simp: event_group_def CreateFakeGroup_def split: prod.splits option.splits)
  with fake_group_not_tracked [OF assms(1,2)] show ?thesis
    by (simp add: UpdatePod_def DeletePod_def Let_def split: PodPhase.splits)
qed

theorem events_without_PodGroup_free_nothing_witness:
  "DeletePod (demo_env\<lparr>client_Get := \<lambda>ns n. Inl (Err ''not found'')\<rparr>)
     ((hd demo_pods)\<lparr>pod_Phase := PodRunning\<rparr>) demo_admitted = demo_admitted"
proof -
  have "well_named ((hd demo_pods)\<lparr>pod_Phase := PodRunning\<rparr>)"
    by (simp add: well_named_def slash_free_def demo_pods_def plain_pod_def)
  moreover have "snd (GetPodGroup (demo_env\<lparr>client_Get := \<lambda>ns n. Inl (Err ''not found'')\<rparr>)
      ((hd demo_pods)\<lparr>pod_Phase := PodRunning\<rparr>)) = None"
    by (simp add: GetPodGroup_def Let_def)
  ultimately show ?thesis using events_without_PodGroup_free_nothing [OF demo_reachable] by blast
qed

text \<open>
  What the lister promises: only pods of the namespace that carry the label value. A
  Kubernetes label value holds no slash.
\<close>

definition lister_laws :: "('c, 'w) env \<Rightarrow> bool" where
  "lister_laws E \<longleftrightarrow>
     (\<forall>ns v pods p. podLister_List E ns v = Inr pods \<longrightarrow> p \<in> set pods \<longrightarrow>
        pod_Namespace p = ns \<and> label (pod_Labels p) PodGroupLabel = Some v \<and> slash_free v)"

lemma cleanup_keeps_nodes:
  assumes "lister_laws E" and "g = ns @ ''/'' @ n"
  shows "podToNode (cleanup E pod g m) = podToNode m"
proof -
  have "pods = []" if "podLister_List E (pod_Namespace pod) g = Inr pods" for pods
  proof (rule ccontr)
    assume "pods \<noteq> []"
    then have "hd pods \<in> set pods" by simp
    with assms that have "slash_free (ns @ ''/'' @ n)" unfolding lister_laws_def by blast
    then show False by (simp add: slash_free_def)
  qed
  then show ?thesis by (auto simp: cleanup_def Let_def split: sum.splits)
qed

lemma cancelFluxJob_nodes:
  assumes "keys_namespaced st" and "lister_laws E" and "cancelFluxJob E g pod st = (r, st')"
  shows "podToNode (mgr st') = podToNode (mgr st)"
  using assms(3)
proof (cases rule: cancelFluxJob_cases)
  case (cancelled job w1 resp w2)
  with assms(1) obtain ns n where "g = ns @ ''/'' @ n" unfolding keys_namespaced_def by blast
  with cancelled cleanup_keeps_nodes [OF assms(2)] show ?thesis by simp
qed simp_all

lemma UpdatePod_nodes:
  assumes "keys_namespaced st" and "lister_laws E"
  shows "podToNode (mgr (UpdatePod E oldPod newPod st)) = podToNode (mgr st)"
  using UpdatePod_cases [of E oldPod newPod st] cancelFluxJob_nodes [OF assms surjective_pairing]
  unfolding released_def by metis

text \<open>
  Cancelling a job never clears the node assignments of its pods: the clean-up
  looks for pods whose label equals the namespaced group name, which no label value
  can equal, so in every reachable state the table of pods to nodes is unchanged.
\<close>

theorem cancelFluxJob_keeps_nodes:
  assumes "reachable live P st" and "lister_laws E" and "cancelFluxJob E g pod st = (r, st')"
  shows "podToNode (mgr st') = podToNode (mgr st)"
  by (rule cancelFluxJob_nodes [OF reachable_keys [OF assms(1)] assms(2,3)])

lemma demo_lister_laws: "lister_laws demo_env"
  by (auto simp: lister_laws_def demo_env_def demo_pods_def plain_pod_def GetPodGroupLabel_def
      label_or_empty_def slash_free_def)

theorem cancelFluxJob_keeps_nodes_witness:
  "\<exists>st'. cancelFluxJob demo_env ''ns/g'' (hd demo_pods) demo_admitted = (Inr (), st')
      \<and> groupToJobId (mgr st') ''ns/g'' = None \<and> GetPodNode (mgr st') (hd demo_pods) = ''n1''"
proof -
  obtain st' where run: "cancelFluxJob demo_env ''ns/g'' (hd demo_pods) demo_admitted = (Inr (), st')"
    and gone: "groupToJobId (mgr st') ''ns/g'' = None"
    by (simp add: cancelFluxJob_def) (simp add: demo_env_def)
  have "podToNode (mgr demo_admitted) (pod_Name (hd demo_pods)) = Some ''n1''"
    by (simp add: demo_admitted_eq) (simp add: demo_pods_def plain_pod_def)
  with cancelFluxJob_keeps_nodes [OF demo_reachable demo_lister_laws run]
  have "GetPodNode (mgr st') (hd demo_pods) = ''n1''" by (simp add: GetPodNode_def)
  with run gone show ?thesis by blast
qed

end
