(* ===== verification/Manager_Threads.thy ===== *)
theory Manager_Threads
  imports Manager_Jobs
begin

text \<open>
  The manager with two threads. The scheduling thread runs \<open>PreFilter\<close>, which takes the
  manager's mutex several times and lets it go in between: around the check for an old
  job, around each cancellation, around the store of the new job id and around each
  assignment of a node; the match with Fluxion runs without it. The informer thread
  runs \<open>UpdatePod\<close> and \<open>DeletePod\<close>, each under the mutex as a whole, at any moment in
  between. A step of the scheduling thread is the code from one such point to the next.
\<close>

section \<open>The scheduling thread\<close>

text \<open>What \<open>PreFilter\<close> keeps in its local variables.\<close>

record call =
  c_group :: string
  c_podGroup :: PodGroup
  c_pods :: "Pod list"
  c_rep :: Pod

datatype thread =
    Begin Pod CycleState
  | AtCheck call CycleState
  | AtCancel call CycleState
  | AtMatch call CycleState
  | AtStore call MatchResponse CycleState
  | AtVerify call "string list" CycleState
  | AtAssign call "Pod list" "string list" CycleState
  | AtPermit call CycleState
  | Returned "unit result" CycleState

fun sched_step :: "('c, 'w) env \<Rightarrow> thread \<times> ('c, 'w) world \<Rightarrow> thread \<times> ('c, 'w) world" where
  "sched_step E (Begin pod state, st) =
     (case GetPodGroup E pod of
        (groupName, None) \<Rightarrow> (Returned (Inr ()) state, st)
      | (groupName, Some podGroup) \<Rightarrow>
          if cache_Get E (backedOffpodGroup (mgr st)) groupName then
            (Returned (Inl (Err (''podGroup '' @ groupName @ '' failed recently''))) state, st)
          else
            (case podLister_List E (pod_Namespace pod) (util_GetPodGroupLabel E pod) of
               Inl err \<Rightarrow> (Returned (Inl (wrap_error ''podLister list pods failed: '' err)) state, st)
             | Inr pods \<Rightarrow>
                 if int (length pods) < MinMember (Spec podGroup) then
                   (Returned (Inl (Err (''pre-filter pod '' @ pod_Name pod @ '' cannot find enough sibling pods, ''
                      @ ''current pods number: '' @ fmt_d (int (length pods)) @ '', minMember of group: ''
                      @ fmt_d (MinMember (Spec podGroup))))) state, st)
                 else if cache_Get E (permittedpodGroup (mgr st)) groupName then (Returned (Inr ()) state, st)
                 else
                   (case pods of
                      [] \<Rightarrow> (Returned (Inl (Panic IndexOutOfRange)) state, st)
                    | repPod # _ \<Rightarrow>
                        (AtCheck \<lparr>c_group = groupName, c_podGroup = podGroup, c_pods = pods, c_rep = repPod\<rparr> state, st))))"
| "sched_step E (AtCheck c state, st) =
     (if groupToJobId (mgr st) (c_group c) \<noteq> None then (AtCancel c state, st) else (AtMatch c state, st))"
| "sched_step E (AtCancel c state, st) = (AtMatch c state, snd (cancelFluxJob E (c_group c) (c_rep c) st))"
| "sched_step E (AtMatch c state, st) =
     (case grpc_Dial E (remote st) of
        (Inl err, w1) \<Rightarrow> (Returned (Inl err) state, st\<lparr>remote := w1\<rparr>)
      | (Inr _, w1) \<Rightarrow>
          (case grpc_Match E (match_request E (c_rep c) (c_podGroup c) (c_group c)) w1 of
             (Inl err, w2) \<Rightarrow> (Returned (Inl err) state, st\<lparr>remote := w2\<rparr>)
           | (Inr response, w2) \<Rightarrow> (AtStore c response state, st\<lparr>remote := w2\<rparr>)))"
| "sched_step E (AtStore c response state, st) =
     (AtVerify c (map NodeID (Nodelist response)) state,
      st\<lparr>mgr := (mgr st)\<lparr>groupToJobId :=
        (groupToJobId (mgr st))(c_group c \<mapsto> jobid_of_int64 (mres_JobID response))\<rparr>\<rparr>)"
| "sched_step E (AtVerify c nodes state, st) =
     (AtAssign c (c_pods c) nodes state,
      if length nodes \<noteq> length (c_pods c) then snd (cancelFluxJob E (c_group c) (c_rep c) st) else st)"
| "sched_step E (AtAssign c pods [] state, st) = (AtPermit c state, st)"
| "sched_step E (AtAssign c [] (node # nodes) state, st) = (Returned (Inl (Panic IndexOutOfRange)) state, st)"
| "sched_step E (AtAssign c (pod # pods) (node # nodes) state, st) =
     (AtAssign c pods nodes (state(pod_Name pod \<mapsto> FluxState \<lparr>NodeName = node\<rparr>)),
      st\<lparr>mgr := (mgr st)\<lparr>podToNode := (podToNode (mgr st))(pod_Name pod \<mapsto> node)\<rparr>\<rparr>)"
| "sched_step E (AtPermit c state, st) =
     (case deref (scheduleTimeout (mgr st)) of
        Inl err \<Rightarrow> (Returned (Inl err) state, st)
      | Inr timeout \<Rightarrow>
          (Returned (Inr ()) state,
           st\<lparr>mgr := (mgr st)\<lparr>permittedpodGroup := cache_Add E (permittedpodGroup (mgr st)) (c_group c) timeout\<rparr>\<rparr>))"
| "sched_step E (Returned r state, st) = (Returned r state, st)"

section \<open>Undisturbed, the thread computes \<open>PreFilter\<close>\<close>

definition runs_to :: "('c, 'w) env \<Rightarrow> thread \<times> ('c, 'w) world \<Rightarrow> thread \<times> ('c, 'w) world \<Rightarrow> bool" where
  "runs_to E x y \<longleftrightarrow> (\<exists>n. (sched_step E ^^ n) x = y)"

lemma runs_to_refl [simp, intro]: "runs_to E x x"
  unfolding runs_to_def by (rule exI [of _ 0]) simp

lemma runs_to_step: "runs_to E (sched_step E x) y \<Longrightarrow> runs_to E x y"
  unfolding runs_to_def by (auto intro: exI [of _ "Suc _"] simp: funpow_swap1)

lemma funpow_returned: "(sched_step E ^^ n) (Returned r state, st) = (Returned r state, st)"
  by (induction n) simp_all

lemma runs_to_returned_unique:
  assumes "runs_to E x (Returned r s, st)" and "runs_to E x (Returned r' s', st')"
  shows "(Returned r s, st) = (Returned r' s', st')"
proof -
  obtain n m where nm: "(sched_step E ^^ n) x = (Returned r s, st)" "(sched_step E ^^ m) x = (Returned r' s', st')"
    using assms by (auto simp: runs_to_def)
  then have "(sched_step E ^^ (m + n)) x = (Returned r s, st)" "(sched_step E ^^ (n + m)) x = (Returned r' s', st')"
    by (simp_all add: funpow_add funpow_returned)
  then show ?thesis by (simp add: add.commute)
qed

lemma world_upd_swap: "st\<lparr>remote := w, mgr := m\<rparr> = st\<lparr>mgr := m, remote := w\<rparr>"
  by (cases st) simp

lemma assign_runs:
  "assign_nodes pods nodes (mgr st, state) = (r, m, state') \<Longrightarrow>
   (case r of Inl e \<Rightarrow> runs_to E (AtAssign c pods nodes state, st) (Returned (Inl e) state', st\<lparr>mgr := m\<rparr>)
    | Inr _ \<Rightarrow> (\<forall>y. runs_to E (AtPermit c state', st\<lparr>mgr := m\<rparr>) y \<longrightarrow> runs_to E (AtAssign c pods nodes state, st) y))"
proof (induction pods nodes "(mgr st, state)" arbitrary: st state rule: assign_nodes.induct)
  case (1 pods)
  then show ?case using runs_to_step [of E "(AtAssign c pods [] state, st)"] by auto
next
  case (2 node nodes)
  then show ?case
    using runs_to_step [of E "(AtAssign c [] (node # nodes) state, st)" "(Returned (Inl (Panic IndexOutOfRange)) state, st)"]
    by auto
next
  case (3 pod pods node nodes state)
  let ?st = "st\<lparr>mgr := (mgr st)\<lparr>podToNode := (podToNode (mgr st))(pod_Name pod \<mapsto> node)\<rparr>\<rparr>"
  from 3(1) [of ?st] 3(2) runs_to_step [of E "(AtAssign c (pod # pods) (node # nodes) state, st)"]
  show ?case by (auto split: sum.splits)
qed

lemma admit_runs:
  assumes "admit_group E (c_group c) (c_pods c) (c_rep c) nodes state st = (r, state', st')"
  shows "runs_to E (AtVerify c nodes state, st) (Returned r state', st')"
proof -
  obtain st1 where st1: "st1 = (if length nodes \<noteq> length (c_pods c)
      then snd (cancelFluxJob E (c_group c) (c_rep c) st) else st)" by simp
  obtain r1 m s1 where a: "assign_nodes (c_pods c) nodes (mgr st1, state) = (r1, m, s1)"
    by (cases "assign_nodes (c_pods c) nodes (mgr st1, state)")
  note adm = assms [unfolded admit_group_def Let_def, folded st1, unfolded a]
  have "runs_to E (AtAssign c (c_pods c) nodes state, st1) (Returned r state', st')"
  proof (cases r1)
    case (Inl e)
    with adm assign_runs [OF a, of E c] show ?thesis by auto
  next
    case (Inr u)
    then have "sched_step E (AtPermit c s1, st1\<lparr>mgr := m\<rparr>) = (Returned r state', st')"
      using adm by (auto split: sum.splits)
    then have "runs_to E (AtPermit c s1, st1\<lparr>mgr := m\<rparr>) (Returned r state', st')"
      by (auto intro: runs_to_step [where x = "(AtPermit c s1, st1\<lparr>mgr := m\<rparr>)"])
    with assign_runs [OF a, of E c] Inr show ?thesis by simp
  qed
  then show ?thesis using runs_to_step [of E "(AtVerify c nodes state, st)"] by (simp only: sched_step.simps st1)
qed

lemma AskFlux_runs:
  assumes "AskFlux E (c_rep c) (c_podGroup c) (c_group c) st = (r, st2)"
  shows "case r of Inl e \<Rightarrow> runs_to E (AtCheck c state, st) (Returned (Inl e) state, st2)
    | Inr nodes \<Rightarrow> (\<forall>y. runs_to E (AtVerify c nodes state, st2) y \<longrightarrow> runs_to E (AtCheck c state, st) y)"
proof -
  obtain st1 where st1: "st1 = (if groupToJobId (mgr st) (c_group c) \<noteq> None
      then snd (cancelFluxJob E (c_group c) (c_rep c) st) else st)" by simp
  have check: "runs_to E (sched_step E (AtMatch c state, st1)) y \<Longrightarrow> runs_to E (AtCheck c state, st) y" for y
    using runs_to_step [of E "(AtMatch c state, st1)" y] runs_to_step [of E "(AtCancel c state, st)" y]
      runs_to_step [of E "(AtCheck c state, st)" y] st1
    by (cases "groupToJobId (mgr st) (c_group c) = None") simp_all
  have store: "runs_to E (sched_step E (AtStore c resp state, s)) y \<Longrightarrow> runs_to E (AtStore c resp state, s) y" for resp s y
    by (rule runs_to_step)
  note ask = assms [unfolded AskFlux_def Let_def, folded st1]
  show ?thesis
    using ask by (auto simp: world_upd_swap split: prod.splits sum.splits intro!: check store)
qed

lemma PreFilter_runs:
  assumes "Manager_PreFilter E pod state st = (r, state', st')"
  shows "runs_to E (Begin pod state, st) (Returned r state', st')"
proof -
  have "runs_to E (sched_step E (Begin pod state, st)) (Returned r state', st')"
  proof (cases "\<exists>c. sched_step E (Begin pod state, st) = (AtCheck c state, st)")
    case False
    with assms show ?thesis
      by (auto simp: Manager_PreFilter_def split: prod.splits option.splits sum.splits list.splits if_splits)
  next
    case True
    then obtain c where c: "sched_step E (Begin pod state, st) = (AtCheck c state, st)" by blast
    obtain r1 st1 where ask: "AskFlux E (c_rep c) (c_podGroup c) (c_group c) st = (r1, st1)"
      by (cases "AskFlux E (c_rep c) (c_podGroup c) (c_group c) st")
    with c assms have "(case r1 of Inl e \<Rightarrow> (Inl e, state, st1)
        | Inr nodes \<Rightarrow> admit_group E (c_group c) (c_pods c) (c_rep c) nodes state st1) = (r, state', st')"
      by (auto simp: Manager_PreFilter_def split: prod.splits option.splits sum.splits list.splits if_splits)
    with AskFlux_runs [OF ask, of state] admit_runs [of E c _ state st1] show ?thesis
      unfolding c by (auto split: sum.splits)
  qed
  then show ?thesis by (rule runs_to_step)
qed

text \<open>
  The steps are those of \<open>PreFilter\<close>: when no event comes in between, the
  scheduling thread returns, and it returns exactly the result, the cycle state and the
  manager that the operation computes as a whole.
\<close>

theorem undisturbed_thread_is_PreFilter:
  "runs_to E (Begin pod state, st) (Returned r state', st') \<longleftrightarrow> Manager_PreFilter E pod state st = (r, state', st')"
proof
  assume run: "runs_to E (Begin pod state, st) (Returned r state', st')"
  obtain r1 s1 st1 where pf: "Manager_PreFilter E pod state st = (r1, s1, st1)"
    by (cases "Manager_PreFilter E pod state st")
  from runs_to_returned_unique [OF run PreFilter_runs [OF pf]] pf
  show "Manager_PreFilter E pod state st = (r, state', st')" by simp
qed (rule PreFilter_runs)

section \<open>Two threads\<close>

text \<open>
  The steps of the whole manager: the scheduling thread moves on, or, between any two of
  its steps, the informer thread handles an event or a cache changes. When a call has
  returned, the next scheduling cycle begins.
\<close>

inductive istep :: "(('c, 'w) env \<Rightarrow> bool) \<Rightarrow> thread \<times> ('c, 'w) world \<Rightarrow> thread \<times> ('c, 'w) world \<Rightarrow> bool" for P where
  sched: "P E \<Longrightarrow> istep P (th, st) (sched_step E (th, st))"
| cycle: "istep P (Returned r state, st) (Begin pod state', st)"
| update: "P E \<Longrightarrow> istep P (th, st) (th, UpdatePod E oldPod newPod st)"
| delete: "P E \<Longrightarrow> istep P (th, st) (th, DeletePod E pod st)"
| backoff: "P E \<Longrightarrow> istep P (th, st) (th, st\<lparr>mgr := BackoffPodGroup E g d (mgr st)\<rparr>)"
| unpermit: "P E \<Longrightarrow> istep P (th, st) (th, st\<lparr>mgr := DeletePermittedPodGroup E g (mgr st)\<rparr>)"
| expire: "istep P (th, st) (th, st\<lparr>mgr := (mgr st)\<lparr>permittedpodGroup := c, backedOffpodGroup := c'\<rparr>\<rparr>)"

inductive ireachable ::
    "('w \<Rightarrow> jobid set) \<Rightarrow> (('c, 'w) env \<Rightarrow> bool) \<Rightarrow> thread \<times> ('c, 'w) world \<Rightarrow> bool" for live P where
  start: "P E \<Longrightarrow> live w = {} \<Longrightarrow>
    ireachable live P (Begin pod state, \<lparr>mgr = NewPodGroupManager E timeout, remote = w\<rparr>)"
| step: "ireachable live P x \<Longrightarrow> istep P x y \<Longrightarrow> ireachable live P y"

lemma ireachable_runs:
  assumes "ireachable live P x" and "P E" and "runs_to E x y"
  shows "ireachable live P y"
proof -
  have "ireachable live P ((sched_step E ^^ n) x)" for n
    by (induction n) (use assms(1) in simp, metis assms(2) comp_apply funpow.simps(2) ireachable.step istep.sched surj_pair)
  with assms(3) show ?thesis by (auto simp: runs_to_def)
qed

text \<open>The job the thread holds between Fluxion's answer and the store.\<close>

fun pending :: "thread \<Rightarrow> jobid set" where
  "pending (AtStore c response state) = {jobid_of_int64 (mres_JobID response)}"
| "pending _ = {}"

definition threads_ok :: "('w \<Rightarrow> jobid set) \<Rightarrow> thread \<times> ('c, 'w) world \<Rightarrow> bool" where
  "threads_ok live x \<longleftrightarrow> jobs_ok live (snd x)
     \<and> pending (fst x) \<subseteq> live (remote (snd x)) - ran (groupToJobId (mgr (snd x)))"

text \<open>Once the thread has passed the cancellation, its group holds no job.\<close>

fun cleared :: "thread \<Rightarrow> ('c, 'w) world \<Rightarrow> bool" where
  "cleared (AtMatch c state) st \<longleftrightarrow> groupToJobId (mgr st) (c_group c) = None"
| "cleared (AtStore c response state) st \<longleftrightarrow> groupToJobId (mgr st) (c_group c) = None"
| "cleared _ st \<longleftrightarrow> True"

definition none_lost :: "('w \<Rightarrow> jobid set) \<Rightarrow> thread \<times> ('c, 'w) world \<Rightarrow> bool" where
  "none_lost live x \<longleftrightarrow> cleared (fst x) (snd x)
     \<and> live (remote (snd x)) \<subseteq> ran (groupToJobId (mgr (snd x))) \<union> pending (fst x)"

lemma released_live:
  assumes "fluxion_laws live E" and "jobs_ok live st"
  shows "live (remote st) - ran (groupToJobId (mgr st)) \<subseteq> live (remote (released E g pod st))"
    and "ran (groupToJobId (mgr (released E g pod st))) \<subseteq> ran (groupToJobId (mgr st))"
    and "live (remote (released E g pod st)) - ran (groupToJobId (mgr (released E g pod st)))
      \<subseteq> live (remote st) - ran (groupToJobId (mgr st))"
proof -
  obtain r st' where run: "cancelFluxJob E g pod st = (r, st')" by (cases "cancelFluxJob E g pod st")
  have inj: "inj_on (groupToJobId (mgr st)) (dom (groupToJobId (mgr st)))" using assms(2) by (simp add: jobs_ok_def)
  have "(live (remote st) - ran (groupToJobId (mgr st)) \<subseteq> live (remote st'))
    \<and> ran (groupToJobId (mgr st')) \<subseteq> ran (groupToJobId (mgr st))
    \<and> live (remote st') - ran (groupToJobId (mgr st')) \<subseteq> live (remote st) - ran (groupToJobId (mgr st))"
    using run
  proof (cases rule: cancelFluxJob_cases)
    case (cancelled job w1 resp w2)
    have "live w2 = live (remote st) - {job}"
      using fluxion_lawsD(1,7) [OF assms(1)] cancelled(2-4) by fastforce
    moreover have "ran (groupToJobId (mgr st')) = ran (groupToJobId (mgr st)) - {job}" "remote st' = w2"
      using cancelled ran_delete_inj [OF inj cancelled(1)] by simp_all
    moreover have "job \<in> ran (groupToJobId (mgr st))" using cancelled(1) by (rule ranI)
    ultimately show ?thesis by blast
  next
    case (refused job w1 resp w2)
    with fluxion_lawsD(1,6) [OF assms(1)] have "live w2 = live (remote st)" by metis
    with refused show ?thesis by simp
  next
    case (unanswered job w1 err w2)
    with fluxion_lawsD(1,5) [OF assms(1)] have "live w2 = live (remote st)" by metis
    with unanswered show ?thesis by simp
  next
    case (unreachable job err w1)
    with fluxion_lawsD(1) [OF assms(1)] have "live w1 = live (remote st)" by metis
    with unreachable show ?thesis by simp
  qed auto
  with run show "live (remote st) - ran (groupToJobId (mgr st)) \<subseteq> live (remote (released E g pod st))"
    and "ran (groupToJobId (mgr (released E g pod st))) \<subseteq> ran (groupToJobId (mgr st))"
    and "live (remote (released E g pod st)) - ran (groupToJobId (mgr (released E g pod st)))
      \<subseteq> live (remote st) - ran (groupToJobId (mgr st))"
    by (simp_all add: released_def)
qed

lemma released_threads_ok:
  assumes "fluxion_laws live E" and "threads_ok live (th, st)"
  shows "threads_ok live (th, released E g pod st)"
  using released_live [OF assms(1), of st g pod] released_jobs(1) [OF assms(1), of st g pod] assms(2)
  by (fastforce simp: threads_ok_def)

lemma released_none_lost:
  assumes "fluxion_laws live E" and "threads_ok live (th, st)" and "none_lost live (th, st)"
  shows "none_lost live (th, released E g pod st)"
proof -
  have "groupToJobId (mgr (released E g pod st)) h = None" if "groupToJobId (mgr st) h = None" for h
    using released_dom [of E g pod st] that by blast
  then have "cleared th (released E g pod st)" using assms(3) by (cases th) (simp_all add: none_lost_def)
  with released_live(3) [OF assms(1), of st g pod] assms(2,3) show ?thesis
    by (fastforce simp: none_lost_def threads_ok_def)
qed

lemma sched_threads_ok:
  assumes "fluxion_laws live E" and "threads_ok live (th, st)"
  shows "threads_ok live (sched_step E (th, st))"
proof -
  note law = fluxion_lawsD [OF assms(1)] and rel = released_threads_ok [OF assms]
  show ?thesis
  proof (cases th)
    case (AtMatch c state)
    let ?req = "match_request E (c_rep c) (c_podGroup c) (c_group c)"
    have "case grpc_Match E ?req w of (Inl e, w') \<Rightarrow> live w' = live w
        | (Inr resp, w') \<Rightarrow> jobid_of_int64 (mres_JobID resp) \<notin> live w
            \<and> live w' = insert (jobid_of_int64 (mres_JobID resp)) (live w)" for w
      using law(2-4) by (auto split: prod.splits sum.splits)
    with AtMatch assms(2) show ?thesis
      by (fastforce simp: threads_ok_def jobs_ok_def dest!: law(1) split: prod.splits sum.splits)
  next
    case (AtStore c resp state)
    let ?m = "groupToJobId (mgr st)" and ?j = "jobid_of_int64 (mres_JobID resp)"
    from assms(2) AtStore have ok: "jobs_ok live st" and j: "?j \<in> live (remote st)" "?j \<notin> ran ?m"
      by (auto simp: threads_ok_def)
    then have "inj_on (?m(c_group c \<mapsto> ?j)) (dom (?m(c_group c \<mapsto> ?j)))"
      by (intro inj_on_fresh) (simp_all add: jobs_ok_def)
    moreover have "ran (?m(c_group c \<mapsto> ?j)) \<subseteq> live (remote st)"
      using ran_update [of ?m "c_group c" ?j] ok j by (auto simp: jobs_ok_def)
    ultimately show ?thesis using AtStore by (simp add: threads_ok_def jobs_ok_def)
  next
    case (AtAssign c pods nodes state)
    with assms(2) show ?thesis
      by (cases pods; cases nodes) (simp_all add: threads_ok_def jobs_ok_def)
  qed (use assms(2) rel in \<open>auto simp: threads_ok_def jobs_ok_def released_def
         split: prod.splits option.splits sum.splits list.splits\<close>)
qed

lemma sched_none_lost:
  assumes "fluxion_laws live E" and "threads_ok live (th, st)" and "none_lost live (th, st)"
    and "\<And>g pod. groupToJobId (mgr (released E g pod st)) g = None"
  shows "none_lost live (sched_step E (th, st))"
proof -
  note law = fluxion_lawsD [OF assms(1)] and rel = released_none_lost [OF assms(1-3)]
  show ?thesis
  proof (cases th)
    case (AtCancel c state)
    with rel [of "c_group c" "c_rep c"] assms(4) show ?thesis by (simp add: none_lost_def released_def)
  next
    case (AtMatch c state)
    let ?req = "match_request E (c_rep c) (c_podGroup c) (c_group c)"
    have "case grpc_Match E ?req w of (Inl e, w') \<Rightarrow> live w' = live w
        | (Inr resp, w') \<Rightarrow> live w' = insert (jobid_of_int64 (mres_JobID resp)) (live w)" for w
      using law(2,4) by (auto split: prod.splits sum.splits)
    with AtMatch assms(3) show ?thesis
      by (fastforce simp: none_lost_def dest!: law(1) split: prod.splits sum.splits)
  next
    case (AtStore c resp state)
    with assms(3) ran_map_upd [of "groupToJobId (mgr st)" "c_group c"] show ?thesis by (auto simp: none_lost_def)
  next
    case (AtAssign c pods nodes state)
    with assms(3) show ?thesis by (cases pods; cases nodes) (simp_all add: none_lost_def)
  qed (use assms(3) rel in \<open>auto simp: none_lost_def released_def
         split: prod.splits option.splits sum.splits list.splits\<close>)
qed

lemma istep_preserves:
  assumes "istep P x y" and "I x"
    and sched: "\<And>E th st. P E \<Longrightarrow> I (th, st) \<Longrightarrow> I (sched_step E (th, st))"
    and rel: "\<And>E g pod th st. P E \<Longrightarrow> I (th, st) \<Longrightarrow> I (th, released E g pod st)"
    and ext: "\<And>th s s'. I (th, s) \<Longrightarrow> groupToJobId (mgr s') = groupToJobId (mgr s) \<Longrightarrow> remote s' = remote s \<Longrightarrow> I (th, s')"
    and cycle: "\<And>r state pod state' st. I (Returned r state, st) \<Longrightarrow> I (Begin pod state', st)"
  shows "I y"
  using assms(1,2)
proof cases
  case (sched E th st)
  with assms(2,3) show ?thesis by blast
next
  case (cycle r state st pod state')
  with assms(2,6) show ?thesis by blast
next
  case (update E th st oldPod newPod)
  with UpdatePod_cases [of E oldPod newPod st] rel assms(2) show ?thesis by metis
next
  case (delete E th st pod)
  with DeletePod_cases [of E pod st] rel assms(2) show ?thesis by metis
next
  case (backoff E th st g d)
  with assms(2) show ?thesis using ext [of th st] by simp
next
  case (unpermit E th st g)
  with assms(2) show ?thesis using ext [of th st] by simp
next
  case (expire th st c c')
  with assms(2) show ?thesis using ext [of th st] by simp
qed

lemma ireachable_threads_ok:
  assumes "ireachable live P x" and "\<And>E. P E \<Longrightarrow> fluxion_laws live E"
  shows "threads_ok live x"
  using assms(1)
proof induction
  case (start E w pod state timeout)
  then show ?case by (simp add: threads_ok_def jobs_ok_def NewPodGroupManager_def)
next
  case (step x y)
  show ?case
    by (rule istep_preserves [where I = "threads_ok live", OF step.hyps(2) step.IH])
      (use assms(2) sched_threads_ok released_threads_ok in
        \<open>blast | simp add: threads_ok_def jobs_ok_def\<close>)+
qed

lemma ireachable_none_lost:
  fixes x :: "thread \<times> ('c, 'w) world"
  assumes "ireachable live P x" and "\<And>E. P E \<Longrightarrow> fluxion_laws live E"
    and "\<And>E g pod s. P E \<Longrightarrow> jobs_ok live s \<Longrightarrow> groupToJobId (mgr (released E g pod s)) g = None"
  shows "none_lost live x"
proof -
  let ?I = "\<lambda>x :: thread \<times> ('c, 'w) world. threads_ok live x \<and> none_lost live x"
  have "?I x"
    using assms(1)
  proof induction
    case (start E w pod state timeout)
    then show ?case by (simp add: threads_ok_def none_lost_def jobs_ok_def NewPodGroupManager_def)
  next
    case (step x y)
    show ?case
    proof (rule istep_preserves [where I = ?I, OF step.hyps(2) step.IH])
      fix E th and st :: "('c, 'w) world" assume "P E" "?I (th, st)"
      moreover from this have "jobs_ok live st" by (simp add: threads_ok_def)
      ultimately show "?I (sched_step E (th, st))"
        using sched_threads_ok sched_none_lost assms(2,3) by blast
    next
      fix E g pod th and st :: "('c, 'w) world" assume "P E" "?I (th, st)"
      then show "?I (th, released E g pod st)"
        using released_threads_ok released_none_lost assms(2) by blast
    next
      fix th and s s' :: "('c, 'w) world"
      assume "?I (th, s)" "groupToJobId (mgr s') = groupToJobId (mgr s)" "remote s' = remote s"
      then show "?I (th, s')" by (cases th) (simp_all add: threads_ok_def none_lost_def jobs_ok_def)
    qed (simp add: threads_ok_def none_lost_def)
  qed
  then show ?thesis by simp
qed

text \<open>
  C5. The job table is right at every moment, not only between calls: whatever pod
  events arrive between the steps of \<open>PreFilter\<close>, and whatever calls fail, no two groups
  share a job, every job in the table is live in Fluxion, and so is the job Fluxion has
  just handed out and the thread has not stored yet, which no group of the table has.
\<close>

theorem interleaved_jobs_invariant:
  assumes "ireachable live (fluxion_laws live) (th, st)"
  shows "inj_on (groupToJobId (mgr st)) (dom (groupToJobId (mgr st)))
    \<and> ran (groupToJobId (mgr st)) \<union> pending th \<subseteq> live (remote st)
    \<and> ran (groupToJobId (mgr st)) \<inter> pending th = {}"
  using ireachable_threads_ok [OF assms] by (auto simp: threads_ok_def jobs_ok_def)

text \<open>The demo group, stopped after Fluxion has answered.\<close>

definition demo_call :: call where
  "demo_call = \<lparr>c_group = ''ns/g'', c_podGroup = demo_group, c_pods = demo_pods, c_rep = hd demo_pods\<rparr>"

definition demo_response :: MatchResponse where
  "demo_response = \<lparr>PodID = ''ns/g'', Nodelist = [\<lparr>NodeID = ''n1'', Tasks = 1\<rparr>, \<lparr>NodeID = ''n2'', Tasks = 1\<rparr>],
     mres_JobID = int64_of_jobid 1\<rparr>"

lemma demo_thread:
  "sched_step demo_env (Begin (hd demo_pods) Map.empty, demo_start) = (AtCheck demo_call Map.empty, demo_start)"
  "sched_step demo_env (AtCheck demo_call Map.empty, demo_start) = (AtMatch demo_call Map.empty, demo_start)"
  "sched_step demo_env (AtMatch demo_call Map.empty, demo_start) =
     (AtStore demo_call demo_response Map.empty, demo_start\<lparr>remote := ([1], 2)\<rparr>)"
proof -
  obtain p ps where pods: "demo_pods = p # ps" by (simp add: demo_pods_def)
  show "sched_step demo_env (Begin (hd demo_pods) Map.empty, demo_start) = (AtCheck demo_call Map.empty, demo_start)"
    by (simp add: GetPodGroup_def demo_call_def) (simp add: pods)
  show "sched_step demo_env (AtCheck demo_call Map.empty, demo_start) = (AtMatch demo_call Map.empty, demo_start)"
    by (simp add: demo_call_def)
  have "ps_Id (mr_Ps (match_request demo_env (hd demo_pods) demo_group ''ns/g'')) = ''ns/g''"
    by (simp add: match_request_def PreparePodJobSpec_def Let_def)
  then show "sched_step demo_env (AtMatch demo_call Map.empty, demo_start) =
     (AtStore demo_call demo_response Map.empty, demo_start\<lparr>remote := ([1], 2)\<rparr>)"
    by (simp add: demo_call_def demo_response_def demo_start_def demo_env_def)
qed

lemma demo_ireachable:
  assumes "P demo_env" and "live ([], 1) = {}"
  shows "ireachable live P (AtStore demo_call demo_response Map.empty, demo_start\<lparr>remote := ([1], 2)\<rparr>)"
proof -
  have "ireachable live P (Begin (hd demo_pods) Map.empty, demo_start)"
    unfolding demo_start_def by (rule ireachable.start [where P = P and live = live and E = demo_env, OF assms])
  note ireachable.step [OF this istep.sched [where P = P, OF assms(1)]]
  from ireachable.step [OF this [unfolded demo_thread] istep.sched [where P = P, OF assms(1)]]
  have "ireachable live P (AtMatch demo_call Map.empty, demo_start)" unfolding demo_thread .
  from ireachable.step [OF this istep.sched [where P = P, OF assms(1)]] show ?thesis unfolding demo_thread .
qed

theorem interleaved_jobs_invariant_witness:
  "ireachable demo_live (fluxion_laws demo_live)
     (AtStore demo_call demo_response Map.empty, demo_start\<lparr>remote := ([1], 2)\<rparr>)
   \<and> 1 \<in> demo_live ([1], 2)"
proof -
  have r: "ireachable demo_live (fluxion_laws demo_live)
     (AtStore demo_call demo_response Map.empty, demo_start\<lparr>remote := ([1], 2)\<rparr>)"
    by (rule demo_ireachable) (simp_all add: demo_fluxion_laws demo_live_def)
  from interleaved_jobs_invariant [OF this] r show ?thesis by (simp add: demo_response_def)
qed

end
