(* ===== verification/Manager_Gang.thy ===== *)
theory Manager_Gang
  imports PodGroup_Manager
begin

text \<open>
  Gang scheduling in the manager: \<open>Permit\<close> lets a pod through exactly when, with it,
  the group has its minimum of assigned pods; the first pod of a group that has to
  wait has its siblings moved to the active queue.
\<close>

section \<open>Counting the assigned pods\<close>

definition assigned_pods :: "('c, 'w) env \<Rightarrow> string \<Rightarrow> string \<Rightarrow> Pod list" where
  "assigned_pods E name ns =
     (case NodeInfos_List E of
        Inl _ \<Rightarrow> []
      | Inr infos \<Rightarrow> filter (\<lambda>p. util_GetPodGroupLabel E p = name \<and> pod_Namespace p = ns
                                   \<and> pod_NodeName p \<noteq> '''') (concat infos))"

lemma fold_count:
  "in_int64 c \<Longrightarrow>
   fold (\<lambda>x c. if P x then wrap64 (c + 1) else c) xs c = wrap64 (c + int (length (filter P xs)))"
proof (induction xs arbitrary: c)
  case (Cons x xs)
  have "wrap64 (wrap64 (c + 1) + int (length (filter P xs))) = wrap64 (c + 1 + int (length (filter P xs)))"
    by (rule wrap64_add_wrap)
  with Cons show ?case by (simp add: algebra_simps)
qed simp

lemma fold_fold_concat: "fold (\<lambda>xs c. fold f xs c) xss c = fold f (concat xss) c"
  by (induction xss arbitrary: c) simp_all

lemma CalculateAssignedPods_eq:
  "CalculateAssignedPods E name ns = wrap64 (int (length (assigned_pods E name ns)))"
  by (simp add: CalculateAssignedPods_def assigned_pods_def fold_fold_concat fold_count in_int64_def
      split: sum.split)

section \<open>Permit\<close>

lemma Permit_decides:
  assumes "GetPodGroup E pod = (g, Some pg)" and "in_int32 (MinMember (Spec pg))"
    and "int (length (assigned_pods E (pg_Name pg) (pg_Namespace pg))) < 2 ^ 31 - 1"
  shows "Manager_Permit E state pod =
    (if MinMember (Spec pg) \<le> int (length (assigned_pods E (pg_Name pg) (pg_Namespace pg))) + 1
     then (Success, state)
     else (Wait, if assigned_pods E (pg_Name pg) (pg_Namespace pg) = []
                 then state(permitStateKey \<mapsto> PermitStateData \<lparr>Activate = True\<rparr>) else state))"
proof -
  let ?n = "int (length (assigned_pods E (pg_Name pg) (pg_Namespace pg)))"
  have g: "g \<noteq> ''''" using assms(1) by (auto simp: GetPodGroup_def Let_def split: if_splits)
  have "CalculateAssignedPods E (pg_Name pg) (pg_Namespace pg) = ?n"
    using assms(3) by (simp add: CalculateAssignedPods_eq in_int64_def)
  moreover have "wrap32 ?n = ?n" and "wrap32 (?n + 1) = ?n + 1"
    using assms(3) by (simp_all add: in_int32_def)
  ultimately show ?thesis using g by (simp add: Manager_Permit_def assms(1))
qed

text \<open>
  The gang condition: for a pod whose group is found, \<open>Permit\<close> answers
  \<open>Success\<close> exactly when the pods of the group already assigned to nodes, and this
  pod, make up the group's minimum; otherwise it answers \<open>Wait\<close>, and it requests the
  activation of the siblings exactly when no pod of the group is assigned yet.
\<close>

theorem Permit_gang:
  assumes "GetPodGroup E pod = (g, Some pg)" and "in_int32 (MinMember (Spec pg))"
    and "int (length (assigned_pods E (pg_Name pg) (pg_Namespace pg))) < 2 ^ 31 - 1"
  shows "Manager_Permit E state pod =
    (if MinMember (Spec pg) \<le> int (length (assigned_pods E (pg_Name pg) (pg_Namespace pg))) + 1
     then (Success, state)
     else (Wait, if assigned_pods E (pg_Name pg) (pg_Namespace pg) = []
                 then state(permitStateKey \<mapsto> PermitStateData \<lparr>Activate = True\<rparr>) else state))"
  by (rule Permit_decides [OF assms])

theorem Permit_gang_witness:
  "fst (Manager_Permit demo_env Map.empty (hd demo_pods)) = Wait"
proof -
  have g: "GetPodGroup demo_env (hd demo_pods) = (''ns/g'', Some demo_group)" by (simp add: GetPodGroup_def)
  have n: "assigned_pods demo_env (pg_Name demo_group) (pg_Namespace demo_group) = []"
    by (simp add: assigned_pods_def) (simp add: demo_env_def)
  show ?thesis by (subst Permit_gang [OF g]) (simp_all add: n in_int32_def)
qed

text \<open>
  A pod without a group label is never held back and a pod whose group cannot be
  read is never let through: these are exactly the answers \<open>PodGroupNotSpecified\<close> and
  \<open>PodGroupNotFound\<close>, and they leave the cycle state alone.
\<close>

theorem Permit_without_group:
  "(Manager_Permit E state pod = (PodGroupNotSpecified, state) \<longleftrightarrow> util_GetPodGroupLabel E pod = '''')
   \<and> (Manager_Permit E state pod = (PodGroupNotFound, state) \<longleftrightarrow>
       util_GetPodGroupLabel E pod \<noteq> '''' \<and> isl (client_Get E (pod_Namespace pod) (util_GetPodGroupLabel E pod)))"
  by (auto simp: Manager_Permit_def GetPodGroup_def Let_def isl_def split: sum.splits)

section \<open>Activating the siblings\<close>

lemma fold_upd_notin: "\<forall>p\<in>set ps. f p \<noteq> k \<Longrightarrow> fold (\<lambda>p m. m(f p \<mapsto> p)) ps m k = m k"
  by (induction ps arbitrary: m) auto

lemma fold_upd_in:
  "distinct (map f ps) \<Longrightarrow> p \<in> set ps \<Longrightarrow> fold (\<lambda>p m. m(f p \<mapsto> p)) ps m (f p) = Some p"
proof (induction ps arbitrary: m)
  case (Cons q ps)
  show ?case
  proof (cases "p \<in> set ps")
    case True
    with Cons show ?thesis by simp
  next
    case False
    with Cons.prems have "p = q" "\<forall>x\<in>set ps. f x \<noteq> f p" by (auto simp: image_iff)
    then show ?thesis using fold_upd_notin [of ps f "f p" "m(f p \<mapsto> p)"] by (simp del: fun_upd_apply) simp
  qed
qed simp

lemma drop_uid_eq:
  "distinct (map pod_UID ps) \<Longrightarrow> drop_uid uid ps = filter (\<lambda>p. pod_UID p \<noteq> uid) ps"
proof (induction ps)
  case (Cons p ps)
  have "filter (\<lambda>q. pod_UID q \<noteq> uid) ps = ps" if "pod_UID p = uid"
    using Cons.prems that by (auto simp: filter_id_conv image_iff)
  with Cons show ?case by simp
qed simp

text \<open>
  C24. The first pod of a group that has to wait wakes its siblings: after \<open>Permit\<close>
  has answered \<open>Wait\<close> with no pod assigned, \<open>ActivateSiblings\<close> puts exactly the other
  pods of the group, each under its namespaced name, into the framework's map of pods
  to activate, and keeps what was there for other pods.
\<close>

theorem Permit_then_ActivateSiblings:
  assumes "Manager_Permit E state pod = (Wait, state')" and "GetPodGroup E pod = (g, Some pg)"
    and "CalculateAssignedPods E (pg_Name pg) (pg_Namespace pg) = 0"
    and "state PodsToActivateKey = Some (PodsToActivate m)"
    and "podLister_List E (pod_Namespace pod) (util_GetPodGroupLabel E pod) = Inr pods"
    and "distinct (map pod_UID pods)" and "distinct (map GetNamespacedName pods)"
  shows "\<exists>m'. ActivateSiblings E pod state' PodsToActivateKey = Some (PodsToActivate m')
    \<and> (\<forall>p\<in>set pods. pod_UID p \<noteq> pod_UID pod \<longrightarrow> m' (GetNamespacedName p) = Some p)
    \<and> (\<forall>k. k \<notin> GetNamespacedName ` {p \<in> set pods. pod_UID p \<noteq> pod_UID pod} \<longrightarrow> m' k = m k)"
proof -
  let ?sib = "filter (\<lambda>p. pod_UID p \<noteq> pod_UID pod) pods"
  let ?m' = "fold (\<lambda>p m. m(GetNamespacedName p \<mapsto> p)) ?sib m"
  have keys: "PodsToActivateKey \<noteq> permitStateKey" by (simp add: PodsToActivateKey_def permitStateKey_def)
  have lab: "util_GetPodGroupLabel E pod \<noteq> ''''" and g: "g \<noteq> ''''"
    using assms(2) by (auto simp: GetPodGroup_def Let_def split: if_splits)
  have "state' = state(permitStateKey \<mapsto> PermitStateData \<lparr>Activate = True\<rparr>)"
    using assms(1-3) g by (auto simp: Manager_Permit_def Let_def split: if_splits)
  then have "ActivateSiblings E pod state' PodsToActivateKey = Some (PodsToActivate ?m')"
    using assms(4,5) keys lab by (auto simp: ActivateSiblings_def stash_pods_def Let_def drop_uid_eq [OF assms(6)])
  moreover have "?m' (GetNamespacedName p) = Some p" if "p \<in> set pods" "pod_UID p \<noteq> pod_UID pod" for p
    using that assms(7) by (intro fold_upd_in) (auto simp: distinct_map_filter)
  moreover have "?m' k = m k" if "k \<notin> GetNamespacedName ` {p \<in> set pods. pod_UID p \<noteq> pod_UID pod}" for k
    using that by (intro fold_upd_notin) auto
  ultimately show ?thesis by blast
qed

theorem Permit_then_ActivateSiblings_witness:
  "\<exists>m'. ActivateSiblings demo_env (hd demo_pods)
      (snd (Manager_Permit demo_env [PodsToActivateKey \<mapsto> PodsToActivate Map.empty] (hd demo_pods)))
      PodsToActivateKey = Some (PodsToActivate m') \<and> m' ''ns/b'' = Some (demo_pods ! 1)"
proof -
  let ?s = "[PodsToActivateKey \<mapsto> PodsToActivate Map.empty]"
  have g: "GetPodGroup demo_env (hd demo_pods) = (''ns/g'', Some demo_group)" by (simp add: GetPodGroup_def)
  have zero: "CalculateAssignedPods demo_env (pg_Name demo_group) (pg_Namespace demo_group) = 0"
    by (simp add: CalculateAssignedPods_def) (simp add: demo_env_def)
  have "fst (Manager_Permit demo_env ?s (hd demo_pods)) = Wait"
    by (simp add: Manager_Permit_def g zero in_int32_def)
  then obtain state' where wait: "Manager_Permit demo_env ?s (hd demo_pods) = (Wait, state')"
    by (cases "Manager_Permit demo_env ?s (hd demo_pods)") simp
  have pods: "distinct (map pod_UID demo_pods)" "distinct (map GetNamespacedName demo_pods)"
    "demo_pods ! 1 \<in> set demo_pods" "pod_UID (demo_pods ! 1) \<noteq> pod_UID (hd demo_pods)"
    "GetNamespacedName (demo_pods ! 1) = ''ns/b''"
    by (simp_all add: demo_pods_def plain_pod_def GetNamespacedName_def)
  from Permit_then_ActivateSiblings [OF wait g zero, of Map.empty demo_pods] pods wait
  show ?thesis by force
qed

end
