(* ===== verification/Fluence_Plugin.thy ===== *)
theory Fluence_Plugin
  imports Manager_Jobs Manager_Gang Cluster_Graph
begin

text \<open>
  The scheduler plugin, \<open>pkg/fluence/fluence.go\<close> and \<open>pkg/fluence/register.go\<close>: the
  extension points the Kubernetes scheduling framework calls. The framework's handle
  is the record \<open>handle\<close>: the waiting pods, the pod lister and the priority of a pod.
  Letting a waiting pod through or rejecting it is an effect on the framework; an
  operation returns the list of these effects.
\<close>

section \<open>The framework\<close>

datatype Code = CodeSuccess | Unschedulable | UnschedulableAndUnresolvable | CodeWait

type_synonym fw_status = "Code \<times> string"

record handle =
  WaitingPods :: "Pod list"
  handle_List :: "string \<Rightarrow> string \<Rightarrow> Pod list result"
  PodPriority :: "Pod \<Rightarrow> int32"

datatype waiting_action = Allow Pod string | Reject Pod string string

text \<open>\<open>IterateOverWaitingPods\<close> with a callback that acts on the pods satisfying a test.\<close>

definition IterateOverWaitingPods ::
    "handle \<Rightarrow> (Pod \<Rightarrow> bool) \<Rightarrow> (Pod \<Rightarrow> waiting_action) \<Rightarrow> waiting_action list" where
  "IterateOverWaitingPods H test act = map act (filter test (WaitingPods H))"

section \<open>The plugin\<close>

record Fluence =
  f_scheduleTimeout :: "duration option"
  podGroupBackoff :: "duration option"

definition Name :: string where
  "Name = ''Fluence''"

definition permitWaitingTimeSeconds :: int64 where
  "permitWaitingTimeSeconds = 300"

definition podGroupBackoffSeconds :: int64 where
  "podGroupBackoffSeconds = 0"

text \<open>\<open>register.go\<close>: lists the pods and, so far, only reports their number.\<close>

definition plugin_RegisterExisting :: "kube \<Rightarrow> unit result" where
  "plugin_RegisterExisting K =
     bind_result (InClusterConfig K) (\<lambda>config.
     bind_result (NewForConfig K) (\<lambda>clientset.
     bind_result (Pods_List K '''') (\<lambda>pods. Inr ())))"

text \<open>
  \<open>New\<close> returns the plugin (with its manager) together with the error of
  \<open>RegisterExisting\<close>; \<open>client.New\<close> is an argument.
\<close>

definition New ::
    "kube \<Rightarrow> ('c, 'w) env \<Rightarrow> unit result \<Rightarrow> (Fluence \<times> 'c PodGroupManager \<times> unit result) result" where
  "New K E client_New =
     bind_result client_New (\<lambda>client.
       let scheduleTimeDuration = wrap64 (permitWaitingTimeSeconds * Second);
           manager = NewPodGroupManager E (Some scheduleTimeDuration);
           backoffSeconds = wrap64 (podGroupBackoffSeconds * Second)
       in Inr (\<lparr>f_scheduleTimeout = Some scheduleTimeDuration, podGroupBackoff = Some backoffSeconds\<rparr>,
               manager, plugin_RegisterExisting K))"

text \<open>
  The events that move a rejected pod back to the queue. The API group of the PodGroup
  resource comes from another package and is an argument.
\<close>

datatype event_action = EventAdd | EventUpdate | EventDelete

datatype event_resource = ResourcePod | ResourceGVK string

definition EventsToRegister :: "string \<Rightarrow> (event_resource \<times> event_action set) list result" where
  "EventsToRegister GroupName =
     (let podGroupGVK = ''podgroups.v1alpha1.'' @ GroupName in
      Inr [(ResourcePod, {EventAdd, EventDelete}), (ResourceGVK podGroupGVK, {EventAdd, EventUpdate, EventDelete})])"

definition PreFilterExtensions :: "unit option" where
  "PreFilterExtensions = None"

definition Filter :: "CycleState \<Rightarrow> Pod \<Rightarrow> string \<Rightarrow> fw_status result" where
  "Filter cycleState pod nodeName =
     (case cycleState (pod_Name pod) of
        None \<Rightarrow> Inr (CodeSuccess, '''')
      | Some (FluxState v) \<Rightarrow>
          if NodeName v \<noteq> nodeName then Inr (Unschedulable, ''pod is not permitted'')
          else Inr (CodeSuccess, '''')
      | Some _ \<Rightarrow> Inl (Panic NilDereference))"

text \<open>A clone of the cycle state, as the framework makes it for a what-if run, filters alike.\<close>

lemma Filter_Clone: "Filter (map_option StateData_Clone \<circ> state) pod nodeName = Filter state pod nodeName"
proof -
  have "map_option StateData_Clone \<circ> state = state" by (auto simp: fun_eq_iff intro!: option.map_ident_strong StateData_Clone_id)
  then show ?thesis by simp
qed

definition Less :: "('c, 'w) env \<Rightarrow> handle \<Rightarrow> QueuedPodInfo \<Rightarrow> QueuedPodInfo \<Rightarrow> bool result" where
  "Less E H podInfo1 podInfo2 =
     (let prio1 = PodPriority H (qpi_Pod podInfo1); prio2 = PodPriority H (qpi_Pod podInfo2) in
      if prio1 \<noteq> prio2 then Inr (prio1 > prio2)
      else
        (case (GetPodGroup E (qpi_Pod podInfo1), GetPodGroup E (qpi_Pod podInfo2)) of
           ((name1, podGroup1), (name2, podGroup2)) \<Rightarrow>
             bind_result (GetCreationTimestamp name1 podGroup1 podInfo1) (\<lambda>creationTime1.
             bind_result (GetCreationTimestamp name2 podGroup2 podInfo2) (\<lambda>creationTime2.
               if creationTime1 = creationTime2
               then Inr (GetNamespacedName (qpi_Pod podInfo1) < GetNamespacedName (qpi_Pod podInfo2))
               else Inr (creationTime1 < creationTime2)))))"

definition Fluence_PreFilter ::
    "('c, 'w) env \<Rightarrow> CycleState \<Rightarrow> Pod \<Rightarrow> ('c, 'w) world
     \<Rightarrow> (string set option \<times> fw_status) result \<times> CycleState \<times> ('c, 'w) world" where
  "Fluence_PreFilter E state pod st =
     (let node = GetPodNode (mgr st) pod in
      if node \<noteq> '''' then (Inr (Some {node}, (CodeSuccess, '''')), state, st)
      else
        (case Manager_PreFilter E pod state st of
           (Inl (Panic p), state', st') \<Rightarrow> (Inl (Panic p), state', st')
         | (Inl (Err e), state', st') \<Rightarrow> (Inr (None, (UnschedulableAndUnresolvable, e)), state', st')
         | (Inr _, state', st') \<Rightarrow> (Inr (Some {GetPodNode (mgr st') pod}, (CodeSuccess, '''')), state', st')))"

text \<open>The waiting pods of a group, as \<open>PostFilter\<close> and \<open>Unreserve\<close> select them.\<close>

definition same_group :: "Pod \<Rightarrow> PodGroup \<Rightarrow> Pod \<Rightarrow> bool" where
  "same_group pod pg waitingPod \<longleftrightarrow>
     pod_Namespace waitingPod = pod_Namespace pod \<and> GetPodGroupLabel waitingPod = pg_Name pg"

definition PostFilter ::
    "('c, 'w) env \<Rightarrow> handle \<Rightarrow> Fluence \<Rightarrow> Pod \<Rightarrow> ('c, 'w) world
     \<Rightarrow> fw_status \<times> waiting_action list \<times> ('c, 'w) world" where
  "PostFilter E H f pod st =
     (case GetPodGroup E pod of
        (groupName, None) \<Rightarrow> ((Unschedulable, ''can not find pod group''), [], st)
      | (groupName, Some podGroup) \<Rightarrow>
          if CalculateAssignedPods E (pg_Name podGroup) (pod_Namespace pod) \<ge> MinMember (Spec podGroup)
          then ((Unschedulable, ''''), [], st)
          else
            let actions = IterateOverWaitingPods H (same_group pod podGroup)
                  (\<lambda>p. Reject p Name ''optimistic rejection in PostFilter'');
                m1 = (case podGroupBackoff f of
                        None \<Rightarrow> mgr st
                      | Some backoff \<Rightarrow>
                          (case handle_List H (pod_Namespace pod) (GetPodGroupLabel pod) of
                             Inl err \<Rightarrow> mgr st
                           | Inr pods \<Rightarrow>
                               if int (length pods) \<ge> MinMember (Spec podGroup)
                               then BackoffPodGroup E groupName backoff (mgr st) else mgr st))
            in ((Unschedulable, ''PodGroup '' @ groupName @ '' gets rejected due to Pod '' @ pod_Name pod
                   @ '' is unschedulable even after PostFilter''),
                actions, st\<lparr>mgr := DeletePermittedPodGroup E groupName m1\<rparr>))"

definition Fluence_Permit ::
    "('c, 'w) env \<Rightarrow> handle \<Rightarrow> Fluence \<Rightarrow> CycleState \<Rightarrow> Pod
     \<Rightarrow> ((fw_status \<times> duration) \<times> waiting_action list \<times> CycleState) result" where
  "Fluence_Permit E H f state pod =
     bind_result (deref (f_scheduleTimeout f)) (\<lambda>waitTime.
       case Manager_Permit E state pod of
         (PodGroupNotSpecified, state') \<Rightarrow> Inr (((CodeSuccess, ''''), 0), [], state')
       | (PodGroupNotFound, state') \<Rightarrow> Inr (((Unschedulable, ''PodGroup not found''), 0), [], state')
       | (Wait, state') \<Rightarrow>
           let wait = GetWaitTimeDuration (snd (GetPodGroup E pod)) (f_scheduleTimeout f)
           in Inr (((CodeWait, ''''), if wait \<noteq> 0 then wait else waitTime), [],
                   ActivateSiblings E pod state')
       | (Success, state') \<Rightarrow>
           let podGroupFullName = GetPodGroupFullName pod
           in Inr (((CodeSuccess, ''''), 0),
                   IterateOverWaitingPods H (\<lambda>p. GetPodGroupFullName p = podGroupFullName) (\<lambda>p. Allow p Name),
                   state'))"

definition Reserve :: "CycleState \<Rightarrow> Pod \<Rightarrow> string \<Rightarrow> fw_status option" where
  "Reserve state pod nodeName = None"

definition Unreserve ::
    "('c, 'w) env \<Rightarrow> handle \<Rightarrow> Pod \<Rightarrow> ('c, 'w) world \<Rightarrow> waiting_action list \<times> ('c, 'w) world" where
  "Unreserve E H pod st =
     (case GetPodGroup E pod of
        (groupName, None) \<Rightarrow> ([], st)
      | (groupName, Some podGroup) \<Rightarrow>
          (IterateOverWaitingPods H (same_group pod podGroup) (\<lambda>p. Reject p Name ''rejection in Unreserve''),
           st\<lparr>mgr := DeletePermittedPodGroup E groupName (mgr st)\<rparr>))"


section \<open>The order of the scheduling queue\<close>

text \<open>The key a queued pod is sorted by: higher priority first, then time, then name.\<close>

datatype queue_key = QueueKey (qk_priority: int) (qk_time: instant) (qk_name: string)

instantiation queue_key :: linorder
begin

definition less_queue_key :: "queue_key \<Rightarrow> queue_key \<Rightarrow> bool" where
  "less_queue_key a b \<longleftrightarrow>
     qk_priority a > qk_priority b
   \<or> qk_priority a = qk_priority b \<and>
       (qk_time a < qk_time b \<or> qk_time a = qk_time b \<and> qk_name a < qk_name b)"

definition less_eq_queue_key :: "queue_key \<Rightarrow> queue_key \<Rightarrow> bool" where
  "less_eq_queue_key a b \<longleftrightarrow> a < b \<or> a = (b :: queue_key)"

instance
proof
  fix a b c :: queue_key
  show "a < b \<longleftrightarrow> a \<le> b \<and> \<not> b \<le> a"
    by (cases a; cases b) (auto simp: less_queue_key_def less_eq_queue_key_def)
  show "a \<le> a" by (simp add: less_eq_queue_key_def)
  show "a \<le> b \<Longrightarrow> b \<le> c \<Longrightarrow> a \<le> c"
    by (cases a; cases b; cases c) (auto simp: less_queue_key_def less_eq_queue_key_def)
  show "a \<le> b \<Longrightarrow> b \<le> a \<Longrightarrow> a = b"
    by (cases a; cases b) (auto simp: less_queue_key_def less_eq_queue_key_def)
  show "a \<le> b \<or> b \<le> a"
    by (cases a; cases b) (auto simp: less_queue_key_def less_eq_queue_key_def)
qed

end

lemma less_queue_keyD: "QueueKey p s n < QueueKey q u m \<Longrightarrow> q < p \<or> p = q \<and> s \<le> u"
  by (auto simp: less_queue_key_def)

text \<open>
  The time a queued pod is sorted by is known when its group has a schedule start time
  or the pod has been attempted before; otherwise reading it is a nil dereference.
\<close>

definition queue_time :: "('c, 'w) env \<Rightarrow> QueuedPodInfo \<Rightarrow> instant result" where
  "queue_time E info = GetCreationTimestamp (fst (GetPodGroup E (qpi_Pod info))) (snd (GetPodGroup E (qpi_Pod info))) info"

definition timed :: "('c, 'w) env \<Rightarrow> QueuedPodInfo set" where
  "timed E = {info. \<not> isl (queue_time E info)}"

definition key_of :: "('c, 'w) env \<Rightarrow> handle \<Rightarrow> QueuedPodInfo \<Rightarrow> queue_key" where
  "key_of E H info =
     QueueKey (PodPriority H (qpi_Pod info)) (projr (queue_time E info)) (GetNamespacedName (qpi_Pod info))"

lemma Less_eq_key:
  assumes "p \<in> timed E" and "q \<in> timed E"
  shows "Less E H p q = Inr (key_of E H p < key_of E H q)"
proof -
  obtain t u where "queue_time E p = Inr t" "queue_time E q = Inr u"
    using assms by (auto simp: timed_def isl_def) (metis obj_sumE)+
  then show ?thesis
    by (auto simp: Less_def queue_time_def key_of_def less_queue_key_def Let_def split: prod.splits)
qed

text \<open>What a queue asks of its comparison: on a carrier it compares keys of a linear order.\<close>

locale queue_sort =
  fixes carrier :: "'a set" and before :: "'a \<Rightarrow> 'a \<Rightarrow> bool" and key :: "'a \<Rightarrow> 'k :: linorder"
  assumes before_key: "a \<in> carrier \<Longrightarrow> b \<in> carrier \<Longrightarrow> before a b \<longleftrightarrow> key a < key b"
begin

lemma irrefl: "a \<in> carrier \<Longrightarrow> \<not> before a a"
  by (simp add: before_key)

lemma asym: "a \<in> carrier \<Longrightarrow> b \<in> carrier \<Longrightarrow> before a b \<Longrightarrow> \<not> before b a"
  by (simp add: before_key)

lemma trans: "a \<in> carrier \<Longrightarrow> b \<in> carrier \<Longrightarrow> c \<in> carrier \<Longrightarrow> before a b \<Longrightarrow> before b c \<Longrightarrow> before a c"
  by (simp add: before_key)

lemma connected: "a \<in> carrier \<Longrightarrow> b \<in> carrier \<Longrightarrow> key a \<noteq> key b \<Longrightarrow> before a b \<or> before b a"
  by (auto simp: before_key)

lemma between:
  "a \<in> carrier \<Longrightarrow> b \<in> carrier \<Longrightarrow> c \<in> carrier \<Longrightarrow> before a b \<Longrightarrow> before b c \<Longrightarrow> key a < key b \<and> key b < key c"
  by (simp add: before_key)

end

interpretation less: queue_sort "timed E" "\<lambda>p q. Less E H p q = Inr True" "key_of E H" for E H
  by unfold_locales (simp add: Less_eq_key)

text \<open>
  C14. \<open>Less\<close> is a strict total order on the queued pods whose time is known: it never
  panics on them, is irreflexive and transitive, and decides between any two pods with
  different namespaced names.
\<close>

theorem Less_strict_total_order:
  assumes "p \<in> timed E" and "q \<in> timed E" and "r \<in> timed E"
  shows "Less E H p q \<noteq> Inl e \<and> Less E H p p = Inr False
    \<and> (Less E H p q = Inr True \<and> Less E H q r = Inr True \<longrightarrow> Less E H p r = Inr True)
    \<and> (GetNamespacedName (qpi_Pod p) \<noteq> GetNamespacedName (qpi_Pod q) \<longrightarrow>
         (Less E H p q = Inr True) \<noteq> (Less E H q p = Inr True))"
proof -
  have "key_of E H p \<noteq> key_of E H q" if "GetNamespacedName (qpi_Pod p) \<noteq> GetNamespacedName (qpi_Pod q)"
    using that by (simp add: key_of_def)
  then show ?thesis
    using less.trans [of p E q r H] less.connected [of p E q H] less.asym [of p E q H] assms
    by (auto simp: Less_eq_key)
qed

definition demo_handle :: handle where
  "demo_handle = \<lparr>WaitingPods = demo_pods, handle_List = podLister_List demo_env, PodPriority = (\<lambda>_. 0)\<rparr>"

definition demo_queued :: "Pod \<Rightarrow> instant \<Rightarrow> QueuedPodInfo" where
  "demo_queued p t = \<lparr>qpi_Pod = p, InitialAttemptTimestamp = Some t\<rparr>"

lemma demo_queued_pod [simp]: "qpi_Pod (demo_queued p t) = p"
  by (simp add: demo_queued_def)

lemma demo_timed [simp]: "demo_queued p t \<in> timed E"
  by (auto simp: timed_def queue_time_def Group_Labels.GetCreationTimestamp_def demo_queued_def deref_def
      split: option.splits)

theorem Less_strict_total_order_witness:
  "(Less demo_env demo_handle (demo_queued (demo_pods ! 0) 5) (demo_queued (demo_pods ! 1) 5) = Inr True)
     \<noteq> (Less demo_env demo_handle (demo_queued (demo_pods ! 1) 5) (demo_queued (demo_pods ! 0) 5) = Inr True)"
proof -
  have "GetNamespacedName (demo_pods ! 0) \<noteq> GetNamespacedName (demo_pods ! 1)"
    by (simp add: demo_pods_def plain_pod_def GetNamespacedName_def)
  then show ?thesis
    using Less_strict_total_order [of "demo_queued (demo_pods ! 0) 5" demo_env "demo_queued (demo_pods ! 1) 5"
        "demo_queued (demo_pods ! 0) 5" demo_handle]
    by simp
qed

text \<open>
  A gang stays together in the queue: a pod sorted between two pods of the same
  group (with the same priority, the group's schedule start time being set) has the
  same priority and the same time, so a pod of a group with another start time is never
  queued in the middle of a gang.
\<close>

theorem Less_gang_contiguous:
  assumes "GetPodGroup E (qpi_Pod a) = (g, Some pg)" and "GetPodGroup E (qpi_Pod c) = (g, Some pg)"
    and "\<not> IsZero (ScheduleStartTime (Status pg))"
    and "PodPriority H (qpi_Pod a) = PodPriority H (qpi_Pod c)" and "b \<in> timed E"
    and "Less E H a b = Inr True" and "Less E H b c = Inr True"
  shows "PodPriority H (qpi_Pod b) = PodPriority H (qpi_Pod a)
    \<and> queue_time E b = Inr (ScheduleStartTime (Status pg))"
proof -
  have t: "queue_time E a = Inr (ScheduleStartTime (Status pg))" "queue_time E c = Inr (ScheduleStartTime (Status pg))"
    using assms(1-3) by (simp_all add: queue_time_def Group_Labels.GetCreationTimestamp_def)
  then have "a \<in> timed E" "c \<in> timed E" by (simp_all add: timed_def)
  from less.between [OF this(1) assms(5) this(2) assms(6,7)]
  have keys: "key_of E H a < key_of E H b" "key_of E H b < key_of E H c" by simp_all
  obtain u where u: "queue_time E b = Inr u"
    using assms(5) by (cases "queue_time E b") (auto simp: timed_def)
  let ?p = "PodPriority H (qpi_Pod a)" and ?q = "PodPriority H (qpi_Pod b)" and ?s = "ScheduleStartTime (Status pg)"
  have "?q < ?p \<or> ?p = ?q \<and> ?s \<le> u" and "?p < ?q \<or> ?q = ?p \<and> u \<le> ?s"
    using keys [unfolded key_of_def t u assms(4) [symmetric] sum.sel, THEN less_queue_keyD] .
  then show ?thesis unfolding u by (elim disjE conjE) simp_all
qed

text \<open>Pods of the demo group once the group has a schedule start time.\<close>

definition started_group :: PodGroup where
  "started_group = demo_group\<lparr>Status := zero_PodGroupStatus\<lparr>ScheduleStartTime := 7\<rparr>\<rparr>"

definition started_env :: "(string list, jobid list \<times> jobid) env" where
  "started_env = demo_env\<lparr>client_Get := \<lambda>_ _. Inr started_group\<rparr>"

definition member :: "string \<Rightarrow> QueuedPodInfo" where
  "member n = demo_queued (plain_pod ''ns'' n (Some [PodGroupLabel \<mapsto> ''g''])) 0"

lemma member_simps [simp]:
  "GetPodGroup started_env (qpi_Pod (member n)) = (''ns/g'', Some started_group)"
  "GetNamespacedName (qpi_Pod (member n)) = ''ns/'' @ n" "member n \<in> timed E"
  by (simp_all add: started_env_def member_def GetPodGroup_def plain_pod_def GetPodGroupLabel_def
      label_or_empty_def GetNamespacedName_def)

lemma started_simps [simp]:
  "\<not> IsZero 7" "ScheduleStartTime (Status started_group) = 7"
  "PodPriority demo_handle p = 0"
  by (simp_all add: started_group_def IsZero_def demo_handle_def)

lemma member_time: "queue_time started_env (member n) = Inr 7"
  by (simp add: queue_time_def Group_Labels.GetCreationTimestamp_def)

theorem Less_gang_contiguous_witness:
  "Less started_env demo_handle (member ''a'') (member ''b'') = Inr True
   \<and> queue_time started_env (member ''b'') = Inr 7"
proof -
  have ab: "Less started_env demo_handle (member ''a'') (member ''b'') = Inr True"
    and bc: "Less started_env demo_handle (member ''b'') (member ''c'') = Inr True"
    by (simp_all add: Less_eq_key less_queue_key_def key_of_def member_time)
  from Less_gang_contiguous [OF member_simps(1,1) _ _ member_simps(3) ab bc] ab
  show ?thesis by simp
qed


section \<open>PreFilter and Filter\<close>

lemma PreFilter_gang_nodes:
  assumes "GetPodNode (mgr st) pod = ''''" and "asks_fluxion E pod st = Some (g, pg, pods)" and "pods \<noteq> []"
    and "AskFlux E (hd pods) pg g st = (Inr nodes, st1)" and "length nodes = length pods"
    and "distinct (map pod_Name pods)" and "scheduleTimeout (mgr st1) = Some timeout"
    and "Fluence_PreFilter E state pod st = (r, state', st')" and "i < length pods"
  shows "GetPodNode (mgr st') (pods ! i) = nodes ! i"
    and "state' (pod_Name (pods ! i)) = Some (FluxState \<lparr>NodeName = nodes ! i\<rparr>)"
    and "r = Inr (Some {GetPodNode (mgr st') pod}, (CodeSuccess, ''''))"
    and "groupToJobId (mgr st') = groupToJobId (mgr st1)" and "remote st' = remote st1"
proof -
  have adm: "Manager_PreFilter E pod state st = (Inr (),
      state(map pod_Name pods [\<mapsto>] map (\<lambda>n. FluxState \<lparr>NodeName = n\<rparr>) nodes),
      st1\<lparr>mgr := (mgr st1)\<lparr>podToNode := (podToNode (mgr st1))(map pod_Name pods [\<mapsto>] nodes),
         permittedpodGroup := cache_Add E (permittedpodGroup (mgr st1)) g timeout\<rparr>\<rparr>)"
    using PreFilter_asking_hd [OF assms(2-4)] admit_group_exact [OF assms(5,7)] by simp
  then have st': "podToNode (mgr st') = (podToNode (mgr st1))(map pod_Name pods [\<mapsto>] nodes)"
    and state': "state' = state(map pod_Name pods [\<mapsto>] map (\<lambda>n. FluxState \<lparr>NodeName = n\<rparr>) nodes)"
    and r: "r = Inr (Some {GetPodNode (mgr st') pod}, (CodeSuccess, ''''))"
    and jobs: "groupToJobId (mgr st') = groupToJobId (mgr st1)" "remote st' = remote st1"
    using assms(1,8) by (auto simp: Fluence_PreFilter_def)
  show "GetPodNode (mgr st') (pods ! i) = nodes ! i"
    using map_upds_nth [OF assms(6), of i nodes] assms(5,9) by (simp add: GetPodNode_def st')
  show "state' (pod_Name (pods ! i)) = Some (FluxState \<lparr>NodeName = nodes ! i\<rparr>)"
    using map_upds_nth [OF assms(6), of i "map (\<lambda>n. FluxState \<lparr>NodeName = n\<rparr>) nodes"] assms(5,9)
    by (simp add: state')
  show "r = Inr (Some {GetPodNode (mgr st') pod}, (CodeSuccess, ''''))" by (rule r)
  show "groupToJobId (mgr st') = groupToJobId (mgr st1)" "remote st' = remote st1" by (fact jobs)+
qed

text \<open>
  One scheduling attempt places the whole gang: after the plugin's \<open>PreFilter\<close> of
  one pod has had Fluxion allocate one node per pod of the group, it answers with the
  node of that pod, and the \<open>PreFilter\<close> of every pod of the group answers at once with the one node Fluxion chose for that pod,
  without touching any state, and \<open>Filter\<close> accepts that node and no other.
\<close>

theorem PreFilter_places_gang:
  assumes "GetPodNode (mgr st) pod = ''''" and "asks_fluxion E pod st = Some (g, pg, pods)" and "pods \<noteq> []"
    and "AskFlux E (hd pods) pg g st = (Inr nodes, st1)" and "length nodes = length pods"
    and "distinct (map pod_Name pods)" and "scheduleTimeout (mgr st1) = Some timeout"
    and "'''' \<notin> set nodes" and "Fluence_PreFilter E state pod st = (r, state', st')" and "i < length pods"
  shows "(pods ! i = pod \<longrightarrow> r = Inr (Some {nodes ! i}, (CodeSuccess, '''')))
    \<and> Fluence_PreFilter E state'' (pods ! i) st' = (Inr (Some {nodes ! i}, (CodeSuccess, '''')), state'', st')
    \<and> (Filter state' (pods ! i) node = Inr (CodeSuccess, '''') \<longleftrightarrow> node = nodes ! i)"
proof -
  have "nodes ! i \<noteq> ''''" using assms(5,8,10) nth_mem [of i nodes] by metis
  with PreFilter_gang_nodes [OF assms(1-7,9,10)] show ?thesis by (auto simp: Fluence_PreFilter_def Filter_def)
qed

theorem PreFilter_places_gang_witness:
  "\<exists>r state' st'. Fluence_PreFilter demo_env Map.empty (hd demo_pods) demo_start = (r, state', st')
     \<and> Fluence_PreFilter demo_env Map.empty (demo_pods ! 1) st'
         = (Inr (Some {''n2''}, (CodeSuccess, '''')), Map.empty, st')"
proof -
  obtain r state' st' where run: "Fluence_PreFilter demo_env Map.empty (hd demo_pods) demo_start = (r, state', st')"
    by (cases "Fluence_PreFilter demo_env Map.empty (hd demo_pods) demo_start")
  have "Fluence_PreFilter demo_env Map.empty (demo_pods ! 1) st' =
      (Inr (Some {[''n1'', ''n2''] ! 1}, (CodeSuccess, '''')), Map.empty, st')"
    using PreFilter_places_gang [OF _ demo_asks _ demo_AskFlux _ _ _ _ run, of "300 * Second" 1 Map.empty]
    by (simp add: GetPodNode_def)
  with run show ?thesis by auto
qed

text \<open>
  C40. A node once assigned outlives its job: in a reachable state, after the job of a
  group has been released because a pod succeeded or failed, \<open>PreFilter\<close> of any pod with
  the name of a pod that had a node (in any namespace, of any group) still answers with
  that node, and does not ask Fluxion.
\<close>

theorem PreFilter_answers_stale_node:
  assumes "reachable live P st" and "lister_laws E" and "podToNode (mgr st) (pod_Name pod) = Some node" and "node \<noteq> ''''"
    and "st' = UpdatePod E oldPod newPod st"
  shows "Fluence_PreFilter E' state pod st' = (Inr (Some {node}, (CodeSuccess, '''')), state, st')"
proof -
  have "podToNode (mgr st') (pod_Name pod) = Some node"
    using UpdatePod_nodes [OF reachable_keys [OF assms(1)] assms(2)] assms(3,5) by simp
  with assms(4) show ?thesis by (simp add: Fluence_PreFilter_def GetPodNode_def)
qed

theorem PreFilter_answers_stale_node_witness:
  "Fluence_PreFilter demo_env Map.empty (plain_pod ''elsewhere'' ''a'' None)
     (UpdatePod demo_env (hd demo_pods) ((hd demo_pods)\<lparr>pod_Phase := PodSucceeded\<rparr>) demo_admitted)
   = (Inr (Some {''n1''}, (CodeSuccess, '''')), Map.empty,
      UpdatePod demo_env (hd demo_pods) ((hd demo_pods)\<lparr>pod_Phase := PodSucceeded\<rparr>) demo_admitted)"
proof -
  have "podToNode (mgr demo_admitted) (pod_Name (plain_pod ''elsewhere'' ''a'' None)) = Some ''n1''"
    by (simp add: demo_admitted_eq) (simp add: demo_pods_def plain_pod_def)
  from PreFilter_answers_stale_node [OF demo_reachable demo_lister_laws this _ refl] show ?thesis by simp
qed

text \<open>
  A pod without a readable PodGroup that has no node passes \<open>PreFilter\<close> with success
  and the node set that holds only the empty name, which no node has; nothing is asked
  of Fluxion.
\<close>

theorem PreFilter_without_group:
  assumes "snd (GetPodGroup E pod) = None" and "GetPodNode (mgr st) pod = ''''"
  shows "Fluence_PreFilter E state pod st = (Inr (Some {''''}, (CodeSuccess, '''')), state, st)"
  using assms
  by (auto simp: Fluence_PreFilter_def Manager_PreFilter_def split: prod.splits option.splits)

theorem PreFilter_without_group_witness:
  "Fluence_PreFilter demo_env Map.empty (plain_pod ''ns'' ''solo'' None) demo_start
     = (Inr (Some {''''}, (CodeSuccess, '''')), Map.empty, demo_start)"
  by (rule PreFilter_without_group)
    (simp_all add: GetPodGroup_def GetPodGroupLabel_def plain_pod_def label_or_empty_def GetPodNode_def)

section \<open>Permit, PostFilter and Unreserve\<close>

text \<open>
  What the cache promises: a deleted key is absent, an added key is present until it
  expires (read right away, with a positive lifetime), other keys are untouched.
\<close>

definition cache_laws :: "('c, 'w) env \<Rightarrow> bool" where
  "cache_laws E \<longleftrightarrow>
     (\<forall>c k. \<not> cache_Get E (cache_Delete E c k) k)
   \<and> (\<forall>c k d. 0 < d \<longrightarrow> cache_Get E (cache_Add E c k d) k)
   \<and> (\<forall>c k k' d. k \<noteq> k' \<longrightarrow> cache_Get E (cache_Delete E c k) k' = cache_Get E c k'
        \<and> cache_Get E (cache_Add E c k d) k' = cache_Get E c k')"

text \<open>The bookkeeping operations of the manager leave jobs and nodes alone.\<close>

locale bookkeeping =
  fixes op :: "'c PodGroupManager \<Rightarrow> 'c PodGroupManager"
  assumes op_jobs: "groupToJobId (op m) = groupToJobId m"
    and op_nodes: "podToNode (op m) = podToNode m"
begin

lemma op_GetPodNode: "GetPodNode (op m) pod = GetPodNode m pod"
  by (simp add: GetPodNode_def op_nodes)

lemma op_PreFilter_answer:
  "GetPodNode (mgr st) pod \<noteq> '''' \<Longrightarrow>
   fst (Fluence_PreFilter E state pod (st\<lparr>mgr := op (mgr st)\<rparr>)) = fst (Fluence_PreFilter E state pod st)"
  by (simp add: Fluence_PreFilter_def op_GetPodNode)

end

interpretation backoff: bookkeeping "BackoffPodGroup E g d" for E g d
  by unfold_locales (simp_all add: BackoffPodGroup_def)

interpretation unpermit: bookkeeping "DeletePermittedPodGroup E g" for E g
  by unfold_locales (simp_all add: DeletePermittedPodGroup_def)

lemma Permit_allows:
  assumes "f_scheduleTimeout f = Some timeout" and "fst (Manager_Permit E state pod) = Success"
    and "GetPodGroupLabel pod \<noteq> ''''" and "\<forall>p\<in>set (pod # WaitingPods H). slash_free (pod_Namespace p)"
  shows "\<exists>state'. Fluence_Permit E H f state pod = Inr (((CodeSuccess, ''''), 0),
    map (\<lambda>p. Allow p Name) (filter (\<lambda>p. pod_Namespace p = pod_Namespace pod
      \<and> GetPodGroupLabel p = GetPodGroupLabel pod) (WaitingPods H)), state')"
proof -
  have "GetPodGroupFullName p = GetPodGroupFullName pod \<longleftrightarrow>
      pod_Namespace p = pod_Namespace pod \<and> GetPodGroupLabel p = GetPodGroupLabel pod"
    if "p \<in> set (WaitingPods H)" for p
  proof -
    have sf: "slash_free (pod_Namespace p)" "slash_free (pod_Namespace pod)" using assms(4) that by auto
    show ?thesis
      using assms(3) namespaced_inj [OF sf] by (auto simp: GetPodGroupFullName_def Let_def)
  qed
  then have "filter (\<lambda>p. GetPodGroupFullName p = GetPodGroupFullName pod) (WaitingPods H) =
      filter (\<lambda>p. pod_Namespace p = pod_Namespace pod \<and> GetPodGroupLabel p = GetPodGroupLabel pod) (WaitingPods H)"
    by (rule filter_cong [OF refl])
  with assms(1,2) show ?thesis
    by (cases "Manager_Permit E state pod") (simp add: Fluence_Permit_def deref_def IterateOverWaitingPods_def)
qed

text \<open>
  C12. Permit releases exactly the gang: when the plugin's \<open>Permit\<close> succeeds for a pod
  of a group, the pods it lets go are exactly the waiting pods of the same namespace
  with the same group label.
\<close>

theorem Permit_allows_exactly_gang:
  assumes "f_scheduleTimeout f = Some timeout" and "fst (Manager_Permit E state pod) = Success"
    and "GetPodGroupLabel pod \<noteq> ''''" and "\<forall>p\<in>set (pod # WaitingPods H). slash_free (pod_Namespace p)"
  shows "\<exists>state'. Fluence_Permit E H f state pod = Inr (((CodeSuccess, ''''), 0),
    map (\<lambda>p. Allow p Name) (filter (\<lambda>p. pod_Namespace p = pod_Namespace pod
      \<and> GetPodGroupLabel p = GetPodGroupLabel pod) (WaitingPods H)), state')"
  by (rule Permit_allows [OF assms])

text \<open>The demo cluster with the first pod of the group placed.\<close>

definition placed_env :: "(string list, jobid list \<times> jobid) env" where
  "placed_env = demo_env\<lparr>NodeInfos_List := Inr [[(hd demo_pods)\<lparr>pod_NodeName := ''n1''\<rparr>]]\<rparr>"

definition demo_plugin :: Fluence where
  "demo_plugin = \<lparr>f_scheduleTimeout = Some (300 * Second), podGroupBackoff = Some 0\<rparr>"

lemma placed_group: "GetPodGroup placed_env (demo_pods ! Suc 0) = (''ns/g'', Some demo_group)"
  by (simp add: GetPodGroup_def placed_env_def)
    (simp add: demo_pods_def plain_pod_def GetPodGroupLabel_def label_or_empty_def)

lemma placed_assigned: "CalculateAssignedPods placed_env ''g'' ''ns'' = 1"
  by (simp add: CalculateAssignedPods_def placed_env_def)
    (simp add: demo_pods_def plain_pod_def GetPodGroupLabel_def label_or_empty_def in_int64_def)

lemma demo_all: "p \<in> set demo_pods \<Longrightarrow> pod_Namespace p = ''ns'' \<and> GetPodGroupLabel p = ''g''"
  by (auto simp: demo_pods_def plain_pod_def GetPodGroupLabel_def label_or_empty_def)

lemma demo_group_name [simp]: "pg_Name demo_group = ''g''" "pg_Namespace demo_group = ''ns''"
  by (simp_all add: demo_group_def)

theorem Permit_allows_exactly_gang_witness:
  "\<exists>state'. Fluence_Permit placed_env demo_handle demo_plugin Map.empty (demo_pods ! 1) =
     Inr (((CodeSuccess, ''''), 0), map (\<lambda>p. Allow p Name) demo_pods, state')"
proof -
  have ok: "fst (Manager_Permit placed_env Map.empty (demo_pods ! 1)) = Success"
    by (simp add: Manager_Permit_def placed_group placed_assigned in_int32_def)
  have timeout: "f_scheduleTimeout demo_plugin = Some (300 * Second)" by (simp add: demo_plugin_def)
  have second: "demo_pods ! 1 \<in> set demo_pods" by simp
  have lab: "GetPodGroupLabel (demo_pods ! 1) \<noteq> ''''" using demo_all [OF second] by simp
  have sf: "\<forall>p\<in>set (demo_pods ! 1 # WaitingPods demo_handle). slash_free (pod_Namespace p)"
    using demo_all second by (auto simp: demo_handle_def slash_free_def)
  have "filter (\<lambda>p. pod_Namespace p = pod_Namespace (demo_pods ! 1)
       \<and> GetPodGroupLabel p = GetPodGroupLabel (demo_pods ! 1)) (WaitingPods demo_handle) = demo_pods"
    using demo_all second by (simp add: demo_handle_def filter_id_conv)
  with Permit_allows_exactly_gang [OF timeout ok lab sf] show ?thesis by simp
qed

text \<open>
  A gang fails as a whole: when a pod of a group below its minimum cannot be
  placed, \<open>PostFilter\<close> rejects exactly the waiting pods of that group, \<open>Unreserve\<close>
  rejects the same pods, both take back the admission of this group and of no other,
  and neither frees the group's Fluxion job nor its node assignments.
\<close>

theorem rejection_is_gang_wide:
  assumes "GetPodGroup E pod = (g, Some pg)" and "cache_laws E"
    and "CalculateAssignedPods E (pg_Name pg) (pod_Namespace pod) < MinMember (Spec pg)"
    and "PostFilter E H f pod st = (status, actions, st')" and "Unreserve E H pod st = (actions', st'')"
  shows "fst status = Unschedulable
    \<and> actions = map (\<lambda>p. Reject p Name ''optimistic rejection in PostFilter'') (filter (same_group pod pg) (WaitingPods H))
    \<and> actions' = map (\<lambda>p. Reject p Name ''rejection in Unreserve'') (filter (same_group pod pg) (WaitingPods H))
    \<and> (\<forall>s\<in>{st', st''}. remote s = remote st \<and> groupToJobId (mgr s) = groupToJobId (mgr st)
         \<and> podToNode (mgr s) = podToNode (mgr st)
         \<and> (\<forall>k. cache_Get E (permittedpodGroup (mgr s)) k \<longleftrightarrow> k \<noteq> g \<and> cache_Get E (permittedpodGroup (mgr st)) k))"
proof -
  have permit: "cache_Get E (permittedpodGroup (DeletePermittedPodGroup E g m)) k
      \<longleftrightarrow> k \<noteq> g \<and> cache_Get E (permittedpodGroup m) k" for m k
    using assms(2) by (cases "k = g") (auto simp: cache_laws_def DeletePermittedPodGroup_def)
  have same: "permittedpodGroup (BackoffPodGroup E g d m) = permittedpodGroup m" for d m
    by (simp add: BackoffPodGroup_def)
  show ?thesis
    using assms(1,3-5)
    by (auto simp: PostFilter_def Unreserve_def Let_def IterateOverWaitingPods_def permit same
        split: option.splits sum.splits if_splits)
qed

lemma demo_cache_laws: "cache_laws demo_env"
  by (auto simp: cache_laws_def demo_env_def)

theorem rejection_is_gang_wide_witness:
  "\<exists>status st'. PostFilter demo_env demo_handle demo_plugin (hd demo_pods) demo_admitted =
     (status, map (\<lambda>p. Reject p Name ''optimistic rejection in PostFilter'') demo_pods, st')
     \<and> \<not> cache_Get demo_env (permittedpodGroup (mgr st')) ''ns/g''"
proof -
  obtain status actions st' where pf: "PostFilter demo_env demo_handle demo_plugin (hd demo_pods) demo_admitted = (status, actions, st')"
    by (cases "PostFilter demo_env demo_handle demo_plugin (hd demo_pods) demo_admitted")
  obtain actions' st'' where ur: "Unreserve demo_env demo_handle (hd demo_pods) demo_admitted = (actions', st'')"
    by (cases "Unreserve demo_env demo_handle (hd demo_pods) demo_admitted")
  have g: "GetPodGroup demo_env (hd demo_pods) = (''ns/g'', Some demo_group)" by (simp add: GetPodGroup_def)
  have "CalculateAssignedPods demo_env (pg_Name demo_group) (pod_Namespace (hd demo_pods)) < MinMember (Spec demo_group)"
    by (simp add: CalculateAssignedPods_def) (simp add: demo_env_def)
  note ok = rejection_is_gang_wide [OF g demo_cache_laws this pf ur]
  have "filter (same_group (hd demo_pods) demo_group) (WaitingPods demo_handle) = demo_pods"
    by (simp add: demo_handle_def same_group_def [abs_def] demo_all filter_id_conv)
  with ok have "actions = map (\<lambda>p. Reject p Name ''optimistic rejection in PostFilter'') demo_pods"
    "\<not> cache_Get demo_env (permittedpodGroup (mgr st')) ''ns/g''" by auto
  with pf show ?thesis by blast
qed

text \<open>
  A plugin built by \<open>New\<close> admits groups for 300 seconds and never backs a group
  off: its back-off is zero, so \<open>PostFilter\<close> leaves the cache of backed-off groups alone.
\<close>

theorem New_never_backs_off:
  assumes "New K E client_New = Inr (f, m, err)"
  shows "f_scheduleTimeout f = Some (300 * 10 ^ 9) \<and> scheduleTimeout m = f_scheduleTimeout f
    \<and> groupToJobId m = Map.empty \<and> podToNode m = Map.empty
    \<and> backedOffpodGroup (mgr (snd (snd (PostFilter E H f pod st)))) = backedOffpodGroup (mgr st)"
proof -
  have "wrap64 (permitWaitingTimeSeconds * Second) = 300 * 10 ^ 9" "wrap64 (podGroupBackoffSeconds * Second) = 0"
    by (simp_all add: permitWaitingTimeSeconds_def podGroupBackoffSeconds_def Second_def in_int64_def)
  with assms have "f = \<lparr>f_scheduleTimeout = Some (300 * 10 ^ 9), podGroupBackoff = Some 0\<rparr>"
    "m = NewPodGroupManager E (Some (300 * 10 ^ 9))" by (auto simp: New_def Let_def)
  then show ?thesis
    by (auto simp: NewPodGroupManager_def PostFilter_def BackoffPodGroup_def DeletePermittedPodGroup_def Let_def
        split: prod.splits option.splits sum.splits)
qed

theorem New_never_backs_off_witness:
  "\<exists>f m err. New example_kube demo_env (Inr ()) = Inr (f, m, err) \<and> f_scheduleTimeout f = Some (300 * 10 ^ 9)"
proof -
  obtain f m err where "New example_kube demo_env (Inr ()) = Inr (f, m, err)" by (auto simp: New_def Let_def)
  with New_never_backs_off [OF this] show ?thesis by blast
qed

end
