(* ===== verification/Node_Table.thy ===== *)
theory Node_Table
  imports Manager_Threads Fluence_Plugin
begin

text \<open>
  The table of pods to nodes between the threads. \<open>GetPodNode\<close> of \<open>core.go\<close> reads it without the mutex,
  from the scheduling thread, while \<open>cleanup\<close> in the informer thread is written to delete from it.
  Shown: in every interleaving the table agrees with the cycle state, so the plugin names
  in \<open>PreFilter\<close> the node that \<open>Filter\<close> accepts, because no pod event ever changes the table.
\<close>

section \<open>The thread's view\<close>

fun cycle_state :: "thread \<Rightarrow> CycleState" where
  "cycle_state (Begin pod state) = state"
| "cycle_state (AtCheck c state) = state"
| "cycle_state (AtCancel c state) = state"
| "cycle_state (AtMatch c state) = state"
| "cycle_state (AtStore c response state) = state"
| "cycle_state (AtVerify c nodes state) = state"
| "cycle_state (AtAssign c pods nodes state) = state"
| "cycle_state (AtPermit c state) = state"
| "cycle_state (Returned r state) = state"

fun call_group :: "thread \<Rightarrow> string option" where
  "call_group (AtCheck c state) = Some (c_group c)"
| "call_group (AtCancel c state) = Some (c_group c)"
| "call_group (AtMatch c state) = Some (c_group c)"
| "call_group (AtStore c response state) = Some (c_group c)"
| "call_group (AtVerify c nodes state) = Some (c_group c)"
| "call_group (AtAssign c pods nodes state) = Some (c_group c)"
| "call_group (AtPermit c state) = Some (c_group c)"
| "call_group _ = None"

text \<open>The framework begins every cycle with a cycle state of its own, in which no node is written yet.\<close>

definition fresh :: "CycleState \<Rightarrow> bool" where
  "fresh state \<longleftrightarrow> (\<forall>k v. state k \<noteq> Some (FluxState v))"

definition fresh_begin :: "thread \<Rightarrow> bool" where
  "fresh_begin th \<longleftrightarrow> (\<forall>pod state. th = Begin pod state \<longrightarrow> fresh state)"

inductive nreachable :: "(('c, 'w) env \<Rightarrow> bool) \<Rightarrow> thread \<times> ('c, 'w) world \<Rightarrow> bool" for P where
  start: "P E \<Longrightarrow> fresh state \<Longrightarrow> nreachable P (Begin pod state, \<lparr>mgr = NewPodGroupManager E timeout, remote = w\<rparr>)"
| step: "nreachable P x \<Longrightarrow> istep P x y \<Longrightarrow> fresh_begin (fst y) \<Longrightarrow> nreachable P y"

section \<open>The table agrees with the cycle state\<close>

definition nodes_agree :: "thread \<Rightarrow> ('c, 'w) world \<Rightarrow> bool" where
  "nodes_agree th st \<longleftrightarrow> (\<forall>k v. cycle_state th k = Some (FluxState v) \<longrightarrow> podToNode (mgr st) k = Some (NodeName v))"

definition nodes_inv :: "thread \<times> ('c, 'w) world \<Rightarrow> bool" where
  "nodes_inv x \<longleftrightarrow> keys_namespaced (snd x) \<and> nodes_agree (fst x) (snd x)
     \<and> (\<forall>g. call_group (fst x) = Some g \<longrightarrow> (\<exists>ns n. g = ns @ ''/'' @ n))"

lemma nodes_inv_ext:
  assumes "nodes_inv (th, st)" and "podToNode (mgr st') = podToNode (mgr st)"
    and "dom (groupToJobId (mgr st')) \<subseteq> dom (groupToJobId (mgr st))"
  shows "nodes_inv (th, st')"
  using assms keys_namespaced_mono [OF _ assms(3)] by (simp add: nodes_inv_def nodes_agree_def)

lemma released_nodes:
  assumes "nodes_inv (th, st)" and "lister_laws E"
  shows "nodes_inv (th, released E g pod st)" and "podToNode (mgr (released E g pod st)) = podToNode (mgr st)"
proof -
  show nodes: "podToNode (mgr (released E g pod st)) = podToNode (mgr st)"
    unfolding released_def by (rule cancelFluxJob_nodes [OF _ assms(2) surjective_pairing]) (use assms(1) in \<open>simp add: nodes_inv_def\<close>)
  show "nodes_inv (th, released E g pod st)" by (rule nodes_inv_ext [OF assms(1) nodes released_dom])
qed

lemma events_nodes:
  assumes "nodes_inv (th, st)" and "lister_laws E"
  shows "podToNode (mgr (UpdatePod E p q st)) = podToNode (mgr st)" and "podToNode (mgr (DeletePod E p st)) = podToNode (mgr st)"
  using UpdatePod_cases [of E p q st] DeletePod_cases [of E p st] released_nodes(2) [OF assms] by metis+

lemma begin_nodes: "fresh state \<Longrightarrow> nodes_inv (th, st) \<Longrightarrow> nodes_inv (Begin pod state, st)"
  by (auto simp: nodes_inv_def nodes_agree_def fresh_def)

text \<open>A step that keeps the thread in its call and writes no node.\<close>

lemma same_cycle:
  assumes "nodes_inv (th, st)" and "cycle_state th' = cycle_state th" and "call_group th' \<in> {None, call_group th}"
  shows "nodes_inv (th', st)"
  using assms by (auto simp: nodes_inv_def nodes_agree_def)

lemma begin_call:
  assumes "sched_step E (Begin pod state, st) = (th', st')"
  shows "st' = st \<and> cycle_state th' = state \<and> call_group th' \<in> {None, Some (pod_Namespace pod @ ''/'' @ util_GetPodGroupLabel E pod)}"
  using assms
  by (auto simp: GetPodGroup_def Let_def split: prod.splits option.splits sum.splits list.splits if_splits)

lemma sched_nodes:
  assumes "lister_laws E" and "nodes_inv (th, st)"
  shows "nodes_inv (sched_step E (th, st))"
proof (cases th)
  case (Begin pod state)
  obtain th' st' where step: "sched_step E (Begin pod state, st) = (th', st')" by (cases "sched_step E (Begin pod state, st)")
  have "\<exists>ns n. g = ns @ ''/'' @ n" if "call_group th' = Some g" for g
  proof -
    have "g = pod_Namespace pod @ ''/'' @ util_GetPodGroupLabel E pod" using begin_call [OF step] that by simp
    then show ?thesis by blast
  qed
  with begin_call [OF step] assms(2) Begin step show ?thesis by (simp add: nodes_inv_def nodes_agree_def)
next
  case (AtCancel c state)
  from released_nodes(1) [OF assms(2,1), of "c_group c" "c_rep c"] show ?thesis
    unfolding AtCancel sched_step.simps released_def by (rule same_cycle) simp_all
next
  case (AtVerify c nodes state)
  from released_nodes(1) [OF assms(2,1), of "c_group c" "c_rep c"] assms(2)
  have "nodes_inv (th, snd (sched_step E (th, st)))" by (simp add: AtVerify released_def)
  then show ?thesis unfolding AtVerify by (auto intro: same_cycle)
next
  case (AtMatch c state)
  with assms(2) show ?thesis by (auto simp: nodes_inv_def nodes_agree_def keys_namespaced_def split: prod.splits sum.splits)
next
  case (AtAssign c pods nodes state)
  with assms(2) show ?thesis
    by (cases pods; cases nodes) (auto simp: nodes_inv_def nodes_agree_def keys_namespaced_def)
qed (use assms(2) in \<open>auto simp: nodes_inv_def nodes_agree_def keys_namespaced_def split: sum.splits\<close>)

lemma istep_nodes:
  assumes "istep lister_laws x y" and "nodes_inv x" and "fresh_begin (fst y)"
  shows "nodes_inv y"
  using assms(1)
proof cases
  case (sched E th st)
  with sched_nodes assms(2) show ?thesis by blast
next
  case (cycle r state st pod state')
  with assms(2,3) begin_nodes show ?thesis by (auto simp: fresh_begin_def)
next
  case (update E th st oldPod newPod)
  with assms(2) nodes_inv_ext [OF _ events_nodes(1) events_dom(1)] show ?thesis by blast
next
  case (delete E th st pod)
  with assms(2) nodes_inv_ext [OF _ events_nodes(2) events_dom(2)] show ?thesis by blast
qed (use assms(2) in \<open>auto intro: nodes_inv_ext\<close>)

lemma nreachable_nodes: "nreachable lister_laws x \<Longrightarrow> nodes_inv x"
proof (induction rule: nreachable.induct)
  case (start E state pod timeout w)
  then show ?case by (simp add: nodes_inv_def nodes_agree_def keys_namespaced_def fresh_def NewPodGroupManager_def)
qed (rule istep_nodes)

text \<open>
  C6. Reading the node table without the mutex is harmless. In every interleaving of the scheduling
  thread with pod events, at every moment, the table holds for each pod of the current cycle the
  node of its cycle state: \<open>GetPodNode\<close> answers exactly the one node that \<open>Filter\<close> accepts. And no
  pod event, whatever it finds, changes the table, so no read can race with a write.
\<close>

theorem interleaved_nodes_agree:
  assumes "nreachable lister_laws (th, st)"
  shows "(\<forall>pod v. cycle_state th (pod_Name pod) = Some (FluxState v) \<longrightarrow>
        (\<forall>node. Filter (cycle_state th) pod node = Inr (CodeSuccess, '''') \<longleftrightarrow> node = GetPodNode (mgr st) pod))
    \<and> (\<forall>E p q. lister_laws E \<longrightarrow> podToNode (mgr (UpdatePod E p q st)) = podToNode (mgr st)
        \<and> podToNode (mgr (DeletePod E p st)) = podToNode (mgr st))"
proof -
  have inv: "nodes_inv (th, st)" using assms by (rule nreachable_nodes)
  then have "nodes_agree th st" by (simp add: nodes_inv_def)
  with events_nodes [OF inv] show ?thesis by (auto simp: nodes_agree_def GetPodNode_def Filter_def)
qed

lemma nreachable_runs:
  assumes "nreachable P x" and "P E" and "runs_to E x y"
  shows "nreachable P y"
proof -
  have "fresh_begin (fst (sched_step E z))" if "fresh_begin (fst z)" for z
  proof (cases z)
    case (Pair th st)
    with that show ?thesis
      by (cases "(E, z)" rule: sched_step.cases)
        (auto simp: fresh_begin_def split: prod.splits option.splits sum.splits list.splits if_splits)
  qed
  moreover have "fresh_begin (fst x)" using assms(1) by cases (simp_all add: fresh_begin_def)
  ultimately have "nreachable P ((sched_step E ^^ n) x) \<and> fresh_begin (fst ((sched_step E ^^ n) x))" for n
    using assms(1) by (induction n) (simp, metis (no_types, lifting) assms(2) comp_apply funpow.simps(2) nreachable.step istep.sched surj_pair)
  with assms(3) show ?thesis by (auto simp: runs_to_def)
qed

theorem interleaved_nodes_agree_witness:
  "\<exists>state'. Manager_PreFilter demo_env (hd demo_pods) Map.empty demo_start = (Inr (), state', demo_admitted)
     \<and> Filter state' (demo_pods ! 1) ''n2'' = Inr (CodeSuccess, '''')
     \<and> GetPodNode (mgr (DeletePod demo_env ((hd demo_pods)\<lparr>pod_Phase := PodRunning\<rparr>) demo_admitted)) (demo_pods ! 1) = ''n2''"
proof -
  let ?state = "[pod_Name (demo_pods ! 0) \<mapsto> FluxState \<lparr>NodeName = ''n1''\<rparr>, pod_Name (demo_pods ! 1) \<mapsto> FluxState \<lparr>NodeName = ''n2''\<rparr>]"
  have names: "map pod_Name demo_pods = [pod_Name (demo_pods ! 0), pod_Name (demo_pods ! 1)]" by (simp add: demo_pods_def)
  have run: "Manager_PreFilter demo_env (hd demo_pods) Map.empty demo_start = (Inr (), ?state, demo_admitted)"
    using PreFilter_asking_hd [OF demo_asks demo_pod_simps(1) demo_AskFlux, of Map.empty]
    by (simp add: admit_group_exact demo_admitted_eq names)
  have "nreachable lister_laws (Begin (hd demo_pods) Map.empty, demo_start)"
    unfolding demo_start_def by (rule nreachable.start [where P = lister_laws, OF demo_lister_laws]) (simp add: fresh_def)
  from nreachable_runs [OF this demo_lister_laws PreFilter_runs [OF run]]
  have "nreachable lister_laws (Returned (Inr ()) ?state, demo_admitted)" .
  note ok = interleaved_nodes_agree [OF this]
  have accepts: "Filter ?state (demo_pods ! 1) ''n2'' = Inr (CodeSuccess, '''')" by (simp add: Filter_def)
  with ok have "GetPodNode (mgr demo_admitted) (demo_pods ! 1) = ''n2''" by fastforce
  then have "GetPodNode (mgr (DeletePod demo_env q demo_admitted)) (demo_pods ! 1) = ''n2''" for q
    using ok demo_lister_laws by (simp add: GetPodNode_def)
  with run accepts show ?thesis by blast
qed

end
