(* ===== verification/Gang_Run.thy ===== *)
theory Gang_Run
  imports Fluence_Plugin "HOL-Library.Multiset"
begin

text \<open>
  The plugin over time, inside the scheduling framework. The framework is not part of the
  repository; its step relation below allows whatever its documentation allows: it runs the
  extension points of a scheduling cycle in their order, keeps the pods that \<open>Permit\<close>
  holds back, carries out the allowances and rejections that the plugin asks for, and
  shows in its snapshot the pods that hold a node. Pods end, and the manager and the sidecar
  change, at any time. A scheduling cycle is also given as a function, \<open>schedule_pod\<close>, for what must happen and not only may.
\<close>

section \<open>The framework\<close>

text \<open>
  Pods that wait at \<open>Permit\<close> and pods that run, each with the node it was given, and, for
  the statements only, all pods that were ever started.
\<close>

record ('c, 'w) fw =
  fw_world :: "('c, 'w) world"
  waiting :: "Pod list"
  running :: "Pod list"
  started :: "Pod list"

definition on_node :: "Pod \<Rightarrow> string \<Rightarrow> Pod" where
  "on_node p n = p\<lparr>pod_NodeName := n\<rparr>"

fun allowed :: "waiting_action list \<Rightarrow> Pod list" where
  "allowed [] = []"
| "allowed (Allow p _ # as) = p # allowed as"
| "allowed (Reject _ _ _ # as) = allowed as"

fun rejected :: "waiting_action list \<Rightarrow> Pod list" where
  "rejected [] = []"
| "rejected (Allow _ _ # as) = rejected as"
| "rejected (Reject p _ _ # as) = p # rejected as"

definition without :: "Pod list \<Rightarrow> Pod list \<Rightarrow> Pod list" where
  "without ps gone = filter (\<lambda>p. p \<notin> set gone) ps"

text \<open>
  What the plugin sees in a cycle: the pods with a node in the snapshot, the waiting pods in
  the handle, and the PodGroups, which stay.
\<close>

type_synonym groups = "string \<Rightarrow> string \<rightharpoonup> PodGroup"

definition sees :: "groups \<Rightarrow> ('c, 'w) env \<Rightarrow> handle \<Rightarrow> ('c, 'w) fw \<Rightarrow> bool" where
  "sees G E H F \<longleftrightarrow>
     (\<exists>infos. NodeInfos_List E = Inr infos \<and> mset (concat infos) = mset (waiting F @ running F))
   \<and> mset (WaitingPods H) = mset (waiting F)
   \<and> (\<forall>p. util_GetPodGroupLabel E p = GetPodGroupLabel p)
   \<and> (\<forall>ns n pg. client_Get E ns n = Inr pg \<longleftrightarrow> G ns n = Some pg)
   \<and> int (length (waiting F @ running F)) < 2 ^ 31 - 1"

definition groups_ok :: "groups \<Rightarrow> bool" where
  "groups_ok G \<longleftrightarrow> (\<forall>ns n pg. G ns n = Some pg \<longrightarrow>
     pg_Name pg = n \<and> pg_Namespace pg = ns \<and> in_int32 (MinMember (Spec pg)))"

text \<open>The calls of a cycle up to \<open>Permit\<close>: a node is chosen that \<open>PreFilter\<close> names and \<open>Filter\<close> accepts.\<close>

definition cycle ::
    "('c, 'w) env \<Rightarrow> handle \<Rightarrow> Fluence \<Rightarrow> Pod \<Rightarrow> string \<Rightarrow> ('c, 'w) world
     \<Rightarrow> (fw_status \<times> duration) \<times> waiting_action list \<Rightarrow> ('c, 'w) world \<Rightarrow> bool" where
  "cycle E H f p n w answer w' \<longleftrightarrow> (\<exists>state state1 state2 ns m m'.
     Fluence_PreFilter E state p w = (Inr (Some ns, (CodeSuccess, m)), state1, w') \<and> n \<in> ns
     \<and> Filter state1 p n = Inr (CodeSuccess, m')
     \<and> Fluence_Permit E H f state1 p = Inr (fst answer, snd answer, state2))"

inductive fw_step :: "groups \<Rightarrow> Fluence \<Rightarrow> ('c, 'w) fw \<Rightarrow> ('c, 'w) fw \<Rightarrow> bool" for G f where
  wait: "sees G E H F \<Longrightarrow> slash_free (pod_Namespace p) \<Longrightarrow> n \<noteq> '''' \<Longrightarrow>
    cycle E H f p n (fw_world F) (((CodeWait, m), d), acts) w' \<Longrightarrow>
    fw_step G f F (F\<lparr>fw_world := w', waiting := on_node p n # without (waiting F) (allowed acts),
      running := allowed acts @ running F, started := allowed acts @ started F\<rparr>)"
| bind: "sees G E H F \<Longrightarrow> slash_free (pod_Namespace p) \<Longrightarrow> n \<noteq> '''' \<Longrightarrow>
    cycle E H f p n (fw_world F) (((CodeSuccess, m), d), acts) w' \<Longrightarrow>
    fw_step G f F (F\<lparr>fw_world := w', waiting := without (waiting F) (allowed acts),
      running := on_node p n # allowed acts @ running F, started := on_node p n # allowed acts @ started F\<rparr>)"
| unschedulable: "sees G E H F \<Longrightarrow> PostFilter E H f p (fw_world F) = (status, acts, w') \<Longrightarrow>
    fw_step G f F (F\<lparr>fw_world := w', waiting := without (waiting F) (rejected acts)\<rparr>)"
| unreserve: "sees G E H F \<Longrightarrow> Unreserve E H p (fw_world F) = (acts, w') \<Longrightarrow>
    fw_step G f F (F\<lparr>fw_world := w', waiting := without (remove1 p (waiting F)) (rejected acts)\<rparr>)"
| ends: "fw_step G f F (F\<lparr>running := filter keep (running F)\<rparr>)"
| world: "fw_step G f F (F\<lparr>fw_world := w\<rparr>)"

inductive fw_reachable :: "groups \<Rightarrow> Fluence \<Rightarrow> ('c, 'w) fw \<Rightarrow> bool" for G f where
  start: "fw_reachable G f \<lparr>fw_world = w, waiting = [], running = [], started = []\<rparr>"
| step: "fw_reachable G f F \<Longrightarrow> fw_step G f F F' \<Longrightarrow> fw_reachable G f F'"

section \<open>All or nothing\<close>

definition members :: "string \<Rightarrow> string \<Rightarrow> Pod list \<Rightarrow> Pod list" where
  "members ns g ps = filter (\<lambda>p. pod_Namespace p = ns \<and> GetPodGroupLabel p = g) ps"

lemma members_simps [simp]:
  "members ns g [] = []" "members ns g (ps @ qs) = members ns g ps @ members ns g qs"
  "members ns g (p # ps) = (if pod_Namespace p = ns \<and> GetPodGroupLabel p = g then p # members ns g ps else members ns g ps)"
  by (simp_all add: members_def)

lemma on_node_simps [simp]:
  "pod_Namespace (on_node p n) = pod_Namespace p" "GetPodGroupLabel (on_node p n) = GetPodGroupLabel p"
  "pod_NodeName (on_node p n) = n"
  by (simp_all add: on_node_def GetPodGroupLabel_def)

lemma allowed_map [simp]: "allowed (map (\<lambda>p. Allow p x) ps) = ps"
  by (induction ps) simp_all

definition gang_inv :: "groups \<Rightarrow> ('c, 'w) fw \<Rightarrow> bool" where
  "gang_inv G F \<longleftrightarrow>
     (\<forall>p \<in> set (waiting F @ running F). pod_NodeName p \<noteq> '''' \<and> slash_free (pod_Namespace p))
   \<and> (\<forall>ns g pg. G ns g = Some pg \<longrightarrow> g \<noteq> '''' \<longrightarrow>
        length (members ns g (running F)) \<le> length (members ns g (started F))
      \<and> (members ns g (started F) = [] \<or> MinMember (Spec pg) \<le> int (length (members ns g (started F))))
      \<and> (members ns g (waiting F) = [] \<or> int (length (members ns g (waiting F @ running F))) < MinMember (Spec pg)))"

text \<open>The pods the manager counts are the pods of the group that hold a node.\<close>

lemma length_filter_mset: "mset xs = mset ys \<Longrightarrow> length (filter P xs) = length (filter P ys)"
  by (metis mset_filter size_mset)

lemma assigned_members:
  assumes "sees G E H F" and "\<forall>p \<in> set (waiting F @ running F). pod_NodeName p \<noteq> ''''"
  shows "length (assigned_pods E g ns) = length (members ns g (waiting F @ running F))"
proof -
  obtain infos where infos: "NodeInfos_List E = Inr infos" "mset (concat infos) = mset (waiting F @ running F)"
    and lab: "\<forall>p. util_GetPodGroupLabel E p = GetPodGroupLabel p"
    using assms(1) by (auto simp: sees_def)
  have nodes: "\<forall>p \<in> set (concat infos). pod_NodeName p \<noteq> ''''"
    using assms(2) mset_eq_setD [OF infos(2)] by blast
  have "assigned_pods E g ns = filter (\<lambda>p. pod_Namespace p = ns \<and> GetPodGroupLabel p = g) (concat infos)"
    using nodes lab by (auto simp: assigned_pods_def infos(1) intro!: filter_cong)
  then show ?thesis by (simp only: members_def length_filter_mset [OF infos(2)])
qed

text \<open>A pod with a group label is let go or held back only when its PodGroup can be read.\<close>

lemma permitted_group:
  assumes "sees G E H F" and "Fluence_Permit E H f state p = Inr (((code, m), d), acts, state2)"
    and "code = CodeWait \<or> code = CodeSuccess" and "GetPodGroupLabel p \<noteq> ''''"
  obtains pg where "G (pod_Namespace p) (GetPodGroupLabel p) = Some pg"
    and "GetPodGroup E p = (pod_Namespace p @ ''/'' @ GetPodGroupLabel p, Some pg)"
proof (cases "client_Get E (pod_Namespace p) (GetPodGroupLabel p)")
  have lab: "util_GetPodGroupLabel E p = GetPodGroupLabel p" using assms(1) by (simp add: sees_def)
  {
    case (Inl e)
    then have "Manager_Permit E state p = (PodGroupNotFound, state)"
      using assms(4) by (simp add: Manager_Permit_def GetPodGroup_def lab)
    then show ?thesis using assms(2,3) by (auto simp: Fluence_Permit_def)
  next
    case (Inr pg)
    then have "G (pod_Namespace p) (GetPodGroupLabel p) = Some pg" using assms(1) by (simp add: sees_def)
    with Inr that assms(4) show ?thesis by (simp add: GetPodGroup_def lab)
  }
qed

lemma permit_counts:
  assumes "sees G E H F" and "groups_ok G" and "gang_inv G F" and "G (pod_Namespace p) (GetPodGroupLabel p) = Some pg"
    and "GetPodGroup E p = (name, Some pg)"
  shows "fst (Manager_Permit E state p) =
    (if MinMember (Spec pg) \<le> int (length (members (pod_Namespace p) (GetPodGroupLabel p) (waiting F @ running F))) + 1
     then Success else Wait)"
proof -
  let ?ns = "pod_Namespace p" and ?g = "GetPodGroupLabel p"
  have ok: "pg_Name pg = ?g" "pg_Namespace pg = ?ns" "in_int32 (MinMember (Spec pg))"
    using assms(2,4) by (simp_all add: groups_ok_def)
  have "\<forall>q \<in> set (waiting F @ running F). pod_NodeName q \<noteq> ''''" using assms(3) by (simp add: gang_inv_def)
  note count = assigned_members [OF assms(1) this, of ?g ?ns]
  have "length (members ?ns ?g (waiting F @ running F)) \<le> length (waiting F @ running F)"
    unfolding members_def by (rule length_filter_le)
  then have "int (length (assigned_pods E (pg_Name pg) (pg_Namespace pg))) < 2 ^ 31 - 1"
    using assms(1) count by (simp add: sees_def ok)
  from Permit_decides [OF assms(5) ok(3) this, of state] show ?thesis unfolding ok count by simp
qed

lemma cycle_permit:
  assumes "sees G E H F" and "groups_ok G" and "gang_inv G F" and "slash_free (pod_Namespace p)"
    and "cycle E H f p n w (((code, m), d), acts) w'" and "code = CodeWait \<or> code = CodeSuccess"
  shows "GetPodGroupLabel p = '''' \<and> code = CodeSuccess \<and> acts = []
    \<or> (\<exists>pg. GetPodGroupLabel p \<noteq> '''' \<and> G (pod_Namespace p) (GetPodGroupLabel p) = Some pg
        \<and> (let total = int (length (members (pod_Namespace p) (GetPodGroupLabel p) (waiting F @ running F))) + 1
           in if MinMember (Spec pg) \<le> total
              then code = CodeSuccess \<and> mset (allowed acts) = mset (members (pod_Namespace p) (GetPodGroupLabel p) (waiting F))
              else code = CodeWait \<and> acts = []))"
proof -
  let ?ns = "pod_Namespace p" and ?g = "GetPodGroupLabel p"
  have lab: "util_GetPodGroupLabel E p = ?g" using assms(1) by (simp add: sees_def)
  obtain state state2 where permit: "Fluence_Permit E H f state p = Inr (((code, m), d), acts, state2)"
    using assms(5) by (auto simp: cycle_def)
  then obtain timeout where timeout: "f_scheduleTimeout f = Some timeout"
    by (auto simp: Fluence_Permit_def deref_def split: option.splits)
  show ?thesis
  proof (cases "?g = ''''")
    case True
    then have "Manager_Permit E state p = (PodGroupNotSpecified, state)" by (simp add: Manager_Permit_def GetPodGroup_def lab)
    with True permit timeout show ?thesis by (simp add: Fluence_Permit_def deref_def)
  next
    case False
    obtain pg where G: "G ?ns ?g = Some pg" and grp: "GetPodGroup E p = (?ns @ ''/'' @ ?g, Some pg)"
      using permitted_group [OF assms(1) permit assms(6) False] by blast
    note dec = permit_counts [OF assms(1-3) G grp, of state]
    have slash: "\<forall>q \<in> set (waiting F). slash_free (pod_Namespace q)" using assms(3) by (simp add: gang_inv_def)
    show ?thesis
    proof (cases "MinMember (Spec pg) \<le> int (length (members ?ns ?g (waiting F @ running F))) + 1")
      case True
      then have "fst (Manager_Permit E state p) = Success" by (simp add: dec)
      moreover have "\<forall>q \<in> set (p # WaitingPods H). slash_free (pod_Namespace q)"
        using assms(1,4) slash mset_eq_setD [of "WaitingPods H" "waiting F"] by (simp add: sees_def)
      ultimately have "acts = map (\<lambda>q. Allow q Name) (members ?ns ?g (WaitingPods H))" "code = CodeSuccess"
        using Permit_allows [OF timeout _ False, of E state H] permit by (auto simp: members_def)
      moreover have "mset (members ?ns ?g (WaitingPods H)) = mset (members ?ns ?g (waiting F))"
        using assms(1) by (simp add: members_def sees_def)
      ultimately show ?thesis using True G False by (simp add: Let_def)
    next
      case False': False
      then have "fst (Manager_Permit E state p) = Wait" by (simp add: dec)
      then have "code = CodeWait" "acts = []"
        using permit timeout by (auto simp: Fluence_Permit_def deref_def Let_def split: prod.splits Status.splits)
      then show ?thesis using False' G False by (simp add: Let_def)
    qed
  qed
qed

lemma members_without: "members ns g (without ps gone) = without (members ns g ps) gone"
  by (simp add: members_def without_def conj_commute)

lemma length_without_le: "length (without ps gone) \<le> length ps"
  by (simp add: without_def)

lemma set_without: "set (without ps gone) \<subseteq> set ps"
  by (auto simp: without_def)

lemma set_members: "set (members ns g ps) \<subseteq> set ps"
  by (auto simp: members_def)

lemma members_members:
  "members ns g (members ns' g' ps) = (if ns = ns' \<and> g = g' then members ns g ps else [])"
  by (auto simp: members_def filter_empty_conv intro!: filter_cong)

text \<open>Fewer waiting and fewer running pods keep the invariant.\<close>

lemma gang_inv_shrink:
  assumes "gang_inv G F" and "set (waiting F') \<subseteq> set (waiting F)" and "set (running F') \<subseteq> set (running F)"
    and "started F' = started F"
    and "\<And>ns g. length (members ns g (waiting F')) \<le> length (members ns g (waiting F))"
    and "\<And>ns g. length (members ns g (running F')) \<le> length (members ns g (running F))"
  shows "gang_inv G F'"
  unfolding gang_inv_def
proof (intro conjI allI impI)
  show "\<forall>p \<in> set (waiting F' @ running F'). pod_NodeName p \<noteq> '''' \<and> slash_free (pod_Namespace p)"
    using assms(1-3) by (auto simp: gang_inv_def)
next
  fix ns g pg assume "G ns g = Some pg" "g \<noteq> ''''"
  with assms(1) have inv: "length (members ns g (running F)) \<le> length (members ns g (started F))"
    "members ns g (started F) = [] \<or> MinMember (Spec pg) \<le> int (length (members ns g (started F)))"
    "members ns g (waiting F) = [] \<or> int (length (members ns g (waiting F @ running F))) < MinMember (Spec pg)"
    by (simp_all add: gang_inv_def)
  note less = assms(5) [of ns g] assms(6) [of ns g]
  show "length (members ns g (running F')) \<le> length (members ns g (started F'))"
    "members ns g (started F') = [] \<or> MinMember (Spec pg) \<le> int (length (members ns g (started F')))"
    using inv(1,2) less assms(4) by simp_all
  show "members ns g (waiting F') = [] \<or> int (length (members ns g (waiting F' @ running F'))) < MinMember (Spec pg)"
    using inv(3) less by auto
qed

lemma gang_inv_without:
  assumes "gang_inv G F" and "set ps \<subseteq> set (waiting F)" and "\<And>ns g. length (members ns g ps) \<le> length (members ns g (waiting F))"
  shows "gang_inv G (F\<lparr>fw_world := w', waiting := without ps gone\<rparr>)"
proof (rule gang_inv_shrink [OF assms(1)])
  show "length (members ns g (waiting (F\<lparr>fw_world := w', waiting := without ps gone\<rparr>))) \<le> length (members ns g (waiting F))" for ns g
    using assms(3) [of ns g] length_without_le [of "members ns g ps" gone] by (simp add: members_without)
qed (use assms(2) set_without [of ps gone] in auto)

lemma gang_inv_wait:
  assumes "gang_inv G F" and "groups_ok G" and "sees G E H F" and "slash_free (pod_Namespace p)" and "n \<noteq> ''''"
    and "cycle E H f p n w (((CodeWait, m), d), acts) w'"
  shows "acts = []" and "gang_inv G (F\<lparr>fw_world := w'', waiting := on_node p n # waiting F\<rparr>)"
proof -
  obtain pg where pg: "G (pod_Namespace p) (GetPodGroupLabel p) = Some pg" "acts = []"
    "int (length (members (pod_Namespace p) (GetPodGroupLabel p) (waiting F @ running F))) + 1 < MinMember (Spec pg)"
    using cycle_permit [OF assms(3,2,1,4,6)] by (auto simp: Let_def split: if_splits)
  then show "acts = []" by simp
  show "gang_inv G (F\<lparr>fw_world := w'', waiting := on_node p n # waiting F\<rparr>)"
    using assms(1,4,5) pg(1,3) by (auto simp: gang_inv_def)
qed

text \<open>Letting the waiting pods of one group go leaves the other groups as they are.\<close>

lemma let_go:
  assumes "mset as = mset (members ns' g' ps)"
  shows "mset (members ns g as) = (if ns = ns' \<and> g = g' then mset (members ns g ps) else {#})"
    and "members ns g (without ps as) = (if ns = ns' \<and> g = g' then [] else members ns g ps)"
proof -
  have "mset (members ns g as) = mset (members ns g (members ns' g' ps))"
    using assms unfolding members_def [of ns g] by (metis mset_filter)
  then show "mset (members ns g as) = (if ns = ns' \<and> g = g' then mset (members ns g ps) else {#})"
    by (simp add: members_members)
  have "set as = set (members ns' g' ps)" using assms by (rule mset_eq_setD)
  then show "members ns g (without ps as) = (if ns = ns' \<and> g = g' then [] else members ns g ps)"
    unfolding members_without without_def by (auto simp: members_def filter_empty_conv intro!: filter_cong)
qed

lemma gang_inv_bind:
  assumes "gang_inv G F" and "groups_ok G" and "sees G E H F" and "slash_free (pod_Namespace p)" and "n \<noteq> ''''"
    and "cycle E H f p n w (((CodeSuccess, m), d), acts) w'"
  shows "gang_inv G (F\<lparr>fw_world := w'', waiting := without (waiting F) (allowed acts),
      running := on_node p n # allowed acts @ running F, started := on_node p n # allowed acts @ started F\<rparr>)"
proof (cases "GetPodGroupLabel p = ''''")
  case True
  with cycle_permit [OF assms(3,2,1,4,6)] have "acts = []" by auto
  with True assms(1,4,5) show ?thesis by (auto simp: gang_inv_def without_def)
next
  case False
  let ?ns = "pod_Namespace p" and ?g = "GetPodGroupLabel p"
  obtain pg where pg: "G ?ns ?g = Some pg" "mset (allowed acts) = mset (members ?ns ?g (waiting F))"
    "MinMember (Spec pg) \<le> int (length (members ?ns ?g (waiting F @ running F))) + 1"
    using cycle_permit [OF assms(3,2,1,4,6)] False by (auto simp: Let_def split: if_splits)
  have gone: "set (allowed acts) = set (members ?ns ?g (waiting F))" using pg(2) by (rule mset_eq_setD)
  note rest = let_go(2) [OF pg(2)]
  have len: "length (members ns g (allowed acts)) = (if ns = ?ns \<and> g = ?g then length (members ns g (waiting F)) else 0)" for ns g
    using arg_cong [OF let_go(1) [OF pg(2)], of size ns g] by (simp split: if_splits)
  have named: "\<forall>q \<in> set (allowed acts). pod_NodeName q \<noteq> '''' \<and> slash_free (pod_Namespace q)"
    using assms(1) set_members [of ?ns ?g "waiting F"] unfolding gone gang_inv_def by auto
  show ?thesis
    unfolding gang_inv_def
  proof (intro conjI allI impI)
    show "\<forall>q \<in> set (waiting (F\<lparr>fw_world := w'', waiting := without (waiting F) (allowed acts),
        running := on_node p n # allowed acts @ running F, started := on_node p n # allowed acts @ started F\<rparr>)
        @ running (F\<lparr>fw_world := w'', waiting := without (waiting F) (allowed acts),
        running := on_node p n # allowed acts @ running F, started := on_node p n # allowed acts @ started F\<rparr>)).
        pod_NodeName q \<noteq> '''' \<and> slash_free (pod_Namespace q)"
      using assms(1,4,5) named set_without [of "waiting F" "allowed acts"] by (auto simp: gang_inv_def)
  next
    fix ns g pg' assume G: "G ns g = Some pg'" "g \<noteq> ''''"
    with assms(1) have inv: "length (members ns g (running F)) \<le> length (members ns g (started F))"
      "members ns g (started F) = [] \<or> MinMember (Spec pg') \<le> int (length (members ns g (started F)))"
      "members ns g (waiting F) = [] \<or> int (length (members ns g (waiting F @ running F))) < MinMember (Spec pg')"
      by (simp_all add: gang_inv_def)
    have empty: "members ns g (allowed acts) = []" if "\<not> (ns = ?ns \<and> g = ?g)"
      using len [of ns g] that by simp
    let ?F = "F\<lparr>fw_world := w'', waiting := without (waiting F) (allowed acts),
        running := on_node p n # allowed acts @ running F, started := on_node p n # allowed acts @ started F\<rparr>"
    show "length (members ns g (running ?F)) \<le> length (members ns g (started ?F))" using inv(1) by auto
    show "members ns g (started ?F) = [] \<or> MinMember (Spec pg') \<le> int (length (members ns g (started ?F)))"
      using inv(1,2) pg(1,3) G(1) len [of ns g] empty by (cases "ns = ?ns \<and> g = ?g") (auto simp: members_members)
    show "members ns g (waiting ?F) = [] \<or> int (length (members ns g (waiting ?F @ running ?F))) < MinMember (Spec pg')"
      using inv(3) rest [of ns g] empty by (cases "ns = ?ns \<and> g = ?g") auto
  qed
qed

lemma fw_step_gang_inv:
  assumes "fw_step G f F F'" and "groups_ok G" and "gang_inv G F"
  shows "gang_inv G F'"
  using assms(1)
proof cases
  case (wait E H p n m d acts w')
  from gang_inv_wait [OF assms(3,2) wait(2-5)] wait(1) show ?thesis by (simp add: without_def)
next
  case (bind E H p n m d acts w')
  from gang_inv_bind [OF assms(3,2) bind(2-5)] bind(1) show ?thesis by simp
next
  case (unschedulable E H p status acts w')
  from gang_inv_without [OF assms(3) subset_refl order_refl] unschedulable(1) show ?thesis by simp
next
  case (unreserve E H p acts w')
  have "length (members ns g (remove1 p (waiting F))) \<le> length (members ns g (waiting F))" for ns g
    by (simp add: members_def filter_remove1 length_remove1)
  from gang_inv_without [OF assms(3) set_remove1_subset this] unreserve(1) show ?thesis by simp
next
  case (ends keep)
  have "length (members ns g (filter keep (running F))) \<le> length (members ns g (running F))" for ns g
    using length_filter_le [of keep "members ns g (running F)"] by (simp add: members_def conj_commute)
  then show ?thesis unfolding ends by (intro gang_inv_shrink [OF assms(3)]) auto
next
  case (world w)
  then show ?thesis using assms(3) by (simp add: gang_inv_def)
qed

lemma fw_reachable_gang_inv: "fw_reachable G f F \<Longrightarrow> groups_ok G \<Longrightarrow> gang_inv G F"
proof (induction rule: fw_reachable.induct)
  case (start w)
  then show ?case by (simp add: gang_inv_def)
next
  case (step F F')
  then show ?case using fw_step_gang_inv by blast
qed

text \<open>
  C1. Gang scheduling: a group is started as a whole or not at all. In every state that the
  scheduling framework can reach with the plugin, whatever pods arrive in whatever order,
  time out, fail or end, either no pod of a group has ever been let go to its node, or at
  least the group's minimum of pods has; and while pods of a group are held back, fewer
  than the minimum hold a node, so none of them waits for a gang that is complete.
\<close>

theorem gang_all_or_nothing:
  assumes "fw_reachable G f F" and "groups_ok G" and "G ns g = Some pg" and "g \<noteq> ''''"
  shows "(members ns g (started F) = [] \<or> MinMember (Spec pg) \<le> int (length (members ns g (started F))))
    \<and> (members ns g (waiting F) = [] \<or> int (length (members ns g (waiting F @ running F))) < MinMember (Spec pg))"
  using fw_reachable_gang_inv [OF assms(1,2)] assms(3,4) by (simp add: gang_inv_def)

section \<open>A gang that is placed is started\<close>

lemma permit_answers:
  assumes "f_scheduleTimeout f = Some timeout" and "sees G E H F" and "G (pod_Namespace p) (GetPodGroupLabel p) = Some pg"
    and "GetPodGroupLabel p \<noteq> ''''"
  shows "\<exists>code m d acts state2. Fluence_Permit E H f state p = Inr (((code, m), d), acts, state2)
    \<and> (code = CodeWait \<or> code = CodeSuccess)"
proof -
  have get: "util_GetPodGroupLabel E p = GetPodGroupLabel p" "client_Get E (pod_Namespace p) (GetPodGroupLabel p) = Inr pg"
    using assms(2,3) by (auto simp: sees_def)
  have "GetPodGroup E p = (pod_Namespace p @ ''/'' @ GetPodGroupLabel p, Some pg)"
    using assms(3,4) get by (simp add: GetPodGroup_def)
  then show ?thesis
    using assms(1) by (simp add: Fluence_Permit_def Manager_Permit_def deref_def Let_def)
qed

text \<open>
  What the framework does with a pod it takes off its queue, as a function of the state: a scheduling
  cycle over the nodes of the cluster, which ends with the pod held back, or bound together with the pods
  that \<open>Permit\<close> lets go, or, when no node is left or \<open>Permit\<close> refuses, with what \<open>PostFilter\<close> or
  \<open>Unreserve\<close> reject. A panic of the plugin ends it.
\<close>

fun feasible :: "CycleState \<Rightarrow> Pod \<Rightarrow> string set \<Rightarrow> string list \<Rightarrow> string list result" where
  "feasible state p ns [] = Inr []"
| "feasible state p ns (n # all) =
     (if n \<notin> ns then feasible state p ns all
      else bind_result (Filter state p n) (\<lambda>(code, m). bind_result (feasible state p ns all) (\<lambda>rest.
        Inr (if code = CodeSuccess then n # rest else rest))))"

definition schedule_pod ::
    "('c, 'w) env \<Rightarrow> handle \<Rightarrow> Fluence \<Rightarrow> string list \<Rightarrow> Pod \<Rightarrow> ('c, 'w) fw \<Rightarrow> ('c, 'w) fw result" where
  "schedule_pod E H f all p F =
     (case Fluence_PreFilter E Map.empty p (fw_world F) of (answer, state, w') \<Rightarrow>
        bind_result answer (\<lambda>(choice, code, m).
        bind_result (if code = CodeSuccess then feasible state p (case choice of None \<Rightarrow> set all | Some ns \<Rightarrow> ns) all else Inr [])
        (\<lambda>nodes. case nodes of
            [] \<Rightarrow> (case PostFilter E H f p w' of (status, acts, w2) \<Rightarrow>
                Inr (F\<lparr>fw_world := w2, waiting := without (waiting F) (rejected acts)\<rparr>))
          | n # _ \<Rightarrow> bind_result (Fluence_Permit E H f state p) (\<lambda>(((code, m), d), acts, state2).
              if code = CodeWait
              then Inr (F\<lparr>fw_world := w', waiting := on_node p n # without (waiting F) (allowed acts),
                running := allowed acts @ running F, started := allowed acts @ started F\<rparr>)
              else if code = CodeSuccess
              then Inr (F\<lparr>fw_world := w', waiting := without (waiting F) (allowed acts),
                running := on_node p n # allowed acts @ running F, started := on_node p n # allowed acts @ started F\<rparr>)
              else (case Unreserve E H p w' of (acts, w2) \<Rightarrow>
                Inr (F\<lparr>fw_world := w2, waiting := without (remove1 p (waiting F)) (rejected acts)\<rparr>))))))"

text \<open>The pods of the queue, one after the other, each in the cluster as it then is.\<close>

definition schedule_all ::
    "(('c, 'w) fw \<Rightarrow> ('c, 'w) env) \<Rightarrow> (('c, 'w) fw \<Rightarrow> handle) \<Rightarrow> Fluence \<Rightarrow> string list
     \<Rightarrow> Pod list \<Rightarrow> ('c, 'w) fw \<Rightarrow> ('c, 'w) fw result" where
  "schedule_all E H f all = fold_result (\<lambda>p F. schedule_pod (E F) (H F) f all p F)"

lemma feasible_sound:
  "feasible state p ns all = Inr nodes \<Longrightarrow> n \<in> set nodes \<Longrightarrow> n \<in> set all \<and> n \<in> ns \<and> (\<exists>m. Filter state p n = Inr (CodeSuccess, m))"
  by (induction all arbitrary: nodes) (auto split: if_splits)

lemma feasible_one:
  "Filter state p n = Inr (CodeSuccess, m) \<Longrightarrow> feasible state p {n} all = Inr (filter (\<lambda>x. x = n) all)"
  by (induction all) auto

lemma feasible_hd:
  assumes "Filter state p n = Inr (CodeSuccess, m)" and "n \<in> set all"
  obtains rest where "feasible state p {n} all = Inr (n # rest)"
proof (cases "filter (\<lambda>x. x = n) all")
  case Nil
  with assms(2) show ?thesis by (auto simp: filter_empty_conv)
next
  case (Cons x xs)
  then have "x = n" by (auto simp: filter_eq_Cons_iff)
  with Cons that feasible_one [OF assms(1)] show ?thesis by simp
qed

lemma sees_world [simp]: "sees G E H (F\<lparr>fw_world := w\<rparr>) \<longleftrightarrow> sees G E H F"
  by (simp add: sees_def)

text \<open>A cycle of this framework is a run of the steps above.\<close>

lemma schedule_pod_steps:
  assumes "sees G E H F" and "slash_free (pod_Namespace p)" and "'''' \<notin> set all" and "schedule_pod E H f all p F = Inr F'"
  shows "(fw_step G f)\<^sup>*\<^sup>* F F'"
proof -
  obtain answer state w' where pre0: "Fluence_PreFilter E Map.empty p (fw_world F) = (answer, state, w')"
    by (metis surj_pair)
  have "\<exists>x. answer = Inr x" using assms(4) unfolding schedule_pod_def pre0 prod.case bind_result_Inr_iff by blast
  with pre0 obtain choice code m where
    pre: "Fluence_PreFilter E Map.empty p (fw_world F) = (Inr (choice, code, m), state, w')" by (metis surj_pair)
  obtain nodes where
    nodes: "(if code = CodeSuccess then feasible state p (case choice of None \<Rightarrow> set all | Some ns \<Rightarrow> ns) all else Inr []) = Inr nodes"
    using assms(4) unfolding schedule_pod_def pre prod.case bind_result.simps bind_result_Inr_iff by blast
  note run = assms(4) [unfolded schedule_pod_def pre prod.case bind_result.simps nodes]
  let ?F = "F\<lparr>fw_world := w'\<rparr>"
  have world: "fw_step G f F ?F" by (rule fw_step.world)
  show ?thesis
  proof (cases nodes)
    case Nil
    obtain status acts w2 where post: "PostFilter E H f p w' = (status, acts, w2)" by (metis surj_pair)
    have "fw_step G f ?F (?F\<lparr>fw_world := w2, waiting := without (waiting ?F) (rejected acts)\<rparr>)"
      using assms(1) post by (intro fw_step.unschedulable [where E = E and H = H and p = p]) simp_all
    moreover have "?F\<lparr>fw_world := w2, waiting := without (waiting ?F) (rejected acts)\<rparr> = F'" using run Nil post by simp
    ultimately show ?thesis using world by (metis rtranclp.rtrancl_refl rtranclp.rtrancl_into_rtrancl)
  next
    case (Cons n rest)
    then have "code = CodeSuccess" using nodes by (auto split: if_splits)
    moreover from this obtain ns where choice: "choice = Some ns"
      using pre by (auto simp: Fluence_PreFilter_def Let_def split: if_splits prod.splits sum.splits go_error.splits)
    ultimately have n: "n \<in> set all" "n \<in> ns" "\<exists>m. Filter state p n = Inr (CodeSuccess, m)"
      using nodes Cons feasible_sound [of state p ns all nodes n] by auto
    obtain code' m' d acts state2 where permit: "Fluence_Permit E H f state p = Inr (((code', m'), d), acts, state2)"
      using run Cons by auto
    have c: "cycle E H f p n (fw_world F) (((code', m'), d), acts) w'"
      using pre \<open>code = CodeSuccess\<close> choice n permit by (fastforce simp: cycle_def)
    have node: "n \<noteq> ''''" using n(1) assms(3) by auto
    consider "code' = CodeWait" | "code' = CodeSuccess" | "code' \<noteq> CodeWait" "code' \<noteq> CodeSuccess" by blast
    then show ?thesis
    proof cases
      case 1
      with run Cons permit fw_step.wait [OF assms(1,2) node c [unfolded 1]] show ?thesis by auto
    next
      case 2
      with run Cons permit fw_step.bind [OF assms(1,2) node c [unfolded 2]] show ?thesis by auto
    next
      case 3
      obtain acts' w2 where unres: "Unreserve E H p w' = (acts', w2)" by (metis surj_pair)
      have "fw_step G f ?F (?F\<lparr>fw_world := w2, waiting := without (remove1 p (waiting ?F)) (rejected acts')\<rparr>)"
        using assms(1) unres by (intro fw_step.unreserve [where E = E and H = H and p = p]) simp_all
      moreover have "?F\<lparr>fw_world := w2, waiting := without (remove1 p (waiting ?F)) (rejected acts')\<rparr> = F'"
        using run Cons permit unres 3 by simp
      ultimately show ?thesis using world by (metis rtranclp.rtrancl_refl rtranclp.rtrancl_into_rtrancl)
    qed
  qed
qed

text \<open>
  One pod of a group gets its node: it waits below the minimum, and completes the gang at
  the minimum. The pods of other groups stay where they are.
\<close>

lemma gang_round:
  assumes "f_scheduleTimeout f = Some timeout" and "sees G E H F" and "groups_ok G" and "gang_inv G F"
    and "G (pod_Namespace p) (GetPodGroupLabel p) = Some pg" and "GetPodGroupLabel p \<noteq> ''''"
    and "slash_free (pod_Namespace p)" and "n \<in> set all"
    and "Fluence_PreFilter E Map.empty p (fw_world F) = (Inr (Some {n}, (CodeSuccess, m)), state1, w')"
    and "Filter state1 p n = Inr (CodeSuccess, m')"
    and "waiting F = W @ others" and "members (pod_Namespace p) (GetPodGroupLabel p) W = W"
    and "members (pod_Namespace p) (GetPodGroupLabel p) (others @ running F) = []"
  shows "if MinMember (Spec pg) \<le> int (length W) + 1
    then \<exists>ps. mset ps = mset W \<and> schedule_pod E H f all p F = Inr
       (F\<lparr>fw_world := w', waiting := others, running := (on_node p n # ps) @ running F, started := (on_node p n # ps) @ started F\<rparr>)
    else schedule_pod E H f all p F = Inr (F\<lparr>fw_world := w', waiting := on_node p n # waiting F\<rparr>)"
proof -
  obtain code m2 d acts state2 where permit: "Fluence_Permit E H f state1 p = Inr (((code, m2), d), acts, state2)"
    and code: "code = CodeWait \<or> code = CodeSuccess"
    using permit_answers [OF assms(1,2,5,6)] by blast
  then have c: "cycle E H f p n (fw_world F) (((code, m2), d), acts) w'"
    using assms(9,10) by (fastforce simp: cycle_def)
  obtain rest where nodes: "feasible state1 p {n} all = Inr (n # rest)" using feasible_hd [OF assms(10,8)] .
  note run = schedule_pod_def [of E H f all p F, unfolded assms(9), simplified, unfolded nodes, simplified, unfolded permit, simplified]
  have W: "members (pod_Namespace p) (GetPodGroupLabel p) (waiting F) = W" using assms(11-13) by simp
  note per = cycle_permit [OF assms(2-4,7) c code]
  show ?thesis
  proof (cases "MinMember (Spec pg) \<le> int (length W) + 1")
    case True
    then have "code = CodeSuccess" and all: "mset (allowed acts) = mset W"
      using per assms(5,6,13) W by (auto simp: Let_def)
    moreover have "without (waiting F) (allowed acts) = others"
      using mset_eq_setD [OF all] assms(12,13) unfolding assms(11)
      by (auto simp: without_def filter_id_conv filter_empty_conv members_def)
    ultimately show ?thesis using run True by auto
  next
    case False
    then have "code = CodeWait" "acts = []" using per assms(5,6,13) W by (auto simp: Let_def)
    then have "schedule_pod E H f all p F =
        Inr (F\<lparr>fw_world := w', waiting := on_node p n # waiting F, running := running F, started := started F\<rparr>)"
      using run by (simp add: without_def)
    also have "F\<lparr>fw_world := w', waiting := on_node p n # waiting F, running := running F, started := started F\<rparr> =
        F\<lparr>fw_world := w', waiting := on_node p n # waiting F\<rparr>" by (cases F) simp
    finally show ?thesis using False by simp
  qed
qed

lemma steps_reachable: "(fw_step G f)\<^sup>*\<^sup>* F F' \<Longrightarrow> fw_reachable G f F \<Longrightarrow> fw_reachable G f F'"
  by (induction rule: rtranclp_induct) (auto intro: fw_reachable.step)

text \<open>A cluster whose listers and snapshots show, in every state, what holds in it.\<close>

definition cluster :: "groups \<Rightarrow> (('c, 'w) fw \<Rightarrow> ('c, 'w) env) \<Rightarrow> (('c, 'w) fw \<Rightarrow> handle) \<Rightarrow> bool" where
  "cluster G E H \<longleftrightarrow> (\<forall>F. int (length (waiting F @ running F)) < 2 ^ 31 - 1 \<longrightarrow> sees G (E F) (H F) F)"

text \<open>The first pods of a list, on their nodes, the latest first.\<close>

definition placed_pods :: "Pod list \<Rightarrow> string list \<Rightarrow> nat \<Rightarrow> Pod list" where
  "placed_pods pods nodes i = rev (map2 on_node (take i pods) (take i nodes))"

lemma placed_pods_simps:
  assumes "length nodes = length pods"
  shows "placed_pods pods nodes 0 = []"
    and "i < length pods \<Longrightarrow> placed_pods pods nodes (Suc i) = on_node (pods ! i) (nodes ! i) # placed_pods pods nodes i"
    and "mset (placed_pods pods nodes (length pods)) = mset (map2 on_node pods nodes)"
  using assms by (simp_all add: placed_pods_def take_Suc_conv_app_nth)

lemma placed_pods_group:
  assumes "length nodes = length pods" and "\<forall>p \<in> set pods. pod_Namespace p = ns \<and> GetPodGroupLabel p = g" and "i \<le> length pods"
  shows "length (placed_pods pods nodes i) = i" and "members ns g (placed_pods pods nodes i) = placed_pods pods nodes i"
  using assms by (auto simp: placed_pods_def members_def filter_id_conv dest!: set_zip_leftD in_set_takeD)

text \<open>
  The cycles of the pods one after the other, when \<open>PreFilter\<close> and \<open>Filter\<close> give each its
  node: the states in between, and one cycle.
\<close>

definition round_state ::
    "('c, 'w) fw \<Rightarrow> (nat \<Rightarrow> ('c, 'w) world) \<Rightarrow> Pod list \<Rightarrow> string list \<Rightarrow> nat \<Rightarrow> ('c, 'w) fw" where
  "round_state F0 w pods nodes i = F0\<lparr>fw_world := w i, waiting := placed_pods pods nodes i @ waiting F0\<rparr>"

definition answered ::
    "(('c, 'w) fw \<Rightarrow> ('c, 'w) env) \<Rightarrow> ('c, 'w) fw \<Rightarrow> (nat \<Rightarrow> ('c, 'w) world) \<Rightarrow> Pod list \<Rightarrow> string list \<Rightarrow> nat \<Rightarrow> bool" where
  "answered E F0 w pods nodes i \<longleftrightarrow> (\<exists>s1 m'.
     Fluence_PreFilter (E (round_state F0 w pods nodes i)) Map.empty (pods ! i) (w i) =
       (Inr (Some {nodes ! i}, (CodeSuccess, '''')), s1, w (Suc i))
     \<and> Filter s1 (pods ! i) (nodes ! i) = Inr (CodeSuccess, m'))"

text \<open>The group of the cycles: its pods, which are as many as it needs, and the others, which are not of it.\<close>

definition whole_gang :: "groups \<Rightarrow> string \<Rightarrow> string \<Rightarrow> PodGroup \<Rightarrow> Pod list \<Rightarrow> ('c, 'w) fw \<Rightarrow> bool" where
  "whole_gang G ns g pg pods F0 \<longleftrightarrow> G ns g = Some pg \<and> g \<noteq> '''' \<and> slash_free ns
   \<and> pods \<noteq> [] \<and> MinMember (Spec pg) = int (length pods) \<and> distinct (map pod_Name pods)
   \<and> (\<forall>p \<in> set pods. pod_Namespace p = ns \<and> GetPodGroupLabel p = g)
   \<and> members ns g (waiting F0 @ running F0) = []
   \<and> int (length pods + length (waiting F0 @ running F0)) < 2 ^ 31"

lemma gang_cycle:
  assumes "groups_ok G" and "cluster G E H" and "f_scheduleTimeout f = Some timeout" and gang: "whole_gang G ns g pg pods F0"
    and len: "length nodes = length pods" and "set nodes \<subseteq> set all" and i: "i < length pods"
    and "answered E F0 w pods nodes i" and inv: "gang_inv G (round_state F0 w pods nodes i)"
  shows "if i + 1 = length pods
    then \<exists>ps. mset ps = mset (map2 on_node pods nodes)
      \<and> schedule_all E H f all [pods ! i] (round_state F0 w pods nodes i) =
          Inr (F0\<lparr>fw_world := w (Suc i), running := ps @ running F0, started := ps @ started F0\<rparr>)
    else schedule_all E H f all [pods ! i] (round_state F0 w pods nodes i) = Inr (round_state F0 w pods nodes (Suc i))"
proof -
  let ?F = "round_state F0 w pods nodes i"
  note gang_facts = gang [unfolded whole_gang_def]
  obtain s1 m' where c: "Fluence_PreFilter (E ?F) Map.empty (pods ! i) (fw_world ?F) =
      (Inr (Some {nodes ! i}, (CodeSuccess, '''')), s1, w (Suc i))" "Filter s1 (pods ! i) (nodes ! i) = Inr (CodeSuccess, m')"
    using assms(8) by (auto simp: answered_def round_state_def)
  have p: "pod_Namespace (pods ! i) = ns" "GetPodGroupLabel (pods ! i) = g" using gang_facts i by simp_all
  note W = placed_pods_group [OF len, of ns g i] placed_pods_simps(2) [OF len i] placed_pods_simps(3) [OF len]
  have sees: "sees G (E ?F) (H ?F) ?F" using assms(2) W(1) gang_facts i by (simp add: cluster_def round_state_def)
  have node: "nodes ! i \<in> set all" using assms(6) i len nth_mem [of i nodes] by auto
  have others: "waiting ?F = placed_pods pods nodes i @ waiting F0" "members ns g (waiting F0 @ running ?F) = []"
    "members ns g (placed_pods pods nodes i) = placed_pods pods nodes i" "int (length (placed_pods pods nodes i)) = int i"
    using gang_facts W(1,2) i by (simp_all add: round_state_def)
  note grp = gang_facts [THEN conjunct1] gang_facts [THEN conjunct2, THEN conjunct1]
    gang_facts [THEN conjunct2, THEN conjunct2, THEN conjunct1]
  note round = gang_round [OF assms(3) sees assms(1) inv _ _ _ node c others(1), unfolded p, OF grp others(3,2), unfolded others(4)]
  have last: "MinMember (Spec pg) \<le> int i + 1 \<longleftrightarrow> i + 1 = length pods" using gang_facts i by auto
  have one: "schedule_all E H f all [pods ! i] ?F = schedule_pod (E ?F) (H ?F) f all (pods ! i) ?F"
    by (cases "schedule_pod (E ?F) (H ?F) f all (pods ! i) ?F") (simp_all add: schedule_all_def)
  show ?thesis
  proof (cases "i + 1 = length pods")
    case True
    with round last obtain ps where ps: "mset ps = mset (placed_pods pods nodes i)"
      and step: "schedule_pod (E ?F) (H ?F) f all (pods ! i) ?F = Inr (?F\<lparr>fw_world := w (Suc i), waiting := waiting F0,
        running := (on_node (pods ! i) (nodes ! i) # ps) @ running ?F, started := (on_node (pods ! i) (nodes ! i) # ps) @ started ?F\<rparr>)"
      by auto
    have eq: "?F\<lparr>fw_world := w (Suc i), waiting := waiting F0, running := qs @ running ?F, started := qs @ started ?F\<rparr> =
        F0\<lparr>fw_world := w (Suc i), running := qs @ running F0, started := qs @ started F0\<rparr>" for qs
      by (cases F0) (simp add: round_state_def)
    have "mset (on_node (pods ! i) (nodes ! i) # ps) = mset (map2 on_node pods nodes)" using True ps W(3,4) by simp
    with step [unfolded eq] True show ?thesis unfolding one by (simp only: refl if_True) blast
  next
    case False
    with round last W(3) show ?thesis unfolding one by (simp add: round_state_def)
  qed
qed

lemma gang_rounds:
  assumes "groups_ok G" and "cluster G E H" and "f_scheduleTimeout f = Some timeout" and gang: "whole_gang G ns g pg pods F0"
    and len: "length nodes = length pods" and "set nodes \<subseteq> set all" and answers: "\<And>i. i < length pods \<Longrightarrow> answered E F0 w pods nodes i"
    and reach: "fw_reachable G f F0" and "w 0 = fw_world F0" and "'''' \<notin> set all"
  shows "\<exists>ps. mset ps = mset (map2 on_node pods nodes)
    \<and> schedule_all E H f all pods F0 = Inr (F0\<lparr>fw_world := w (length pods), running := ps @ running F0, started := ps @ started F0\<rparr>)
    \<and> (fw_step G f)\<^sup>*\<^sup>* F0 (F0\<lparr>fw_world := w (length pods), running := ps @ running F0, started := ps @ started F0\<rparr>)"
proof -
  let ?F = "round_state F0 w pods nodes"
  note one = gang_cycle [OF assms(1-6) _ answers]
  have inv: "gang_inv G F" if "(fw_step G f)\<^sup>*\<^sup>* F0 F" for F
    using fw_reachable_gang_inv [OF steps_reachable [OF that reach] assms(1)] .
  have cycle: "(fw_step G f)\<^sup>*\<^sup>* (?F i) F" if "i < length pods" "schedule_all E H f all [pods ! i] (?F i) = Inr F" for i F
  proof -
    have "slash_free (pod_Namespace (pods ! i))" using gang that(1) by (simp add: whole_gang_def)
    moreover have "sees G (E (?F i)) (H (?F i)) (?F i)"
      using assms(2) gang that(1) placed_pods_group(1) [OF len, of ns g i] by (simp add: cluster_def round_state_def whole_gang_def)
    ultimately show ?thesis
      using that(2) assms(10) by (intro schedule_pod_steps [of G "E (?F i)" "H (?F i)"]) (auto simp: schedule_all_def)
  qed
  have run: "schedule_all E H f all (take i pods) F0 = Inr (?F i) \<and> (fw_step G f)\<^sup>*\<^sup>* F0 (?F i)" if "i < length pods" for i
    using that
  proof (induction i)
    case 0
    have "?F 0 = F0" using assms(9) placed_pods_simps(1) [OF len] by (cases F0) (simp add: round_state_def)
    then show ?case by (simp add: schedule_all_def)
  next
    case (Suc i)
    then have IH: "schedule_all E H f all (take i pods) F0 = Inr (?F i)" "(fw_step G f)\<^sup>*\<^sup>* F0 (?F i)" by simp_all
    have next': "schedule_all E H f all [pods ! i] (?F i) = Inr (?F (Suc i))" using one [OF _ _ inv [OF IH(2)]] Suc.prems by simp
    have "(fw_step G f)\<^sup>*\<^sup>* (?F i) (?F (Suc i))" using cycle [OF _ next'] Suc.prems by simp
    with IH(2) have "(fw_step G f)\<^sup>*\<^sup>* F0 (?F (Suc i))" by (rule rtranclp_trans)
    with IH(1) next' Suc.prems show ?case
      by (simp add: take_Suc_conv_app_nth) (simp add: schedule_all_def fold_result_append)
  qed
  obtain i where n: "length pods = Suc i" using gang by (cases pods) (auto simp: whole_gang_def)
  then have i: "i < length pods" by simp
  note before = run [OF i]
  obtain ps where ps: "mset ps = mset (map2 on_node pods nodes)"
    "schedule_all E H f all [pods ! i] (?F i) = Inr (F0\<lparr>fw_world := w (Suc i), running := ps @ running F0, started := ps @ started F0\<rparr>)"
    using one [OF i i inv [OF before [THEN conjunct2]]] n by auto
  have "pods = take i pods @ [pods ! i]" using n take_Suc_conv_app_nth [OF i] by simp
  then have "schedule_all E H f all pods F0 = bind_result (schedule_all E H f all (take i pods) F0) (schedule_all E H f all [pods ! i])"
    unfolding schedule_all_def by (metis fold_result_append)
  moreover have "(fw_step G f)\<^sup>*\<^sup>* F0 (F0\<lparr>fw_world := w (Suc i), running := ps @ running F0, started := ps @ started F0\<rparr>)"
    using rtranclp_trans [OF before [THEN conjunct2] cycle [OF i ps(2)]] .
  ultimately show ?thesis using before ps n by auto
qed

lemma whole_gang_permute: "whole_gang G ns g pg pods F0 \<Longrightarrow> mset queue = mset pods \<Longrightarrow> whole_gang G ns g pg queue F0"
  unfolding whole_gang_def
  by (metis distinct_map mset_eq_length mset_eq_setD mset_eq_imp_distinct_iff mset_map mset_zero_iff)

text \<open>
  A gang that Fluxion places is started. When all pods of a group, as many as it needs, are
  there, none of them placed, and Fluxion allocates one node per pod, the
  cycles of the pods, in whatever order the queue gives them, end with all of them let go, each to the node
  Fluxion chose for it. This holds in any state the framework can be in: the pods of other
  groups go on waiting and running.
\<close>

lemma gang_starts:
  assumes "groups_ok G" and "cluster G E H" and "f_scheduleTimeout f = Some timeout" and gang: "whole_gang G ns g pg pods F0"
    and "fw_reachable G f F0" and "fw_world F0 = st" and queue: "mset queue = mset pods" and "GetPodNode (mgr st) (hd queue) = ''''"
    and "asks_fluxion (E F0) (hd queue) st = Some (name, pg, pods)"
    and "AskFlux (E F0) (hd pods) pg name st = (Inr nodes, st1)" and len: "length nodes = length pods"
    and "set nodes \<subseteq> set all" and "'''' \<notin> set all" and "scheduleTimeout (mgr st1) = Some timeout'"
  shows "\<exists>w ps. schedule_all E H f all queue F0 = Inr (F0\<lparr>fw_world := w, running := ps @ running F0, started := ps @ started F0\<rparr>)
    \<and> (fw_step G f)\<^sup>*\<^sup>* F0 (F0\<lparr>fw_world := w, running := ps @ running F0, started := ps @ started F0\<rparr>)
    \<and> mset ps = mset (map2 on_node pods nodes) \<and> groupToJobId (mgr w) = groupToJobId (mgr st1) \<and> remote w = remote st1"
proof -
  obtain r state' st' where pre: "Fluence_PreFilter (E F0) Map.empty (hd queue) st = (r, state', st')"
    by (cases "Fluence_PreFilter (E F0) Map.empty (hd queue) st")
  have pods: "pods \<noteq> []" "distinct (map pod_Name pods)" using gang by (simp_all add: whole_gang_def)
  note placed = PreFilter_gang_nodes [OF assms(8,9) pods(1) assms(10) len pods(2) assms(14) pre]
  note gang' = whole_gang_permute [OF gang queue]
  define node where "node = GetPodNode (mgr st')"
  have nodes: "map node pods = nodes" using placed(1) len by (auto simp: node_def intro!: nth_equalityI)
  have at: "node q \<in> set nodes \<and> node q \<noteq> '''' \<and> Filter state' q (node q) = Inr (CodeSuccess, '''')" if q: "q \<in> set queue" for q
  proof -
    obtain i where i: "i < length pods" "q = pods ! i" using q mset_eq_setD [OF queue] by (metis in_set_conv_nth)
    then have "node q = nodes ! i" "nodes ! i \<in> set nodes" using placed(1) len by (simp_all add: node_def)
    moreover have "Filter state' q (nodes ! i) = Inr (CodeSuccess, '''')" using placed(2) [OF i(1)] i(2) by (simp add: Filter_def)
    ultimately show ?thesis using assms(12,13) by auto
  qed
  let ?nodes = "map node queue" and ?w = "\<lambda>i :: nat. if i = 0 then st else st'"
  have F0: "round_state F0 ?w queue ?nodes 0 = F0"
    using assms(6) placed_pods_simps(1) [of ?nodes queue] by (cases F0) (simp add: round_state_def)
  have ne: "queue \<noteq> []" using gang' by (simp add: whole_gang_def)
  have "answered E F0 ?w queue ?nodes i" if "i < length queue" for i
  proof (cases "i = 0")
    case True
    with placed(3) [of 0] at [of "queue ! i"] that pre pods ne F0 show ?thesis
      by (auto simp: answered_def hd_conv_nth node_def)
  next
    case False
    have "Fluence_PreFilter (E F) Map.empty (queue ! i) st' = (Inr (Some {node (queue ! i)}, (CodeSuccess, '''')), Map.empty, st')" for F
      using at [of "queue ! i"] that by (simp add: Fluence_PreFilter_def node_def)
    with False that show ?thesis by (auto simp: answered_def Filter_def)
  qed
  moreover have "set ?nodes \<subseteq> set all" using at assms(12) by auto
  ultimately obtain ps where
    "schedule_all E H f all queue F0 = Inr (F0\<lparr>fw_world := ?w (length queue), running := ps @ running F0, started := ps @ started F0\<rparr>)"
    "(fw_step G f)\<^sup>*\<^sup>* F0 (F0\<lparr>fw_world := ?w (length queue), running := ps @ running F0, started := ps @ started F0\<rparr>)"
    "mset ps = mset (map2 on_node queue ?nodes)"
    using gang_rounds [OF assms(1-3) gang', of ?nodes all ?w] assms(5,6,13) by auto
  moreover have "mset (map2 on_node queue ?nodes) = mset (map2 on_node pods (map node pods))"
    using arg_cong [OF queue, of "image_mset (\<lambda>q. on_node q (node q))"] by (simp add: zip_map2 zip_same_conv_map o_def)
  ultimately show ?thesis using placed(4,5) [of 0] pods(1) ne nodes by (intro exI [of _ st'] exI [of _ ps]) simp
qed

section \<open>The demo cluster\<close>

definition demo_groups :: groups where
  "demo_groups ns n = (if ns = ''ns'' \<and> n = ''g'' then Some demo_group else None)"

definition demo_sight :: "(string list, jobid list \<times> jobid) fw \<Rightarrow> (string list, jobid list \<times> jobid) env" where
  "demo_sight F = demo_env\<lparr>NodeInfos_List := Inr [waiting F @ running F],
     client_Get := \<lambda>ns n. case demo_groups ns n of None \<Rightarrow> Inl (Err ''not found'') | Some pg \<Rightarrow> Inr pg\<rparr>"

definition demo_hold :: "(string list, jobid list \<times> jobid) fw \<Rightarrow> handle" where
  "demo_hold F = demo_handle\<lparr>WaitingPods := waiting F\<rparr>"

lemma demo_cluster: "cluster demo_groups demo_sight demo_hold"
  by (auto simp: cluster_def sees_def demo_sight_def demo_hold_def split: option.splits)

lemma demo_groups_ok: "groups_ok demo_groups"
  by (auto simp: groups_ok_def demo_groups_def in_int32_def)

lemma demo_sight_asks:
  "asks_fluxion (demo_sight F) (hd demo_pods) demo_start = Some (''ns/g'', demo_group, demo_pods)"
  "AskFlux (demo_sight F) (hd demo_pods) demo_group ''ns/g'' demo_start =
     (Inr [''n1'', ''n2''], demo_start\<lparr>mgr := (mgr demo_start)\<lparr>groupToJobId := [''ns/g'' \<mapsto> 1]\<rparr>, remote := ([1], 2)\<rparr>)"
  by (simp add: asks_fluxion_def GetPodGroup_def demo_sight_def demo_groups_def)
    (simp add: demo_sight_def demo_env_def demo_start_def AskFlux_def NewPodGroupManager_def)

definition demo_empty :: "(string list, jobid list \<times> jobid) fw" where
  "demo_empty = \<lparr>fw_world = demo_start, waiting = [], running = [], started = []\<rparr>"

lemma demo_empty_simps [simp]:
  "fw_world demo_empty = demo_start" "waiting demo_empty = []" "running demo_empty = []" "started demo_empty = []"
  by (simp_all add: demo_empty_def)

lemma demo_empty_reachable: "fw_reachable demo_groups demo_plugin demo_empty"
  unfolding demo_empty_def by (rule fw_reachable.start)

lemma demo_whole_gang: "whole_gang demo_groups ''ns'' ''g'' demo_group demo_pods demo_empty"
  using demo_all by (auto simp: whole_gang_def demo_groups_def slash_free_def)

lemma demo_timeout: "f_scheduleTimeout demo_plugin = Some (300 * Second)"
  by (simp add: demo_plugin_def)

lemma demo_two_nodes: "map2 on_node demo_pods [n, m] = [on_node (demo_pods ! 0) n, on_node (demo_pods ! 1) m]"
  by (simp add: demo_pods_def)

lemma demo_gang_starts:
  "\<exists>F. (fw_step demo_groups demo_plugin)\<^sup>*\<^sup>* demo_empty F
     \<and> waiting F = [] \<and> started F = running F
     \<and> mset (running F) = {#on_node (demo_pods ! 0) ''n1'', on_node (demo_pods ! 1) ''n2''#}"
proof -
  obtain w ps where "(fw_step demo_groups demo_plugin)\<^sup>*\<^sup>* demo_empty
      (demo_empty\<lparr>fw_world := w, running := ps @ running demo_empty, started := ps @ started demo_empty\<rparr>)"
    "mset ps = mset (map2 on_node demo_pods [''n1'', ''n2''])"
    using gang_starts [OF demo_groups_ok demo_cluster demo_timeout demo_whole_gang demo_empty_reachable _ refl _ demo_sight_asks,
        where timeout' = "300 * Second" and all = "[''n1'', ''n2'']"] by (auto simp: GetPodNode_def)
  then show ?thesis unfolding demo_two_nodes by (intro exI [of _ "demo_empty\<lparr>fw_world := w, running := ps, started := ps\<rparr>"]) simp
qed

theorem gang_all_or_nothing_witness:
  "\<exists>F :: (string list, jobid list \<times> jobid) fw. fw_reachable demo_groups demo_plugin F
     \<and> set (started F) = {on_node (demo_pods ! 0) ''n1'', on_node (demo_pods ! 1) ''n2''}
     \<and> MinMember (Spec demo_group) \<le> int (length (members ''ns'' ''g'' (started F)))"
proof -
  obtain F where run: "(fw_step demo_groups demo_plugin)\<^sup>*\<^sup>* demo_empty F"
    and F: "mset (started F) = {#on_node (demo_pods ! 0) ''n1'', on_node (demo_pods ! 1) ''n2''#}"
    using demo_gang_starts by force
  have reach: "fw_reachable demo_groups demo_plugin F" by (rule steps_reachable [OF run demo_empty_reachable])
  have set_F: "set (started F) = {on_node (demo_pods ! 0) ''n1'', on_node (demo_pods ! 1) ''n2''}"
    using arg_cong [OF F, of set_mset] by simp
  have "on_node (demo_pods ! 0) ''n1'' \<in> set (members ''ns'' ''g'' (started F))"
    using set_F demo_all [of "demo_pods ! 0"] by (simp add: members_def)
  then have "members ''ns'' ''g'' (started F) \<noteq> []" by auto
  with gang_all_or_nothing [OF reach demo_groups_ok, of "''ns''" "''g''" demo_group]
  have "MinMember (Spec demo_group) \<le> int (length (members ''ns'' ''g'' (started F)))" by (simp add: demo_groups_def)
  with reach set_F show ?thesis by blast
qed

end
