(* ===== verification/Gang_Spec.thy ===== *)
theory Gang_Spec
  imports Gang_Run
begin

text \<open>
  What gang scheduling promises, as a machine with one gang: pods are held back while the gang is
  incomplete, the pod that completes it takes all of them along, a gang that is given up
  gives up all of them, and pods that run finish. The plugin in the scheduling framework, seen from any of its
  groups, is such a machine.
\<close>

section \<open>The abstract gang\<close>

type_synonym gang = "Pod multiset \<times> Pod multiset"

inductive gang_step :: "int \<Rightarrow> gang \<Rightarrow> gang \<Rightarrow> bool" for m where
  hold: "int (size W + size R) + 1 < m \<Longrightarrow> gang_step m (W, R) (add_mset p W, R)"
| go: "m \<le> int (size W + size R) + 1 \<Longrightarrow> gang_step m (W, R) ({#}, add_mset p (W + R))"
| give_up: "gang_step m (W, R) ({#}, R)"
| finish: "R' \<subseteq># R \<Longrightarrow> gang_step m (W, R) (W, R')"

lemma stutter: "gang_step m x x"
  by (cases x) (simp add: gang_step.finish)

text \<open>Held pods only ever start together with all the others: the machine keeps them below the minimum.\<close>

definition incomplete :: "int \<Rightarrow> gang \<Rightarrow> bool" where
  "incomplete m x \<longleftrightarrow> fst x = {#} \<or> int (size (fst x) + size (snd x)) < m"

lemma gang_step_incomplete: "gang_step m x y \<Longrightarrow> incomplete m x \<Longrightarrow> incomplete m y"
  by (induction rule: gang_step.induct) (auto simp: incomplete_def dest: size_mset_mono)

lemma gang_run_incomplete: "(gang_step m)\<^sup>*\<^sup>* ({#}, {#}) x \<Longrightarrow> incomplete m x"
  by (induction rule: rtranclp_induct) (auto simp: incomplete_def [of m "({#}, {#})"] intro: gang_step_incomplete)

section \<open>The plugin is a gang machine for every group\<close>

definition gang_of :: "string \<Rightarrow> string \<Rightarrow> ('c, 'w) fw \<Rightarrow> gang" where
  "gang_of ns g F = (mset (members ns g (waiting F)), mset (members ns g (running F)))"

lemma rejected_map [simp]: "rejected (map (\<lambda>p. Reject p x y) ps) = ps"
  by (induction ps) simp_all

lemma without_none [simp]: "without ps [] = ps"
  by (simp add: without_def)

text \<open>A rejection by \<open>PostFilter\<close> or \<open>Unreserve\<close> takes no pod or all waiting pods of the group.\<close>

lemma waiting_of_group:
  assumes "sees G E H F" and "groups_ok G" and "GetPodGroup E p = (name, Some pg)"
  shows "mset (filter (same_group p pg) (WaitingPods H)) = mset (members (pod_Namespace p) (GetPodGroupLabel p) (waiting F))"
proof -
  have "pg_Name pg = GetPodGroupLabel p"
    using assms by (auto simp: sees_def groups_ok_def GetPodGroup_def Let_def split: if_splits sum.splits)
  then have "filter (same_group p pg) (WaitingPods H) = members (pod_Namespace p) (GetPodGroupLabel p) (WaitingPods H)"
    by (simp add: members_def same_group_def [abs_def])
  then show ?thesis using assms(1) by (simp add: members_def sees_def)
qed

lemma PostFilter_rejects:
  assumes "sees G E H F" and "groups_ok G" and "PostFilter E H f p w = (status, acts, w')"
  shows "rejected acts = [] \<or> mset (rejected acts) = mset (members (pod_Namespace p) (GetPodGroupLabel p) (waiting F))"
  using assms(3) waiting_of_group [OF assms(1,2)]
  by (auto simp: PostFilter_def IterateOverWaitingPods_def Let_def split: prod.splits option.splits if_splits)

lemma Unreserve_rejects:
  assumes "sees G E H F" and "groups_ok G" and "Unreserve E H p w = (acts, w')"
  shows "rejected acts = [] \<or> mset (rejected acts) = mset (members (pod_Namespace p) (GetPodGroupLabel p) (waiting F))"
  using assms(3) waiting_of_group [OF assms(1,2)]
  by (auto simp: Unreserve_def IterateOverWaitingPods_def split: prod.splits option.splits)

lemma Unreserve_rejects_all:
  assumes "sees G E H F" and "groups_ok G" and "Unreserve E H p w = (acts, w')"
    and "G (pod_Namespace p) (GetPodGroupLabel p) = Some pg" and "GetPodGroupLabel p \<noteq> ''''"
  shows "mset (rejected acts) = mset (members (pod_Namespace p) (GetPodGroupLabel p) (waiting F))"
proof -
  have get: "util_GetPodGroupLabel E p = GetPodGroupLabel p" "client_Get E (pod_Namespace p) (GetPodGroupLabel p) = Inr pg"
    using assms(1,4) by (auto simp: sees_def)
  have "GetPodGroup E p = (pod_Namespace p @ ''/'' @ GetPodGroupLabel p, Some pg)"
    using get assms(5) by (simp add: GetPodGroup_def)
  then show ?thesis
    using assms(3) waiting_of_group [OF assms(1,2)] by (auto simp: Unreserve_def IterateOverWaitingPods_def)
qed

lemma members_remove1: "\<not> (pod_Namespace p = ns \<and> GetPodGroupLabel p = g) \<Longrightarrow> members ns g (remove1 p ps) = members ns g ps"
  by (auto simp: members_def filter_remove1 remove1_idem)

lemma give_up_or_stutter:
  assumes "members ns g ps = [] \<or> members ns g ps = members ns g (waiting F)"
  shows "gang_step m (gang_of ns g F) (gang_of ns g (F\<lparr>fw_world := w, waiting := ps\<rparr>))"
  using assms gang_step.give_up stutter by (auto simp: gang_of_def)

text \<open>The pod that completes its gang takes the held pods along; other gangs stand still.\<close>

lemma bind_gang:
  assumes "sees G E H F" and "groups_ok G" and "gang_inv G F" and "slash_free (pod_Namespace p)"
    and "cycle E H f p n (fw_world F) (((CodeSuccess, m), d), acts) w'" and "G ns g = Some pg" and "g \<noteq> ''''"
  shows "gang_step (MinMember (Spec pg)) (gang_of ns g F) (gang_of ns g (F\<lparr>fw_world := w', waiting := without (waiting F) (allowed acts),
      running := on_node p n # allowed acts @ running F, started := on_node p n # allowed acts @ started F\<rparr>))"
proof (cases "GetPodGroupLabel p = ''''")
  case True
  with cycle_permit [OF assms(1-5)] assms(7) show ?thesis
    by (auto simp: gang_of_def stutter)
next
  case False
  then have pods: "mset (allowed acts) = mset (members (pod_Namespace p) (GetPodGroupLabel p) (waiting F))"
    and full: "pod_Namespace p = ns \<Longrightarrow> GetPodGroupLabel p = g \<Longrightarrow>
      MinMember (Spec pg) \<le> int (length (members ns g (waiting F @ running F))) + 1"
    using cycle_permit [OF assms(1-5)] assms(6) by (auto simp: Let_def split: if_splits)
  note moved = let_go [OF pods, of ns g]
  show ?thesis
  proof (cases "pod_Namespace p = ns \<and> GetPodGroupLabel p = g")
    case True
    with moved full show ?thesis
      using gang_step.go [of "MinMember (Spec pg)" "mset (members ns g (waiting F))" "mset (members ns g (running F))" "on_node p n"]
      by (simp add: gang_of_def)
  next
    case False
    with moved have "members ns g (without (waiting F) (allowed acts)) = members ns g (waiting F)" "members ns g (allowed acts) = []"
      by auto
    with False show ?thesis by (auto simp: gang_of_def stutter)
  qed
qed

lemma unreserve_gang:
  assumes "sees G E H F" and "groups_ok G" and "Unreserve E H p w = (acts, w')" and "G ns g = Some pg" and "g \<noteq> ''''"
  shows "members ns g (without (remove1 p (waiting F)) (rejected acts)) \<in> {[], members ns g (waiting F)}"
proof (cases "pod_Namespace p = ns \<and> GetPodGroupLabel p = g")
  case True
  then have "set (rejected acts) = set (members ns g (waiting F))"
    using Unreserve_rejects_all [OF assms(1-3), of pg] assms(4,5) by (intro mset_eq_setD) simp
  then show ?thesis by (auto simp: members_def without_def filter_empty_conv dest: notin_set_remove1)
next
  case False
  then have "members ns g (without (remove1 p (waiting F)) (rejected acts)) = members ns g (without (waiting F) (rejected acts))"
    by (simp add: members_without members_remove1)
  then show ?thesis
    using False Unreserve_rejects [OF assms(1-3)] let_go(2) [of "rejected acts" _ _ "waiting F" ns g] by auto
qed

lemma fw_step_gang:
  assumes "fw_step G f F F'" and "groups_ok G" and "gang_inv G F" and "G ns g = Some pg" and "g \<noteq> ''''"
  shows "gang_step (MinMember (Spec pg)) (gang_of ns g F) (gang_of ns g F')"
  using assms(1)
proof cases
  case (wait E H p n m d acts w')
  from cycle_permit [OF wait(2) assms(2,3) wait(3,5)] assms(4) show ?thesis
    using gang_step.hold [of "mset (members ns g (waiting F))" "mset (members ns g (running F))" "MinMember (Spec pg)" "on_node p n"]
    by (auto simp: wait(1) gang_of_def stutter Let_def split: if_splits)
next
  case (bind E H p n m d acts w')
  from bind_gang [OF bind(2) assms(2,3) bind(3,5) assms(4,5)] show ?thesis unfolding bind(1) .
next
  case (unschedulable E H p status acts w')
  have "members ns g (without (waiting F) (rejected acts)) \<in> {[], members ns g (waiting F)}"
    using PostFilter_rejects [OF unschedulable(2) assms(2) unschedulable(3)] let_go(2) [of "rejected acts" _ _ "waiting F" ns g] by auto
  then show ?thesis unfolding unschedulable(1) by (intro give_up_or_stutter) auto
next
  case (unreserve E H p acts w')
  have "members ns g (without (remove1 p (waiting F)) (rejected acts)) \<in> {[], members ns g (waiting F)}"
    by (rule unreserve_gang [OF unreserve(2) assms(2) unreserve(3) assms(4,5)])
  then show ?thesis unfolding unreserve(1) by (intro give_up_or_stutter) auto
next
  case (ends keep)
  have "members ns g (filter keep (running F)) = filter keep (members ns g (running F))" by (simp add: members_def conj_commute)
  then have "mset (members ns g (filter keep (running F))) \<subseteq># mset (members ns g (running F))"
    by (simp add: multiset_filter_subset)
  then show ?thesis unfolding ends gang_of_def by (simp add: gang_step.finish)
next
  case (world w)
  then show ?thesis by (simp add: gang_of_def stutter)
qed

interpretation gang: simulation "\<lambda>F. fw_reachable G f F \<and> groups_ok G \<and> G ns g = Some pg \<and> g \<noteq> ''''" "fw_step G f"
    "gang_step (MinMember (Spec pg))" "gang_of ns g"
  for G f ns g pg
  by unfold_locales (auto intro: fw_reachable.step fw_step_gang fw_reachable_gang_inv)

lemma fw_reachable_run:
  assumes "fw_reachable G f F"
  shows "\<exists>w. fw_reachable G f \<lparr>fw_world = w, waiting = [], running = [], started = []\<rparr>
    \<and> (fw_step G f)\<^sup>*\<^sup>* \<lparr>fw_world = w, waiting = [], running = [], started = []\<rparr> F"
  using assms
proof induction
  case (start w)
  then show ?case using fw_reachable.start by blast
next
  case (step F F')
  then show ?case by (meson rtranclp.rtrancl_into_rtrancl)
qed

text \<open>
  C2. The plugin implements gang scheduling. Seen from any group with a PodGroup, every run of the
  scheduling framework with the plugin is a run of the abstract gang with the group's minimum, step for
  step, whatever happens to other groups meanwhile: a pod is held back exactly while the gang would still
  be incomplete with it, the pod that completes the gang takes every held pod along, and a rejection, by
  \<open>PostFilter\<close> or \<open>Unreserve\<close>, never leaves a part of the gang behind.
\<close>

theorem framework_refines_gang:
  assumes "fw_reachable G f F" and "groups_ok G" and "G ns g = Some pg" and "g \<noteq> ''''"
  shows "(gang_step (MinMember (Spec pg)))\<^sup>*\<^sup>* ({#}, {#}) (gang_of ns g F)
    \<and> (\<forall>F'. fw_step G f F F' \<longrightarrow> gang_step (MinMember (Spec pg)) (gang_of ns g F) (gang_of ns g F'))"
proof -
  obtain w where run: "(fw_step G f)\<^sup>*\<^sup>* (\<lparr>fw_world = w, waiting = [], running = [], started = []\<rparr>) F"
    and start: "fw_reachable G f \<lparr>fw_world = w, waiting = [], running = [], started = []\<rparr>"
    using fw_reachable_run [OF assms(1)] by blast
  have "gang_of ns g \<lparr>fw_world = w, waiting = [], running = [], started = []\<rparr> = ({#}, {#})"
    by (simp add: gang_of_def)
  with gang.run [OF run, where pg = pg and ns = ns and g = g] gang.simulates [of G f F ns g pg] start assms show ?thesis
    by simp
qed

theorem framework_refines_gang_witness:
  "(gang_step 2)\<^sup>*\<^sup>* ({#}, {#}) ({#}, {#on_node (demo_pods ! 0) ''n1'', on_node (demo_pods ! 1) ''n2''#})"
proof -
  obtain F where run: "(fw_step demo_groups demo_plugin)\<^sup>*\<^sup>* demo_empty F"
    and F: "waiting F = []" "mset (running F) = {#on_node (demo_pods ! 0) ''n1'', on_node (demo_pods ! 1) ''n2''#}"
    using demo_gang_starts by blast
  have "mset (members ''ns'' ''g'' (running F)) = mset (running F)"
    using arg_cong [OF F(2), of set_mset] demo_all [of "demo_pods ! 0"] demo_all [of "demo_pods ! 1"]
    by (auto simp: members_def filter_id_conv intro!: filter_mset_eq_conv [THEN iffD2])
  moreover have "MinMember (Spec demo_group) = 2" by simp
  ultimately show ?thesis
    using framework_refines_gang [OF steps_reachable [OF run demo_empty_reachable] demo_groups_ok, of "''ns''" "''g''" demo_group] F
    by (simp add: demo_groups_def gang_of_def)
qed

end
