(* ===== verification/Logger.thy ===== *)
theory Logger
  imports Fluence_Prelude
begin

text \<open>
  The debug logger, \<open>pkg/logger/logger.go\<close>, with what it uses of Go's library: the
  formatting of \<open>fmt.Sprintf\<close>, a logger of package \<open>log\<close> without prefix and flags, and
  the files of package \<open>os\<close>. Every call opens the file, appends at most one line, and
  closes the file again.
\<close>

section \<open>Formatting\<close>

text \<open>
  The values the sources log: strings, values of a string type, integers, values with a
  method \<open>String\<close> or \<open>Error\<close>, slices of strings and nil. Of a value with such a method
  the third component is what the verbs that do not call it print.
\<close>

datatype any =
    AnyString string
  | AnyNamed string string
  | AnyInt string int
  | AnyStringer string string "char \<Rightarrow> string"
  | AnyStrings "string list"
  | AnyNil

fun any_type :: "any \<Rightarrow> string" where
  "any_type (AnyString _) = ''string''"
| "any_type (AnyNamed t _) = t"
| "any_type (AnyInt t _) = t"
| "any_type (AnyStringer t _ _) = t"
| "any_type (AnyStrings _) = ''[]string''"
| "any_type AnyNil = ''<nil>''"

text \<open>The verb \<open>%v\<close>.\<close>

fun any_text :: "any \<Rightarrow> string" where
  "any_text (AnyString s) = s"
| "any_text (AnyNamed _ s) = s"
| "any_text (AnyInt _ i) = fmt_d i"
| "any_text (AnyStringer _ s _) = s"
| "any_text (AnyStrings xs) = ''['' @ Join xs '' '' @ '']''"
| "any_text AnyNil = ''<nil>''"

definition badVerb :: "any \<Rightarrow> char \<Rightarrow> string" where
  "badVerb a verb = ''%!'' @ [verb] @ ''(''
     @ (case a of AnyNil \<Rightarrow> ''<nil>'' | _ \<Rightarrow> any_type a @ ''='' @ any_text a) @ '')''"

text \<open>The verbs of the sources are \<open>%s\<close>, \<open>%d\<close> and \<open>%v\<close>.\<close>

fun printArg :: "any \<Rightarrow> char \<Rightarrow> string" where
  "printArg (AnyStringer t s raw) verb = (if verb = CHR ''v'' \<or> verb = CHR ''s'' then s else raw verb)"
| "printArg (AnyStrings xs) verb =
     (if verb = CHR ''v'' then any_text (AnyStrings xs)
      else ''['' @ Join (map (\<lambda>x. if verb = CHR ''s'' then x else badVerb (AnyString x) verb) xs) '' '' @ '']'')"
| "printArg (AnyInt t i) verb =
     (if verb = CHR ''v'' \<or> verb = CHR ''d'' then fmt_d i else badVerb (AnyInt t i) verb)"
| "printArg AnyNil verb = (if verb = CHR ''v'' then ''<nil>'' else badVerb AnyNil verb)"
| "printArg a verb = (if verb = CHR ''v'' \<or> verb = CHR ''s'' then any_text a else badVerb a verb)"

definition extra_args :: "any list \<Rightarrow> string" where
  "extra_args args = (if args = [] then '''' else
     ''%!(EXTRA '' @ Join (map (\<lambda>a. case a of AnyNil \<Rightarrow> ''<nil>'' | _ \<Rightarrow> any_type a @ ''='' @ any_text a) args) '', '' @ '')'')"

fun Sprintf :: "string \<Rightarrow> any list \<Rightarrow> string" where
  "Sprintf [] args = extra_args args"
| "Sprintf [c] args = (if c = CHR ''%'' then ''%!(NOVERB)'' else [c]) @ extra_args args"
| "Sprintf (c # d # f) args =
     (if c \<noteq> CHR ''%'' then c # Sprintf (d # f) args
      else if d = CHR ''%'' then CHR ''%'' # Sprintf f args
      else (case args of
              [] \<Rightarrow> ''%!'' @ [d] @ ''(MISSING)'' @ Sprintf f []
            | a # args' \<Rightarrow> printArg a d @ Sprintf f args'))"

text \<open>A format without flags, widths and other verbs, as all formats of the sources are.\<close>

fun plain_format :: "string \<Rightarrow> bool" where
  "plain_format [] \<longleftrightarrow> True"
| "plain_format [c] \<longleftrightarrow> True"
| "plain_format (c # d # f) \<longleftrightarrow>
     (if c \<noteq> CHR ''%'' then plain_format (d # f) else d \<in> set ''sdv%'' \<and> plain_format f)"

lemma extra_args_Nil [simp]: "extra_args [] = ''''"
  by (simp add: extra_args_def)

lemma Sprintf_Cons: "c \<noteq> CHR ''%'' \<Longrightarrow> Sprintf (c # f) args = c # Sprintf f args"
  by (cases f) simp_all

text \<open>Text before the first verb is printed as it is.\<close>

lemma Sprintf_literal: "CHR ''%'' \<notin> set p \<Longrightarrow> Sprintf (p @ f) args = p @ Sprintf f args"
  by (induction p) (auto simp: Sprintf_Cons)

section \<open>Files\<close>

text \<open>
  The files of the system and their contents, what was printed on the standard output,
  and the descriptors that are open. A descriptor is fresh when it is handed out.
\<close>

record os_File =
  file_fd :: nat
  file_name :: string

record os_state =
  disk :: "string \<rightharpoonup> string"
  stdout :: string
  open_fds :: "nat set"
  next_fd :: nat

definition os_wf :: "os_state \<Rightarrow> bool" where
  "os_wf s \<longleftrightarrow> (\<forall>fd \<in> open_fds s. fd < next_fd s)"

text \<open>
  \<open>os.OpenFile\<close> with \<open>O_WRONLY|O_CREATE|O_APPEND\<close>. Whether the system can open the file
  is its own choice at each call: the argument is its refusal, if any.
\<close>

definition OpenFile :: "string \<Rightarrow> string option \<Rightarrow> os_state \<Rightarrow> os_File result \<times> os_state" where
  "OpenFile name refusal s = (case refusal of
     Some err \<Rightarrow> (Inl (Err err), s)
   | None \<Rightarrow> (Inr \<lparr>file_fd = next_fd s, file_name = name\<rparr>,
        s\<lparr>disk := (disk s)(name \<mapsto> (case disk s name of None \<Rightarrow> '''' | Some t \<Rightarrow> t)),
          open_fds := insert (next_fd s) (open_fds s), next_fd := Suc (next_fd s)\<rparr>))"

definition file_Close :: "os_File \<Rightarrow> os_state \<Rightarrow> unit result \<times> os_state" where
  "file_Close f s = (if file_fd f \<in> open_fds s then (Inr (), s\<lparr>open_fds := open_fds s - {file_fd f}\<rparr>)
     else (Inl (Err (''close '' @ file_name f @ '': file already closed'')), s))"

text \<open>
  \<open>Printf\<close> of a \<open>log.Logger\<close> without prefix and flags: a line, ended by a newline. A write to
  a closed file fails, and \<open>Printf\<close> ignores the error.
\<close>

definition end_line :: "string \<Rightarrow> string" where
  "end_line t = (if t = [] \<or> last t \<noteq> CHR 0x0A then t @ [CHR 0x0A] else t)"

definition logger_Printf :: "os_File \<Rightarrow> string \<Rightarrow> any list \<Rightarrow> os_state \<Rightarrow> os_state" where
  "logger_Printf f fmt args s = (case disk s (file_name f) of
     Some t \<Rightarrow> (if file_fd f \<in> open_fds s then s\<lparr>disk := (disk s)(file_name f \<mapsto> t @ end_line (Sprintf fmt args))\<rparr> else s)
   | None \<Rightarrow> s)"

definition fmt_Printf :: "string \<Rightarrow> any list \<Rightarrow> os_state \<Rightarrow> os_state" where
  "fmt_Printf fmt args s = s\<lparr>stdout := stdout s @ Sprintf fmt args\<rparr>"

section \<open>The logger\<close>

definition LevelNone :: int where "LevelNone = 0"
definition LevelInfo :: int where "LevelInfo = 1"
definition LevelWarning :: int where "LevelWarning = 2"
definition LevelError :: int where "LevelError = 3"
definition LevelVerbose :: int where "LevelVerbose = 4"
definition LevelDebug :: int where "LevelDebug = 5"

record DebugLogger =
  log_level :: int
  Filename :: string
  log_handle :: "os_File option"

definition NewDebugLogger :: "int \<Rightarrow> string \<Rightarrow> DebugLogger" where
  "NewDebugLogger level filename = \<lparr>log_level = level, Filename = filename, log_handle = None\<rparr>"

definition Start :: "string option \<Rightarrow> DebugLogger \<times> os_state \<Rightarrow> os_File result \<times> DebugLogger \<times> os_state" where
  "Start refusal = (\<lambda>(l, s).
     case OpenFile (Filename l) refusal s of
       (Inl err, s') \<Rightarrow> (Inl err, l, s')
     | (Inr f, s') \<Rightarrow> (Inr f, l\<lparr>log_handle := Some f\<rparr>, s'))"

definition Stop :: "DebugLogger \<times> os_state \<Rightarrow> unit result \<times> DebugLogger \<times> os_state" where
  "Stop = (\<lambda>(l, s). case log_handle l of
     Some f \<Rightarrow> (case file_Close f s of (r, s') \<Rightarrow> (r, l, s'))
   | None \<Rightarrow> (Inr (), l, s))"

definition debug_log ::
    "int \<Rightarrow> string \<Rightarrow> any list \<Rightarrow> string option \<Rightarrow> DebugLogger \<times> os_state \<Rightarrow> unit result \<times> DebugLogger \<times> os_state" where
  "debug_log level prefix message refusal x =
     (case Start refusal x of
        (Inl err, l, s) \<Rightarrow> (Inl err, l, s)
      | (Inr logger, l, s) \<Rightarrow>
          (case message of
             [] \<Rightarrow> (Inl (Panic IndexOutOfRange), l, s)
           | first # rest \<Rightarrow>
               (case first of
                  AnyString prolog \<Rightarrow>
                    (let prolog = (if prefix \<noteq> '''' then prefix @ '' '' @ prolog else prolog);
                         s1 = fmt_Printf ''Compariing level %d <= %d\<newline>'' [AnyInt ''int'' level, AnyInt ''int'' (log_level l)] s;
                         s2 = (if level \<le> log_level l then logger_Printf logger prolog rest s1 else s1)
                     in Stop (l, s2))
                | _ \<Rightarrow> (Inl (Panic BadTypeAssertion), l, s))))"

definition log_Info :: "any list \<Rightarrow> string option \<Rightarrow> DebugLogger \<times> os_state \<Rightarrow> unit result \<times> DebugLogger \<times> os_state" where
  "log_Info message = debug_log LevelInfo ''   INFO: '' message"

definition log_Error :: "any list \<Rightarrow> string option \<Rightarrow> DebugLogger \<times> os_state \<Rightarrow> unit result \<times> DebugLogger \<times> os_state" where
  "log_Error message = debug_log LevelError ''  ERROR: '' message"

definition log_Debug :: "any list \<Rightarrow> string option \<Rightarrow> DebugLogger \<times> os_state \<Rightarrow> unit result \<times> DebugLogger \<times> os_state" where
  "log_Debug message = debug_log LevelDebug ''  DEBUG: '' message"

definition log_Verbose :: "any list \<Rightarrow> string option \<Rightarrow> DebugLogger \<times> os_state \<Rightarrow> unit result \<times> DebugLogger \<times> os_state" where
  "log_Verbose message = debug_log LevelVerbose ''VERBOSE: '' message"

definition log_Warning :: "any list \<Rightarrow> string option \<Rightarrow> DebugLogger \<times> os_state \<Rightarrow> unit result \<times> DebugLogger \<times> os_state" where
  "log_Warning message = debug_log LevelWarning ''WARNING: '' message"

section \<open>Sequences of calls\<close>

datatype log_method = MInfo | MError | MDebug | MVerbose | MWarning

type_synonym log_call = "log_method \<times> any list \<times> string option"

fun log_call :: "log_call \<Rightarrow> DebugLogger \<times> os_state \<Rightarrow> unit result \<times> DebugLogger \<times> os_state" where
  "log_call (MInfo, message, refusal) = log_Info message refusal"
| "log_call (MError, message, refusal) = log_Error message refusal"
| "log_call (MDebug, message, refusal) = log_Debug message refusal"
| "log_call (MVerbose, message, refusal) = log_Verbose message refusal"
| "log_call (MWarning, message, refusal) = log_Warning message refusal"

fun run_calls :: "('m \<Rightarrow> 'x \<Rightarrow> 'r \<times> 'x) \<Rightarrow> 'm list \<Rightarrow> 'x \<Rightarrow> 'r list \<times> 'x" where
  "run_calls call [] x = ([], x)"
| "run_calls call (m # ms) x = (case call m x of (r, y) \<Rightarrow> (case run_calls call ms y of (rs, z) \<Rightarrow> (r # rs, z)))"

text \<open>
  What an append-only log promises: a call adds its own text to the contents and answers
  as the call decides, whatever was written before. So a sequence of calls adds the
  texts in their order.
\<close>

locale append_log =
  fixes call :: "'m \<Rightarrow> 'x \<Rightarrow> 'r \<times> 'x" and contents :: "'x \<Rightarrow> 'a list"
    and entry :: "'m \<Rightarrow> 'a list" and answer :: "'m \<Rightarrow> 'r"
    and inv :: "'x \<Rightarrow> bool" and ok :: "'m \<Rightarrow> bool"
  assumes appends: "inv x \<Longrightarrow> ok m \<Longrightarrow> contents (snd (call m x)) = contents x @ entry m"
    and answers: "inv x \<Longrightarrow> ok m \<Longrightarrow> fst (call m x) = answer m"
    and keeps: "inv x \<Longrightarrow> ok m \<Longrightarrow> inv (snd (call m x))"
begin

lemma run_appends:
  assumes "inv x" and "\<forall>m \<in> set ms. ok m" and "run_calls call ms x = (rs, y)"
  shows "contents y = contents x @ concat (map entry ms) \<and> rs = map answer ms \<and> inv y"
  using assms
proof (induction ms arbitrary: x rs)
  case Nil
  then show ?case by simp
next
  case (Cons m ms)
  obtain r z where call: "call m x = (r, z)" by (cases "call m x")
  with Cons.prems obtain rs' where run: "run_calls call ms z = (rs', y)" "rs = r # rs'"
    by (auto split: prod.splits)
  have "contents z = contents x @ entry m" "r = answer m" "inv z"
    using appends [of x m] answers [of x m] keeps [of x m] Cons.prems(1,2) call by simp_all
  with Cons.IH [OF _ _ run(1)] Cons.prems(2) run(2) show ?case by simp
qed

end

section \<open>What the logger writes\<close>

fun method_level :: "log_method \<Rightarrow> int" where
  "method_level MInfo = 1"
| "method_level MWarning = 2"
| "method_level MError = 3"
| "method_level MVerbose = 4"
| "method_level MDebug = 5"

fun method_tag :: "log_method \<Rightarrow> string" where
  "method_tag MInfo = ''   INFO:  ''"
| "method_tag MError = ''  ERROR:  ''"
| "method_tag MDebug = ''  DEBUG:  ''"
| "method_tag MVerbose = ''VERBOSE:  ''"
| "method_tag MWarning = ''WARNING:  ''"

fun file_line :: "int \<Rightarrow> log_call \<Rightarrow> string" where
  "file_line level (m, AnyString format # args, None) =
     (if method_level m \<le> level then end_line (method_tag m @ Sprintf format args) else '''')"
| "file_line level _ = ''''"

fun stdout_line :: "int \<Rightarrow> log_call \<Rightarrow> string" where
  "stdout_line level (m, message, None) =
     ''Compariing level '' @ fmt_d (method_level m) @ '' <= '' @ fmt_d level @ ''\<newline>''"
| "stdout_line level _ = ''''"

fun call_answer :: "log_call \<Rightarrow> unit result" where
  "call_answer (m, message, Some err) = Inl (Err err)"
| "call_answer (m, message, None) = Inr ()"

fun plain_call :: "log_call \<Rightarrow> bool" where
  "plain_call (m, AnyString format # args, refusal) \<longleftrightarrow> plain_format format"
| "plain_call _ \<longleftrightarrow> False"

definition file_text :: "os_state \<Rightarrow> string \<Rightarrow> string" where
  "file_text s name = (case disk s name of None \<Rightarrow> '''' | Some t \<Rightarrow> t)"

text \<open>What a call leaves as it was: the logger's settings, the other files and the open descriptors.\<close>

definition log_frame :: "DebugLogger \<times> os_state \<Rightarrow> DebugLogger \<times> os_state \<Rightarrow> bool" where
  "log_frame x y \<longleftrightarrow> log_level (fst y) = log_level (fst x) \<and> Filename (fst y) = Filename (fst x)
     \<and> os_wf (snd y) \<and> open_fds (snd y) = open_fds (snd x)
     \<and> (\<forall>name. name \<noteq> Filename (fst x) \<longrightarrow> disk (snd y) name = disk (snd x) name)"

lemma log_call_debug_log:
  "log_call (m, message, refusal) = debug_log (method_level m) (butlast (method_tag m)) message refusal"
  by (cases m) (simp_all add: log_Info_def log_Error_def log_Debug_def log_Verbose_def log_Warning_def
    LevelInfo_def LevelError_def LevelDebug_def LevelVerbose_def LevelWarning_def fun_eq_iff)

lemma method_tag_nonempty: "butlast (method_tag m) \<noteq> ''''"
  by (cases m) simp_all

lemma method_tag_literal: "Sprintf (butlast (method_tag m) @ CHR '' '' # f) args = method_tag m @ Sprintf f args"
proof -
  have "Sprintf (method_tag m @ f) args = method_tag m @ Sprintf f args" by (rule Sprintf_literal) (cases m; simp)
  moreover have "method_tag m @ f = butlast (method_tag m) @ CHR '' '' # f" by (cases m) simp_all
  ultimately show ?thesis by simp
qed

text \<open>A call that the system refuses does nothing; any other call opens, writes and closes.\<close>

lemma log_call_refused: "log_call (m, message, Some err) (l, s) = (Inl (Err err), l, s)"
  by (simp add: log_call_debug_log debug_log_def Start_def OpenFile_def)

text \<open>A call without a string as its first argument panics, and leaves the file open.\<close>

lemma log_call_panics:
  assumes "\<nexists>format args. message = AnyString format # args"
  shows "\<exists>p l' s'. log_call (m, message, None) (l, s) = (Inl (Panic p), l', s') \<and> next_fd s \<in> open_fds s'"
  using assms by (auto simp: log_call_debug_log debug_log_def Start_def OpenFile_def split: list.splits any.splits)

lemma log_call_written:
  assumes "os_wf s"
  shows "log_call (m, AnyString format # args, None) (l, s) =
    (Inr (), l\<lparr>log_handle := Some \<lparr>file_fd = next_fd s, file_name = Filename l\<rparr>\<rparr>,
     s\<lparr>disk := (disk s)(Filename l \<mapsto> file_text s (Filename l) @ file_line (log_level l) (m, AnyString format # args, None)),
       stdout := stdout s @ stdout_line (log_level l) (m, AnyString format # args, None), next_fd := Suc (next_fd s)\<rparr>)"
proof -
  have "next_fd s \<notin> open_fds s" using assms by (auto simp: os_wf_def)
  then have "insert (next_fd s) (open_fds s) - {next_fd s} = open_fds s" by simp
  then show ?thesis
    by (cases "disk s (Filename l)") (simp_all add: log_call_debug_log debug_log_def Start_def OpenFile_def Stop_def
      file_Close_def fmt_Printf_def logger_Printf_def method_tag_nonempty method_tag_literal file_text_def)
qed

lemma log_call_effect:
  assumes "log_frame x y" and "plain_call c"
  shows "file_text (snd (snd (log_call c y))) (Filename (fst (snd (log_call c y)))) =
      file_text (snd y) (Filename (fst y)) @ file_line (log_level (fst x)) c"
    and "stdout (snd (snd (log_call c y))) = stdout (snd y) @ stdout_line (log_level (fst x)) c"
    and "fst (log_call c y) = call_answer c" and "log_frame x (snd (log_call c y))"
proof -
  obtain l s m format args refusal where y: "y = (l, s)" and c: "c = (m, AnyString format # args, refusal)"
    using assms(2) by (cases y; cases c rule: plain_call.cases) auto
  have wf: "os_wf s" using assms(1) y by (simp add: log_frame_def)
  have same: "log_level l = log_level (fst x)" "Filename l = Filename (fst x)" using assms(1) y by (simp_all add: log_frame_def)
  note written = log_call_written [OF wf, of m format args l]
  show "file_text (snd (snd (log_call c y))) (Filename (fst (snd (log_call c y)))) =
      file_text (snd y) (Filename (fst y)) @ file_line (log_level (fst x)) c"
    by (cases refusal) (simp_all add: y c log_call_refused written file_text_def same del: log_call.simps)
  show "stdout (snd (snd (log_call c y))) = stdout (snd y) @ stdout_line (log_level (fst x)) c"
    by (cases refusal) (simp_all add: y c log_call_refused written same del: log_call.simps)
  show "fst (log_call c y) = call_answer c"
    by (cases refusal) (simp_all add: y c log_call_refused written del: log_call.simps)
  show "log_frame x (snd (log_call c y))"
    using assms(1) wf by (cases refusal)
      (auto simp: y c log_call_refused written log_frame_def os_wf_def less_Suc_eq simp del: log_call.simps)
qed

text \<open>The file and the standard output are append-only logs.\<close>

interpretation log_file: append_log log_call "\<lambda>x. file_text (snd x) (Filename (fst x))"
  "file_line (log_level (fst x0))" call_answer "log_frame x0" plain_call for x0
  by unfold_locales (simp_all only: log_call_effect)

interpretation log_stdout: append_log log_call "\<lambda>x. stdout (snd x)"
  "stdout_line (log_level (fst x0))" call_answer "log_frame x0" plain_call for x0
  by unfold_locales (simp_all only: log_call_effect)

text \<open>
  C30. The log holds exactly the enabled messages. After any sequence of calls of the five
  methods, the file has grown by one line for each call whose level is at most that of
  the logger and for which the file could be opened, in the order of the calls, each
  with the tag of its method and its formatted message; every call answers nil, or the
  reason the file could not be opened; no other file has changed and no descriptor is
  left open. Each call that opened the file also prints its comparison of levels.
\<close>

theorem logging_appends_lines:
  assumes "os_wf s" and "\<forall>c \<in> set calls. plain_call c" and "run_calls log_call calls (l, s) = (answers, l', s')"
  shows "file_text s' (Filename l) = file_text s (Filename l) @ concat (map (file_line (log_level l)) calls)
    \<and> stdout s' = stdout s @ concat (map (stdout_line (log_level l)) calls)
    \<and> answers = map call_answer calls \<and> open_fds s' = open_fds s
    \<and> (\<forall>name. name \<noteq> Filename l \<longrightarrow> disk s' name = disk s name)"
proof -
  have "log_frame (l, s) (l, s)" using assms(1) by (simp add: log_frame_def)
  from log_file.run_appends [OF this assms(2,3)] log_stdout.run_appends [OF this assms(2,3)]
  show ?thesis by (auto simp: log_frame_def)
qed

text \<open>At \<open>LevelInfo\<close>, a warning is dropped: warnings and errors have the higher levels.\<close>

definition demo_os :: os_state where
  "demo_os = \<lparr>disk = [''/etc/hosts'' \<mapsto> ''x''], stdout = '''', open_fds = {0, 1, 2}, next_fd = 3\<rparr>"

definition demo_calls :: "log_call list" where
  "demo_calls = [(MInfo, [AnyString ''pod %s'', AnyString ''a''], None), (MWarning, [AnyString ''w''], None),
     (MInfo, [AnyString ''x''], Some ''open: denied''), (MInfo, [AnyString ''%d of %s'', AnyInt ''int'' 3, AnyInt ''int'' 4], None)]"

theorem logging_appends_lines_witness:
  "case run_calls log_call demo_calls (NewDebugLogger LevelInfo ''/tmp/fluence.log'', demo_os) of (answers, l', s') \<Rightarrow>
     file_text s' ''/tmp/fluence.log'' = ''   INFO:  pod a\<newline>   INFO:  3 of %!s(int=4)\<newline>''
     \<and> answers = [Inr (), Inr (), Inl (Err ''open: denied''), Inr ()] \<and> open_fds s' = {0, 1, 2}
     \<and> disk s' ''/etc/hosts'' = Some ''x''"
proof -
  let ?l = "NewDebugLogger LevelInfo ''/tmp/fluence.log''"
  obtain answers l' s' where run: "run_calls log_call demo_calls (?l, demo_os) = (answers, l', s')"
    by (metis surj_pair)
  have wf: "os_wf demo_os" by (simp add: os_wf_def demo_os_def)
  have ok: "\<forall>c \<in> set demo_calls. plain_call c" by (simp add: demo_calls_def)
  have digits: "fmt_d 3 = ''3''" "fmt_d 4 = ''4''" by code_simp+
  have lines: "concat (map (file_line LevelInfo) demo_calls) = ''   INFO:  pod a\<newline>   INFO:  3 of %!s(int=4)\<newline>''"
    by (simp add: demo_calls_def LevelInfo_def end_line_def badVerb_def digits)
  have "log_level ?l = LevelInfo" "Filename ?l = ''/tmp/fluence.log''" "file_text demo_os ''/tmp/fluence.log'' = ''''"
    by (simp_all add: NewDebugLogger_def file_text_def demo_os_def)
  with logging_appends_lines [OF wf ok run] lines show ?thesis
    unfolding run by (simp add: demo_os_def demo_calls_def)
qed

end
