(* ===== verification/Logger_Threads.thy ===== *)
theory Logger_Threads
  imports Logger "HOL-Library.Multiset"
begin

text \<open>
  The logger shared by threads. The scheduling thread and the informer thread log through
  one \<open>DebugLogger\<close>, which has no lock: its handle is that of the last call that opened the
  file, whoever made it. A step of a call is the opening, the printing or the closing.
\<close>

section \<open>The steps of a call\<close>

datatype log_thread =
    LogBegin int string string "any list"
  | LogOpened int string string "any list" os_File
  | LogPrinted
  | LogReturned "unit result"

fun log_step :: "string option \<Rightarrow> log_thread \<times> DebugLogger \<times> os_state \<Rightarrow> log_thread \<times> DebugLogger \<times> os_state" where
  "log_step refusal (LogBegin level prefix prolog rest, x) =
     (case Start refusal x of
        (Inl err, y) \<Rightarrow> (LogReturned (Inl err), y)
      | (Inr logger, y) \<Rightarrow> (LogOpened level prefix prolog rest logger, y))"
| "log_step refusal (LogOpened level prefix prolog rest logger, l, s) =
     (let prolog = (if prefix \<noteq> '''' then prefix @ '' '' @ prolog else prolog);
          s1 = fmt_Printf ''Compariing level %d <= %d\<newline>'' [AnyInt ''int'' level, AnyInt ''int'' (log_level l)] s;
          s2 = (if level \<le> log_level l then logger_Printf logger prolog rest s1 else s1)
      in (LogPrinted, l, s2))"
| "log_step refusal (LogPrinted, x) = (case Stop x of (r, y) \<Rightarrow> (LogReturned r, y))"
| "log_step refusal (LogReturned r, x) = (LogReturned r, x)"

lemma undisturbed_call_is_debug_log:
  "(log_step refusal ^^ 3) (LogBegin level prefix prolog rest, l, s) =
   (case debug_log level prefix (AnyString prolog # rest) refusal (l, s) of (r, y) \<Rightarrow> (LogReturned r, y))"
  by (auto simp: eval_nat_numeral debug_log_def Let_def split: sum.splits prod.splits)

text \<open>Any thread may take the next step; the system may refuse to open the file or not.\<close>

inductive lstep :: "log_thread list \<times> DebugLogger \<times> os_state \<Rightarrow> log_thread list \<times> DebugLogger \<times> os_state \<Rightarrow> bool" where
  lstepI: "i < length ts \<Longrightarrow> log_step refusal (ts ! i, l, s) = (t, l', s') \<Longrightarrow> lstep (ts, l, s) (ts[i := t], l', s')"

section \<open>What concurrent calls can write\<close>

text \<open>The lines a call may still write to the file.\<close>

definition call_line :: "int \<Rightarrow> int \<Rightarrow> string \<Rightarrow> string \<Rightarrow> any list \<Rightarrow> string multiset" where
  "call_line lv level prefix prolog rest = (if level \<le> lv
     then {#end_line (Sprintf (if prefix \<noteq> '''' then prefix @ '' '' @ prolog else prolog) rest)#} else {#})"

fun due :: "int \<Rightarrow> log_thread \<Rightarrow> string multiset" where
  "due lv (LogBegin level prefix prolog rest) = call_line lv level prefix prolog rest"
| "due lv (LogOpened level prefix prolog rest logger) = call_line lv level prefix prolog rest"
| "due lv _ = {#}"

fun opened_in :: "string \<Rightarrow> nat set \<Rightarrow> log_thread \<Rightarrow> bool" where
  "opened_in name fds (LogOpened level prefix prolog rest logger) \<longleftrightarrow> file_name logger = name \<and> file_fd logger \<notin> fds"
| "opened_in name fds _ \<longleftrightarrow> True"

text \<open>
  What holds at every moment, seen from the beginning: the settings are those of the
  beginning, the threads and the handle have descriptors of their own, and every
  descriptor and every other file of the beginning is still as it was.
\<close>

definition log_kept :: "DebugLogger \<times> os_state \<Rightarrow> DebugLogger \<times> os_state \<Rightarrow> bool" where
  "log_kept x y \<longleftrightarrow> log_level (fst y) = log_level (fst x) \<and> Filename (fst y) = Filename (fst x)
     \<and> next_fd (snd x) \<le> next_fd (snd y) \<and> open_fds (snd x) \<subseteq> open_fds (snd y)
     \<and> (\<forall>f. log_handle (fst y) = Some f \<longrightarrow> next_fd (snd x) \<le> file_fd f)
     \<and> (\<forall>name. name \<noteq> Filename (fst x) \<longrightarrow> disk (snd y) name = disk (snd x) name)"

lemma fmt_Printf_simps [simp]:
  "disk (fmt_Printf fmt args s) = disk s" "open_fds (fmt_Printf fmt args s) = open_fds s"
  "next_fd (fmt_Printf fmt args s) = next_fd s" "file_text (fmt_Printf fmt args s) = file_text s"
  by (simp_all add: fmt_Printf_def file_text_def fun_eq_iff)

lemma logger_Printf_simps [simp]:
  "open_fds (logger_Printf f fmt args s) = open_fds s" "next_fd (logger_Printf f fmt args s) = next_fd s"
  "name \<noteq> file_name f \<Longrightarrow> disk (logger_Printf f fmt args s) name = disk s name"
  by (simp_all add: logger_Printf_def split: option.split)

lemma logger_Printf_text:
  "file_text (logger_Printf f fmt args s) (file_name f) = file_text s (file_name f)
     @ (if file_fd f \<in> open_fds s \<and> disk s (file_name f) \<noteq> None then end_line (Sprintf fmt args) else '''')"
  by (auto simp: logger_Printf_def file_text_def split: option.split)

lemma log_step_kept:
  assumes "log_step refusal (t, y) = (t', y')" and "log_kept x y" and "os_wf (snd x)"
    and "opened_in (Filename (fst x)) {..<next_fd (snd x)} t"
  shows "log_kept x y' \<and> opened_in (Filename (fst x)) {..<next_fd (snd x)} t'"
proof -
  obtain l s where y: "y = (l, s)" by (cases y)
  show ?thesis
  proof (cases t)
    case (LogBegin level prefix prolog rest)
    with assms y show ?thesis
      by (cases refusal) (auto simp: Start_def OpenFile_def log_kept_def)
  next
    case (LogOpened level prefix prolog rest logger)
    with assms y show ?thesis by (auto simp: log_kept_def Let_def simp del: Sprintf.simps)
  next
    case LogPrinted
    show ?thesis
    proof (cases "log_handle l")
      case None
      with LogPrinted assms y show ?thesis by (auto simp: Stop_def)
    next
      case (Some f)
      with assms(2,3) y have "file_fd f \<notin> open_fds (snd x)" by (auto simp: log_kept_def os_wf_def)
      with Some LogPrinted assms(1,2) y show ?thesis
        by (cases "file_fd f \<in> open_fds s") (auto simp: Stop_def file_Close_def log_kept_def)
    qed
  next
    case (LogReturned r)
    with assms show ?thesis by simp
  qed
qed

text \<open>A step writes at most the line that is due.\<close>

lemma log_step_writes:
  assumes "log_step refusal (t, y) = (t', y')" and "log_kept x y"
    and "opened_in (Filename (fst x)) {..<next_fd (snd x)} t"
  shows "\<exists>ys. file_text (snd y') (Filename (fst x)) = file_text (snd y) (Filename (fst x)) @ concat ys
    \<and> mset ys + due (log_level (fst x)) t' \<subseteq># due (log_level (fst x)) t"
proof -
  obtain l s where y: "y = (l, s)" by (cases y)
  have same: "log_level l = log_level (fst x)" "Filename l = Filename (fst x)" using assms(2) y by (simp_all add: log_kept_def)
  show ?thesis
  proof (cases t)
    case (LogBegin level prefix prolog rest)
    with assms(1) y same show ?thesis
      by (intro exI [of _ "[]"], cases refusal) (auto simp: Start_def OpenFile_def file_text_def split: option.splits)
  next
    case (LogOpened level prefix prolog rest logger)
    let ?line = "end_line (Sprintf (if prefix \<noteq> '''' then prefix @ '' '' @ prolog else prolog) rest)"
    have f: "file_name logger = Filename (fst x)" using assms(3) LogOpened by simp
    have y': "t' = LogPrinted" "file_text (snd y') (Filename (fst x)) = file_text s (Filename (fst x))
        @ (if level \<le> log_level l \<and> file_fd logger \<in> open_fds s \<and> disk s (Filename (fst x)) \<noteq> None then ?line else '''')"
      using assms(1) LogOpened y logger_Printf_text [of logger] unfolding f
      by (auto simp: Let_def simp del: Sprintf.simps)
    show ?thesis
      by (rule exI [of _ "if level \<le> log_level l \<and> file_fd logger \<in> open_fds s \<and> disk s (Filename (fst x)) \<noteq> None then [?line] else []"])
        (use y' same(1) y LogOpened in \<open>auto simp: call_line_def\<close>)
  next
    case LogPrinted
    with assms(1) y show ?thesis
      by (intro exI [of _ "[]"]) (auto simp: Stop_def file_Close_def file_text_def split: option.splits if_splits)
  next
    case (LogReturned r)
    with assms(1) show ?thesis by (intro exI [of _ "[]"]) auto
  qed
qed

lemma lstep_log:
  assumes "lstep (ts, y) (ts', y')" and "log_kept x y" and "os_wf (snd x)"
    and "\<forall>t \<in> set ts. opened_in (Filename (fst x)) {..<next_fd (snd x)} t"
  shows "log_kept x y' \<and> (\<forall>t \<in> set ts'. opened_in (Filename (fst x)) {..<next_fd (snd x)} t)
    \<and> (\<exists>ys. file_text (snd y') (Filename (fst x)) = file_text (snd y) (Filename (fst x)) @ concat ys
        \<and> mset ys + sum_list (map (due (log_level (fst x))) ts') \<subseteq># sum_list (map (due (log_level (fst x))) ts))"
  using assms(1)
proof cases
  case (lstepI i refusal l s t l' s')
  let ?due = "\<lambda>ts. sum_list (map (due (log_level (fst x))) ts)"
  have step: "log_step refusal (ts ! i, y) = (t, y')" using lstepI by simp
  have ok: "opened_in (Filename (fst x)) {..<next_fd (snd x)} (ts ! i)" using assms(4) lstepI(4) by simp
  note kept = log_step_kept [OF step assms(2,3) ok]
  obtain ys where ys: "file_text (snd y') (Filename (fst x)) = file_text (snd y) (Filename (fst x)) @ concat ys"
    "mset ys + due (log_level (fst x)) t \<subseteq># due (log_level (fst x)) (ts ! i)"
    using log_step_writes [OF step assms(2) ok] by blast
  have "?due ts = ?due (take i ts) + due (log_level (fst x)) (ts ! i) + ?due (drop (Suc i) ts)"
    using lstepI(4) by (subst id_take_nth_drop [of i ts]) simp_all
  moreover have "?due ts' = ?due (take i ts) + due (log_level (fst x)) t + ?due (drop (Suc i) ts)"
    using lstepI(2,4) by (simp add: upd_conv_take_nth_drop)
  ultimately have "mset ys + ?due ts' \<subseteq># ?due ts"
    using ys(2) by (simp add: ac_simps)
  moreover have "\<forall>t \<in> set ts'. opened_in (Filename (fst x)) {..<next_fd (snd x)} t"
    using kept assms(4) lstepI(2) set_update_subset_insert [of ts i t] by auto
  ultimately show ?thesis using kept ys(1) by blast
qed

text \<open>A given order of the steps, with the system opening the file each time.\<close>

fun run_schedule :: "nat list \<Rightarrow> log_thread list \<times> DebugLogger \<times> os_state \<Rightarrow> log_thread list \<times> DebugLogger \<times> os_state" where
  "run_schedule [] x = x"
| "run_schedule (i # is) (ts, y) = (case log_step None (ts ! i, y) of (t, y') \<Rightarrow> run_schedule is (ts[i := t], y'))"

lemma run_schedule_lstep: "\<forall>i \<in> set is. i < length (fst x) \<Longrightarrow> lstep\<^sup>*\<^sup>* x (run_schedule is x)"
proof (induction "is" x rule: run_schedule.induct)
  case (2 i "is" ts y)
  obtain t y' where step: "log_step None (ts ! i, y) = (t, y')" by (cases "log_step None (ts ! i, y)")
  then have "lstep (ts, y) (ts[i := t], y')" using 2(2) by (cases y; cases y') (auto intro: lstepI)
  moreover have "lstep\<^sup>*\<^sup>* (ts[i := t], y') (run_schedule is (ts[i := t], y'))" using 2 step by simp
  ultimately show ?case using step by (simp add: converse_rtranclp_into_rtranclp)
qed simp

text \<open>
  C31. Concurrent calls never garble the log. However any number of calls on one logger
  are interleaved, the file only grows, by whole lines, each of them the line of a
  different call that is enabled; no other file changes, and no descriptor that was open
  before is closed. What can go wrong is that a line is missing and a descriptor stays
  open, since a call closes the file of the last call that opened one.
\<close>

theorem concurrent_log_lines:
  assumes "lstep\<^sup>*\<^sup>* (map (\<lambda>(level, prefix, prolog, rest). LogBegin level prefix prolog rest) calls,
        NewDebugLogger lv name, s0) (ts, l, s)" and "os_wf s0"
  shows "(\<exists>xs. file_text s name = file_text s0 name @ concat xs
      \<and> mset xs \<subseteq># (\<Sum>(level, prefix, prolog, rest) \<leftarrow> calls. call_line lv level prefix prolog rest))
    \<and> (\<forall>other. other \<noteq> name \<longrightarrow> disk s other = disk s0 other) \<and> open_fds s0 \<subseteq> open_fds s"
proof -
  let ?x = "(NewDebugLogger lv name, s0)" and ?due = "\<lambda>ts. sum_list (map (due lv) ts)"
  let ?ts0 = "map (\<lambda>(level, prefix, prolog, rest). LogBegin level prefix prolog rest) calls"
  have [simp]: "Filename (NewDebugLogger lv name) = name" "log_level (NewDebugLogger lv name) = lv"
    by (simp_all add: NewDebugLogger_def)
  have "log_kept ?x (snd z) \<and> (\<forall>t \<in> set (fst z). opened_in name {..<next_fd s0} t)
      \<and> (\<exists>xs. file_text (snd (snd z)) name = file_text s0 name @ concat xs \<and> mset xs + ?due (fst z) \<subseteq># ?due ?ts0)"
    if "lstep\<^sup>*\<^sup>* (?ts0, ?x) z" for z
    using that
  proof induction
    case base
    have "log_kept ?x ?x" by (simp add: log_kept_def NewDebugLogger_def)
    then show ?case by (auto intro: exI [of _ "[]"])
  next
    case (step z z')
    obtain ts1 y where z: "z = (ts1, y)" by (cases z)
    obtain ts2 y' where z': "z' = (ts2, y')" by (cases z')
    from step.IH z obtain xs where IH: "log_kept ?x y" "\<forall>t \<in> set ts1. opened_in name {..<next_fd s0} t"
      "file_text (snd y) name = file_text s0 name @ concat xs" "mset xs + ?due ts1 \<subseteq># ?due ?ts0" by auto
    with lstep_log [of ts1 y ts2 y' ?x] step.hyps(2) z z' assms(2) obtain ys where
      new: "log_kept ?x y'" "\<forall>t \<in> set ts2. opened_in name {..<next_fd s0} t"
        "file_text (snd y') name = file_text (snd y) name @ concat ys" "mset ys + ?due ts2 \<subseteq># ?due ts1" by auto
    have "mset (xs @ ys) + ?due ts2 \<subseteq># ?due ?ts0"
      using subset_mset.order_trans [OF subset_mset.add_left_mono [OF new(4)] IH(4)] by (simp add: add.assoc)
    with new IH(3) z' show ?case by (intro conjI exI [of _ "xs @ ys"]) simp_all
  qed
  note inv = this [OF assms(1)]
  then obtain xs where xs: "file_text s name = file_text s0 name @ concat xs" "mset xs + ?due ts \<subseteq># ?due ?ts0" by auto
  have "?due ?ts0 = (\<Sum>(level, prefix, prolog, rest) \<leftarrow> calls. call_line lv level prefix prolog rest)"
    by (induction calls) auto
  moreover have "mset xs \<subseteq># ?due ?ts0" using xs(2) by (metis subset_mset.order_trans mset_subset_eq_add_left)
  ultimately show ?thesis using xs(1) inv by (auto simp: log_kept_def)
qed

text \<open>
  Two calls at the same time: the second opens the file after the first, the first closes
  the second's file, and so the second line is lost, its call fails, and the descriptor of
  the first stays open.
\<close>

theorem concurrent_log_lines_witness:
  "\<exists>l s. lstep\<^sup>*\<^sup>* ([LogBegin 1 ''I:'' ''a'' [], LogBegin 1 ''I:'' ''b'' []], NewDebugLogger LevelDebug ''f'', demo_os)
       ([LogReturned (Inr ()), LogReturned (Inl (Err ''close f: file already closed''))], l, s)
     \<and> file_text s ''f'' = ''I: a\<newline>'' \<and> 3 \<in> open_fds s \<and> 3 \<notin> open_fds demo_os \<and> open_fds demo_os \<subseteq> open_fds s"
proof -
  let ?calls = "[(1, ''I:'', ''a'', []), (1, ''I:'', ''b'', [])]"
  let ?x = "(map (\<lambda>(level, prefix, prolog, rest). LogBegin level prefix prolog rest) ?calls, NewDebugLogger LevelDebug ''f'', demo_os)"
  obtain ts l s where run: "run_schedule [0, 1, 0, 0, 1, 1] ?x = (ts, l, s)" by (metis surj_pair)
  have "ts = [LogReturned (Inr ()), LogReturned (Inl (Err ''close f: file already closed''))]
    \<and> file_text s ''f'' = ''I: a\<newline>'' \<and> open_fds s = {0, 1, 2, 3}"
    using run [symmetric]
    by (auto simp: Start_def OpenFile_def Stop_def file_Close_def NewDebugLogger_def LevelDebug_def demo_os_def
      fmt_Printf_def logger_Printf_def file_text_def end_line_def)
  moreover have reach: "lstep\<^sup>*\<^sup>* ?x (ts, l, s)"
    using run_schedule_lstep [of "[0, 1, 0, 0, 1, 1]" ?x] run by simp
  moreover have "os_wf demo_os" by (simp add: os_wf_def demo_os_def)
  ultimately show ?thesis using concurrent_log_lines [OF reach] by (auto simp: demo_os_def)
qed

end
