(* ===== verification/Scheduler_Command.thy ===== *)
theory Scheduler_Command
  imports Fluence_Plugin
begin

text \<open>
  How the scheduler gets its plugin: \<open>cmd/scheduler/main.go\<close> registers the plugins by name,
  \<open>New\<close> of \<open>fluence.go\<close> builds Fluence and hands two methods of the pod group manager to the
  informer of the pods. The command line of the scheduler, its registry and the factories
  of the other plugins belong to other packages: they are arguments.
\<close>

section \<open>The events of the pods\<close>

text \<open>
  What the informer hands to a handler has a dynamic type: a pod, or, when the watch missed
  the deletion, a tombstone with the key and the last known state.
\<close>

datatype informer_object = PodObject Pod | DeletedFinalStateUnknown string Pod

datatype pod_event = Added informer_object | Updated informer_object informer_object | Deleted informer_object

fun as_pod :: "informer_object \<Rightarrow> Pod result" where
  "as_pod (PodObject pod) = Inr pod"
| "as_pod (DeletedFinalStateUnknown key pod) = Inl (Panic BadTypeAssertion)"

definition UpdateFunc ::
    "('c, 'w) env \<Rightarrow> informer_object \<Rightarrow> informer_object \<Rightarrow> ('c, 'w) world \<Rightarrow> ('c, 'w) world result" where
  "UpdateFunc E oldObj newObj st =
     bind_result (as_pod oldObj) (\<lambda>oldPod. bind_result (as_pod newObj) (\<lambda>newPod. Inr (UpdatePod E oldPod newPod st)))"

definition DeleteFunc :: "('c, 'w) env \<Rightarrow> informer_object \<Rightarrow> ('c, 'w) world \<Rightarrow> ('c, 'w) world result" where
  "DeleteFunc E podObj st = bind_result (as_pod podObj) (\<lambda>pod. Inr (DeletePod E pod st))"

text \<open>The handlers that \<open>New\<close> registers; there is none for additions.\<close>

fun on_event :: "('c, 'w) env \<Rightarrow> pod_event \<Rightarrow> ('c, 'w) world \<Rightarrow> ('c, 'w) world result" where
  "on_event E (Added obj) st = Inr st"
| "on_event E (Updated oldObj newObj) st = UpdateFunc E oldObj newObj st"
| "on_event E (Deleted obj) st = DeleteFunc E obj st"

text \<open>The informer delivers one event after the other; the cluster may change in between.\<close>

fun run_events :: "(('c, 'w) env \<times> pod_event) list \<Rightarrow> ('c, 'w) world \<Rightarrow> ('c, 'w) world result" where
  "run_events [] st = Inr st"
| "run_events ((E, ev) # evs) st = bind_result (on_event E ev st) (run_events evs)"

section \<open>The command\<close>

text \<open>The other plugins, each with its name and its factory.\<close>

record 'f other_plugins =
  capacityscheduling :: "string \<times> 'f"
  coscheduling :: "string \<times> 'f"
  loadvariationriskbalancing :: "string \<times> 'f"
  networkoverhead :: "string \<times> 'f"
  topologicalsort :: "string \<times> 'f"
  noderesourcetopology :: "string \<times> 'f"
  preemptiontoleration :: "string \<times> 'f"
  targetloadpacking :: "string \<times> 'f"
  podstate :: "string \<times> 'f"
  qos :: "string \<times> 'f"

record ('f, 'o, 'c) scheduler_app =
  WithPlugin :: "string \<Rightarrow> 'f \<Rightarrow> 'o"
  NewSchedulerCommand :: "'o list \<Rightarrow> 'c"
  cli_Run :: "'c \<Rightarrow> int"

definition plugin_table :: "'f other_plugins \<Rightarrow> 'f \<Rightarrow> (string \<times> 'f) list" where
  "plugin_table ps fluence_New = [capacityscheduling ps, coscheduling ps, loadvariationriskbalancing ps,
     networkoverhead ps, topologicalsort ps, noderesourcetopology ps, preemptiontoleration ps,
     targetloadpacking ps, podstate ps, qos ps, (Name, fluence_New)]"

definition scheduler_command :: "('f, 'o, 'c) scheduler_app \<Rightarrow> 'f other_plugins \<Rightarrow> 'f \<Rightarrow> 'c" where
  "scheduler_command A ps fluence_New =
     NewSchedulerCommand A (map (\<lambda>(name, factory). WithPlugin A name factory) (plugin_table ps fluence_New))"

text \<open>\<open>main\<close>: the exit code of the process.\<close>

definition scheduler_main :: "('f, 'o, 'c) scheduler_app \<Rightarrow> 'f other_plugins \<Rightarrow> 'f \<Rightarrow> int" where
  "scheduler_main A ps fluence_New = cli_Run A (scheduler_command A ps fluence_New)"

section \<open>Events are harmless, tombstones are not\<close>

text \<open>An informer hands a tombstone to a handler only for a deletion.\<close>

fun delivered :: "pod_event \<Rightarrow> bool" where
  "delivered (Added (PodObject p)) = True"
| "delivered (Updated (PodObject p) (PodObject q)) = True"
| "delivered (Deleted obj) = True"
| "delivered _ = False"

fun missed :: "pod_event \<Rightarrow> bool" where
  "missed (Deleted (DeletedFinalStateUnknown key pod)) = True"
| "missed _ = False"

lemma on_event_missed: "missed ev \<Longrightarrow> on_event E ev st = Inl (Panic BadTypeAssertion)"
  by (cases ev rule: missed.cases) (simp_all add: DeleteFunc_def)

lemma on_event_seen:
  assumes "delivered ev" and "\<not> missed ev"
  obtains st' where "on_event E ev st = Inr st'"
    and "st' = st \<or> (\<exists>p q. st' = UpdatePod E p q st) \<or> (\<exists>p. st' = DeletePod E p st)"
proof (cases ev rule: delivered.cases)
  case (3 obj)
  with assms(2) that show thesis by (cases obj) (auto simp: DeleteFunc_def)
qed (use assms(1) that in \<open>auto simp: UpdateFunc_def\<close>)

lemma event_step:
  assumes "reachable live P st" and "P E" and "st' = st \<or> (\<exists>p q. st' = UpdatePod E p q st) \<or> (\<exists>p. st' = DeletePod E p st)"
  shows "reachable live P st'" and "dom (groupToJobId (mgr st')) \<subseteq> dom (groupToJobId (mgr st))"
proof -
  show "reachable live P st'" using assms by (auto intro: reachable.step mstep.update mstep.delete)
  show "dom (groupToJobId (mgr st')) \<subseteq> dom (groupToJobId (mgr st))" using assms(3) events_dom by (metis order_refl)
qed

text \<open>
  C32. The pod events are handled as long as the informer saw every deletion: a run of
  events ends in a reachable state of the manager and never adds a job to its table. A
  single tombstone, whatever was handled before it, ends in a panic of the unchecked type
  assertion of \<open>DeletePod\<close>.
\<close>

theorem pod_events_panic_iff_tombstone:
  assumes "reachable live P st" and "\<forall>(E, ev) \<in> set evs. P E \<and> delivered ev"
  shows "if \<exists>(E, ev) \<in> set evs. missed ev
    then run_events evs st = Inl (Panic BadTypeAssertion)
    else \<exists>st'. run_events evs st = Inr st' \<and> reachable live P st'
      \<and> dom (groupToJobId (mgr st')) \<subseteq> dom (groupToJobId (mgr st))"
  using assms
proof (induction evs arbitrary: st)
  case (Cons x evs)
  obtain E ev where x: "x = (E, ev)" by (cases x)
  show ?case
  proof (cases "missed ev")
    case False
    from Cons.prems(2) x have "P E" "delivered ev" by auto
    from on_event_seen [OF this(2) False, of E st] obtain st1 where "on_event E ev st = Inr st1"
      and "st1 = st \<or> (\<exists>p q. st1 = UpdatePod E p q st) \<or> (\<exists>p. st1 = DeletePod E p st)" by metis
    with event_step [OF Cons.prems(1) \<open>P E\<close> this(2)] Cons.IH [of st1] Cons.prems(2) False show ?thesis
      by (auto simp: x split: if_splits)
  qed (simp add: x on_event_missed)
qed simp

theorem pod_events_panic_iff_tombstone_witness:
  "(\<exists>st'. run_events [(demo_env, Added (PodObject (hd demo_pods))), (demo_env, Deleted (PodObject (hd demo_pods)))] demo_admitted = Inr st'
      \<and> dom (groupToJobId (mgr st')) \<subseteq> {''ns/g''})
   \<and> run_events [(demo_env, Deleted (DeletedFinalStateUnknown ''ns/a'' (hd demo_pods)))] demo_admitted = Inl (Panic BadTypeAssertion)"
  using pod_events_panic_iff_tombstone [OF demo_reachable, of "[(demo_env, Added (PodObject (hd demo_pods))), (demo_env, Deleted (PodObject (hd demo_pods)))]"]
    pod_events_panic_iff_tombstone [OF demo_reachable, of "[(demo_env, Deleted (DeletedFinalStateUnknown ''ns/a'' (hd demo_pods)))]"]
  by (auto simp: demo_fluxion_laws)

section \<open>The registered plugin\<close>

text \<open>
  What the scheduler documents of its registry: a command made from plugins with different names
  finds each factory under its name; registering a name twice is an error.
\<close>

definition registry_laws :: "('f, 'o, 'c) scheduler_app \<Rightarrow> ('c \<Rightarrow> (string \<rightharpoonup> 'f) option) \<Rightarrow> bool" where
  "registry_laws A registry \<longleftrightarrow> (\<forall>table. registry (NewSchedulerCommand A (map (\<lambda>(n, f). WithPlugin A n f) table)) =
     (if distinct (map fst table) then Some (map_of table) else None))"


text \<open>
  The scheduler started by this command runs Fluence: when the other plugins have
  different names, none of them Fluence's, the registry finds the factory of Fluence under
  its name, beside the ten others; if another plugin had that name the command would have
  no registry at all. The plugin the factory builds has a timeout of five minutes for a waiting pod and no
  back-off, and its manager is in its initial state, from which everything proved of
  reachable states holds.
\<close>

theorem scheduler_runs_fluence:
  assumes "registry_laws A registry" and "distinct (map fst (butlast (plugin_table ps (New K E))))"
    and "P E" and "live w = {}"
  shows "if \<exists>x \<in> set (butlast (plugin_table ps (New K E))). fst x = ''Fluence''
    then registry (scheduler_command A ps (New K E)) = None
    else \<exists>r. registry (scheduler_command A ps (New K E)) = Some r
      \<and> card (dom r) = 11 \<and> r ''Fluence'' = Some (New K E)
      \<and> (\<exists>f m e. New K E (Inr ()) = Inr (f, m, e) \<and> f_scheduleTimeout f = Some (300 * Second)
           \<and> podGroupBackoff f = Some 0 \<and> reachable live P \<lparr>mgr = m, remote = w\<rparr>)"
proof -
  let ?t = "plugin_table ps (New K E)"
  have names: "distinct (map fst ?t) \<longleftrightarrow> \<not> (\<exists>x \<in> set (butlast ?t). fst x = ''Fluence'')"
    using assms(2) by (auto simp: plugin_table_def Name_def)
  have "registry (scheduler_command A ps (New K E)) = (if distinct (map fst ?t) then Some (map_of ?t) else None)"
    using assms(1) by (simp add: registry_laws_def scheduler_command_def)
  moreover have "card (dom (map_of ?t)) = 11" if "distinct (map fst ?t)"
    using that distinct_card [OF that] by (simp add: dom_map_of_conv_image_fst) (simp add: plugin_table_def)
  moreover have "map_of ?t ''Fluence'' = Some (New K E)" if "distinct (map fst ?t)"
    using that by (intro map_of_is_SomeI) (simp_all add: plugin_table_def Name_def)
  moreover have "\<exists>f m e. New K E (Inr ()) = Inr (f, m, e) \<and> f_scheduleTimeout f = Some (300 * Second)
      \<and> podGroupBackoff f = Some 0 \<and> reachable live P \<lparr>mgr = m, remote = w\<rparr>"
    using reachable.start [of P E live w "Some (300 * Second)"] assms(3,4)
    by (simp add: New_def Let_def permitWaitingTimeSeconds_def podGroupBackoffSeconds_def Second_def wrap64_def)
  ultimately show ?thesis using names by auto
qed

definition demo_app :: "('f, string \<times> 'f, (string \<times> 'f) list) scheduler_app" where
  "demo_app = \<lparr>WithPlugin = Pair, NewSchedulerCommand = (\<lambda>options. options), cli_Run = (\<lambda>_. 0)\<rparr>"

definition demo_registry :: "(string \<times> 'f) list \<Rightarrow> (string \<rightharpoonup> 'f) option" where
  "demo_registry table = (if distinct (map fst table) then Some (map_of table) else None)"

definition demo_others :: "'f \<Rightarrow> 'f other_plugins" where
  "demo_others f = \<lparr>capacityscheduling = (''a'', f), coscheduling = (''b'', f), loadvariationriskbalancing = (''c'', f),
     networkoverhead = (''d'', f), topologicalsort = (''e'', f), noderesourcetopology = (''f'', f),
     preemptiontoleration = (''g'', f), targetloadpacking = (''h'', f), podstate = (''i'', f), qos = (''j'', f)\<rparr>"

theorem scheduler_runs_fluence_witness:
  "\<exists>r. demo_registry (scheduler_command demo_app (demo_others (\<lambda>_. Inl (Err ''other''))) (New example_kube demo_env)) = Some r
     \<and> r ''Fluence'' = Some (New example_kube demo_env)"
proof -
  let ?ps = "demo_others (\<lambda>_. Inl (Err ''other'')) ::
    (unit result \<Rightarrow> (Fluence \<times> _ PodGroupManager \<times> unit result) result) other_plugins"
  have "registry_laws demo_app demo_registry" by (simp add: registry_laws_def demo_app_def demo_registry_def)
  moreover have "distinct (map fst (butlast (plugin_table ?ps (New example_kube demo_env))))"
    "\<not> (\<exists>x \<in> set (butlast (plugin_table ?ps (New example_kube demo_env))). fst x = ''Fluence'')"
    by (simp_all add: plugin_table_def demo_others_def)
  ultimately show ?thesis
    using scheduler_runs_fluence [of demo_app demo_registry ?ps example_kube demo_env "fluxion_laws demo_live" demo_live "([], 1)"]
      demo_fluxion_laws by (auto simp: demo_live_def)
qed

end
