(* ===== verification/System.thy ===== *)
theory System
  imports Graph_JSON Controller_Life Controller_Server Sidecar_Main Node_Table Gang_Spec Logger_Threads Scheduler_Command
begin

text \<open>
  The parts put together: the pod group manager of the scheduler plugin talks to the
  gRPC handlers of the sidecar (\<open>fluxion.go\<close>), so the laws the manager's theories assume
  of its peer are theorems about those handlers. What is left to assume is the
  documented behaviour of Fluxion itself, \<open>reapi_laws\<close>.
\<close>

section \<open>The manager wired to the sidecar\<close>

definition connect :: "'f reapi \<Rightarrow> ('c, 'f) env \<Rightarrow> ('c, 'f) env" where
  "connect R E = E\<lparr>grpc_Match := Match R, grpc_Cancel := Cancel R\<rparr>"

lemma connect_simps [simp]:
  "grpc_Match (connect R E) = Match R" "grpc_Cancel (connect R E) = Cancel R"
  "grpc_Dial (connect R E) = grpc_Dial E" "client_Get (connect R E) = client_Get E"
  "podLister_List (connect R E) = podLister_List E" "NodeInfos_List (connect R E) = NodeInfos_List E"
  "util_GetPodGroupLabel (connect R E) = util_GetPodGroupLabel E" "map_order (connect R E) = map_order E"
  "cache_New (connect R E) = cache_New E" "cache_Add (connect R E) = cache_Add E"
  "cache_Get (connect R E) = cache_Get E" "cache_Delete (connect R E) = cache_Delete E"
  by (simp_all add: connect_def)

text \<open>Opening a connection does not change the state of Fluxion, whether or not it succeeds.\<close>

definition dials :: "('c, 'f) env \<Rightarrow> bool" where
  "dials E \<longleftrightarrow> (\<forall>w. snd (grpc_Dial E w) = w)"

lemma Match_jobs:
  assumes "reapi_laws live R" and "ps_Cpu (mr_Ps req) \<noteq> 0"
  shows "case Match R req w of
      (Inl _, w') \<Rightarrow> live w' = live w
    | (Inr resp, w') \<Rightarrow> jobid_of_int64 (mres_JobID resp) \<notin> live w
        \<and> live w' = insert (jobid_of_int64 (mres_JobID resp)) (live w)"
proof (cases "CreateJobSpecYaml (yaml_Marshal R) (mr_Ps req) (mr_Count req)")
  case (Inl e)
  then show ?thesis by (simp add: Match_def)
next
  case (Inr spec)
  obtain allocated job err w' where run: "MatchAllocate R False spec w = ((allocated, job, err), w')"
    by (metis surj_pair)
  show ?thesis
  proof (cases "err = None \<and> allocated \<noteq> ''''")
    case True
    with run have run': "MatchAllocate R False spec w = ((allocated, job, None), w')" by simp
    from reapi_lawsD(1) [OF assms(1) this] True obtain vs where
      "job \<notin> live w" "live w' = insert job (live w)" "allocation_json allocated vs" by blast
    with Match_allocated [OF Inr run' _ this(3) assms(2)] True show ?thesis by simp
  next
    case False
    with reapi_lawsD(2) [OF assms(1) run] Inr run show ?thesis by (auto simp: Match_def)
  qed
qed

lemma Cancel_jobs:
  assumes "reapi_laws live R"
  shows "case Cancel R req w of
      (Inl _, w') \<Rightarrow> live w' = live w
    | (Inr resp, w') \<Rightarrow> cres_Error resp = 0 \<and> live w' = live w - {jobid_of_int64 (creq_JobID req)}"
  using reapi_lawsD(3) [OF assms, of "creq_JobID req" w]
  by (auto simp: Cancel_def split: option.splits prod.splits)

text \<open>The sidecar is a peer as the manager expects it.\<close>

lemma connect_laws: "reapi_laws live R \<Longrightarrow> dials E \<Longrightarrow> fluxion_laws live (connect R E)"
  unfolding fluxion_laws_def using Match_jobs [of live R] Cancel_jobs [of live R]
  by (fastforce simp: dials_def split: sum.splits prod.splits)

section \<open>Nothing leaks while cancellations succeed\<close>

definition reliable :: "('c, 'f) env \<Rightarrow> bool" where
  "reliable E \<longleftrightarrow> (\<forall>w. grpc_Dial E w = (Inr (), w))"

definition cancels_live_jobs :: "('f \<Rightarrow> jobid set) \<Rightarrow> 'f reapi \<Rightarrow> bool" where
  "cancels_live_jobs live R \<longleftrightarrow>
     (\<forall>j w. jobid_of_int64 j \<in> live w \<longrightarrow> fst (reapi_Cancel R j True w) = None)"

lemma reliable_dials: "reliable E \<Longrightarrow> dials E"
  by (simp add: reliable_def dials_def)

lemma Cancel_live:
  assumes "cancels_live_jobs live R" and "job \<in> live w"
  shows "\<exists>w'. Cancel R \<lparr>creq_JobID = int64_of_jobid job\<rparr> w = (Inr \<lparr>cres_JobID = int64_of_jobid job, cres_Error = 0\<rparr>, w')"
proof -
  obtain w' where "reapi_Cancel R (int64_of_jobid job) True w = (None, w')"
    using assms by (metis cancels_live_jobs_def jobid_of_int64_of_jobid prod.collapse)
  then show ?thesis by (simp add: Cancel_def)
qed

lemma cancel_connect:
  assumes "reapi_laws live R" and "cancels_live_jobs live R" and "reliable E"
    and "groupToJobId (mgr s) g = Some job" and "job \<in> live (remote s)"
  shows "\<exists>w'. cancelFluxJob (connect R E) g pod s = (Inr (), s\<lparr>mgr := cleanup (connect R E) pod g (mgr s), remote := w'\<rparr>)
    \<and> live w' = live (remote s) - {job}"
proof -
  obtain w' where run: "Cancel R \<lparr>creq_JobID = int64_of_jobid job\<rparr> (remote s) = (Inr \<lparr>cres_JobID = int64_of_jobid job, cres_Error = 0\<rparr>, w')"
    using Cancel_live [OF assms(2,5)] by blast
  then have "live w' = live (remote s) - {job}"
    using Cancel_jobs [OF assms(1), where req = "\<lparr>creq_JobID = int64_of_jobid job\<rparr>" and w = "remote s"] by simp
  with run assms(3,4) show ?thesis by (intro exI [of _ w']) (simp add: cancelFluxJob_def reliable_def)
qed

lemma released_connect:
  assumes "cancels_live_jobs live R" and "reliable E" and "jobs_ok live s"
  shows "groupToJobId (mgr (released (connect R E) g pod s)) g = None"
proof (cases "groupToJobId (mgr s) g")
  case None
  then show ?thesis by (simp add: released_def cancelFluxJob_def)
next
  case (Some job)
  then have "job \<in> live (remote s)" using assms(3) by (auto simp: jobs_ok_def ran_def)
  from Cancel_live [OF assms(1) this] obtain w' where
    "Cancel R \<lparr>creq_JobID = int64_of_jobid job\<rparr> (remote s) = (Inr \<lparr>cres_JobID = int64_of_jobid job, cres_Error = 0\<rparr>, w')" by blast
  with Some assms(2) show ?thesis
    by (simp add: released_def cancelFluxJob_def reliable_def cleanup_def Let_def split: sum.splits)
qed

text \<open>What \<open>PreFilter\<close> does with an answer of the wrong length: the job is gone, the nodes are used.\<close>

lemma admit_group_wrong_count:
  assumes "length nodes \<noteq> length pods" and "distinct (map pod_Name pods)" and "scheduleTimeout (mgr st) = Some timeout"
    and "admit_group E g pods rep nodes state st = (r, state', st')"
  shows "remote st' = remote (snd (cancelFluxJob E g rep st)) \<and> groupToJobId (mgr st') = groupToJobId (mgr (snd (cancelFluxJob E g rep st)))
    \<and> (if length pods < length nodes then r = Inl (Panic IndexOutOfRange)
       else r = Inr () \<and> permittedpodGroup (mgr st') = cache_Add E (permittedpodGroup (mgr st)) g timeout
         \<and> (\<forall>i < length nodes. GetPodNode (mgr st') (pods ! i) = nodes ! i
              \<and> Filter state' (pods ! i) (nodes ! i) = Inr (CodeSuccess, '''')))"
proof (cases "length pods < length nodes")
  case True
  let ?st1 = "snd (cancelFluxJob E g rep st)"
  obtain m' s' where run: "assign_nodes pods nodes (mgr ?st1, state) = (Inl (Panic IndexOutOfRange), m', s')"
    using assign_nodes_overflow [OF True, of "(mgr ?st1, state)"] by (cases "assign_nodes pods nodes (mgr ?st1, state)") auto
  with assms(1,4) have "r = Inl (Panic IndexOutOfRange)" "mgr st' = m'" "remote st' = remote ?st1"
    by (auto simp: admit_group_def)
  with assign_nodes_frame [OF run] True show ?thesis by simp
next
  case False
  let ?st1 = "snd (cancelFluxJob E g rep st)" and ?names = "map pod_Name pods"
  let ?nodes = "map (\<lambda>n. FluxState \<lparr>NodeName = n\<rparr>) nodes"
  from False have "assign_nodes pods nodes (mgr ?st1, state) =
      (Inr (), (mgr ?st1)\<lparr>podToNode := (podToNode (mgr ?st1))(?names [\<mapsto>] nodes)\<rparr>, state(?names [\<mapsto>] ?nodes))"
    by (intro assign_nodes_fits) simp
  with assms(1,3,4) have out: "r = Inr ()" "remote st' = remote ?st1" "state' = state(?names [\<mapsto>] ?nodes)"
    "mgr st' = (mgr ?st1)\<lparr>podToNode := (podToNode (mgr ?st1))(?names [\<mapsto>] nodes),
      permittedpodGroup := cache_Add E (permittedpodGroup (mgr st)) g timeout\<rparr>"
    by (auto simp: admit_group_def Let_def deref_def)
  have "GetPodNode (mgr st') (pods ! i) = nodes ! i \<and> Filter state' (pods ! i) (nodes ! i) = Inr (CodeSuccess, '''')"
    if "i < length nodes" for i
    using map_upds_nth [OF assms(2), of i nodes] map_upds_nth [OF assms(2), of i ?nodes] that False
    by (simp add: out GetPodNode_def Filter_def)
  with out False show ?thesis by simp
qed

section \<open>A group placed by Fluxion\<close>

lemma AskFlux_connect:
  assumes "reapi_laws live R" and "reliable E" and "groupToJobId (mgr st) g = None"
    and "yaml_Marshal R (make_JobSpec (PreparePodJobSpec (map_order E (pod_Labels rep)) rep g) (MinMember (Spec pg))) = Inr spec"
    and "MatchAllocate R False spec (remote st) = ((allocated, job, None), w')" and "allocated \<noteq> ''''"
    and "allocation_json allocated vs"
  shows "AskFlux (connect R E) rep pg g st = (Inr (map snd (filter (\<lambda>v. fst v = NodeType) vs)),
      st\<lparr>mgr := (mgr st)\<lparr>groupToJobId := (groupToJobId (mgr st))(g \<mapsto> job)\<rparr>, remote := w'\<rparr>)"
proof -
  let ?req = "match_request (connect R E) rep pg g"
  have yaml: "CreateJobSpecYaml (yaml_Marshal R) (mr_Ps ?req) (mr_Count ?req) = Inr spec"
    using assms(4) by (simp add: CreateJobSpecYaml_def match_request_def)
  have "ps_Cpu (mr_Ps ?req) \<noteq> 0" by (simp add: match_request_def PreparePodJobSpec_Cpu_nonzero)
  from Match_allocated [OF yaml assms(5-7) this] show ?thesis
    using assms(2,3) by (simp add: AskFlux_def reliable_def o_def alloc_spec_names)
qed

text \<open>A group of one pod, in front of the demo Fluxion, which hands out the node \<open>w\<close>.\<close>

definition solo_group :: PodGroup where
  "solo_group = demo_group\<lparr>Spec := (Spec demo_group)\<lparr>MinMember := 1\<rparr>\<rparr>"

definition solo_env :: "(string list, jobid list \<times> jobid) env" where
  "solo_env = demo_env\<lparr>client_Get := \<lambda>_ _. Inr solo_group, podLister_List := \<lambda>_ _. Inr [hd demo_pods]\<rparr>"

lemma solo_reliable: "reliable solo_env"
  by (simp add: reliable_def solo_env_def demo_env_def)

lemma solo_asks:
  "asks_fluxion (connect demo_reapi solo_env) (hd demo_pods) demo_start = Some (''ns/g'', solo_group, [hd demo_pods])"
  by (simp add: asks_fluxion_def GetPodGroup_def solo_env_def solo_group_def)

lemma demo_cancels: "cancels_live_jobs (set \<circ> fst) demo_reapi"
  by (auto simp: cancels_live_jobs_def demo_reapi_def)

lemma solo_allocates:
  "yaml_Marshal demo_reapi js = Inr ''spec''"
  "MatchAllocate demo_reapi False ''spec'' (remote demo_start) = ((encodedJGF small_graph, 1, None), [1], 2)"
  by (simp_all add: demo_reapi_def demo_start_def)

lemma solo_start: "\<lparr>mgr = NewPodGroupManager (connect demo_reapi solo_env) (Some (300 * Second)), remote = ([], 1)\<rparr> = demo_start"
  by (simp add: demo_start_def NewPodGroupManager_def solo_env_def)

lemma solo_recorded:
  assumes "Manager_PreFilter (connect demo_reapi solo_env) (hd demo_pods) Map.empty demo_start = (r, state', st')"
  shows "groupToJobId (mgr st') = [''ns/g'' \<mapsto> 1]"
proof -
  have ask: "AskFlux (connect demo_reapi solo_env) (hd [hd demo_pods]) solo_group ''ns/g'' demo_start =
      (Inr [''w''], demo_start\<lparr>mgr := (mgr demo_start)\<lparr>groupToJobId := [''ns/g'' \<mapsto> 1]\<rparr>, remote := ([1], 2)\<rparr>)"
    using AskFlux_connect [OF demo_reapi_laws solo_reliable _ solo_allocates small_graph_allocation(2,1), of "''ns/g''"]
    by simp
  show ?thesis
    using PreFilter_asking_hd [OF solo_asks _ ask, of Map.empty] assms
    by (simp add: admit_group_exact [where timeout = "300 * Second"])
qed

text \<open>A gang of two pods, in front of a Fluxion that hands out the nodes \<open>w\<close> and \<open>v\<close>.\<close>

definition pair_graph :: FluxJGF where
  "pair_graph = snd (MakeNode (snd (MakeCore small_graph CoreType ''s0/n1'' 0)) ''v'' ''s0'' 1)"

definition pair_reapi :: "(jobid list \<times> jobid) reapi" where
  "pair_reapi = demo_reapi\<lparr>MatchAllocate := \<lambda>_ _ (live, next).
     if next \<in> set live then (('''', 0, Some (Err ''no more job ids'')), live, next)
     else ((encodedJGF pair_graph, next, None), next # live, next + 1)\<rparr>"

lemma pair_graph_allocation:
  "allocation_json (encodedJGF pair_graph) [(CoreType, CoreType), (NodeType, ''w''), (CoreType, CoreType), (NodeType, ''v'')]"
  "encodedJGF pair_graph \<noteq> ''''"
proof -
  have v: "vertices pair_graph = [(CoreType, CoreType), (NodeType, ''w''), (CoreType, CoreType), (NodeType, ''v'')]"
    by (simp add: vertices_def pair_graph_def small_graph_def NewFluxJGF_def MakeNode_def MakeCore_def make_defs)
  then have "Nodes (Graph pair_graph) \<noteq> []" by (auto simp: vertices_def)
  from allocation_json_encoded [OF this] v
  show "allocation_json (encodedJGF pair_graph) [(CoreType, CoreType), (NodeType, ''w''), (CoreType, CoreType), (NodeType, ''v'')]"
    by simp
  show "encodedJGF pair_graph \<noteq> ''''" by (simp add: encodedJGF_def FluxJGF_json_def)
qed

lemma pair_reapi_laws: "reapi_laws (set \<circ> fst) pair_reapi"
  using pair_graph_allocation by (auto simp: reapi_laws_def demo_reapi_def pair_reapi_def)

lemma pair_cancels: "cancels_live_jobs (set \<circ> fst) pair_reapi"
  using demo_cancels by (simp add: cancels_live_jobs_def pair_reapi_def)

end
