(* ===== verification/Spec2Isabelle.thy ===== *)
theory Spec2Isabelle
  imports System
begin

text \<open>
  A verification development of Fluence, the Kubernetes scheduler plugin of the
  flux-framework (\<open>flux-k8s\<close>), with the controller and webhook that group pods and the
  sidecar that talks to the Fluxion graph scheduler.

  \<^bold>\<open>The program.\<close> A mutating webhook labels pods, and the pod templates of jobs and other
  workloads, with the name and the size of a group. A controller watches pods, creates
  a PodGroup of that size for the first pending pod of a group and drives its phase from the
  pods' phases. The scheduler plugin schedules a group as a whole: \<open>PreFilter\<close> asks the
  sidecar over gRPC for an allocation of the group and assigns its nodes to the pods,
  \<open>Filter\<close> keeps a pod to its node, \<open>Permit\<close> holds the pods back until the group is
  complete, \<open>PostFilter\<close> and \<open>Unreserve\<close> reject the group as a whole, and pod events free
  the allocation. The sidecar builds a JSON graph of the cluster for Fluxion at its start,
  turns a request into a jobspec, and the allocation that comes back into a list of nodes.

  \<^bold>\<open>The theories, in the order of their imports.\<close>
  \<^item> \<open>Fluence_Prelude\<close>: results with errors and panics (\<open>go_error\<close>, \<open>result\<close>), machine
    integers as \<open>int\<close> with explicit wrap-around (\<open>wrap32\<close>, \<open>wrap64\<close>), the formatting and
    parsing functions of Go's library that the code uses, and the shared lemmas. The locale
    \<open>simulation\<close> is the contract of a step relation that refines an abstract one, interpreted on
    the framework with the plugin (\<open>Gang_Spec\<close>) and on the controller (\<open>Controller_Life\<close>).
  \<^item> \<open>K8s_Types\<close>: labels, resource lists, pods and the PodGroup resource
    (\<open>apis/scheduling/v1alpha1/types.go\<close>).
  \<^item> \<open>Group_Labels\<close>: \<open>pkg/fluence/labels/labels.go\<close> and \<open>pkg/fluence/group/group.go\<close>.
  \<^item> \<open>Webhook\<close>: \<open>apis/scheduling/v1alpha1/podgroup_webhook.go\<close>. The locale \<open>group_ensurer\<close>
    is the contract the four workload handlers share, interpreted on each of them. Shown:
    idempotence, agreement of \<open>Handle\<close> and \<open>Default\<close>, the panics, the labels of the pods.
  \<^item> \<open>Controller\<close>: \<open>pkg/controllers/podgroup_controller.go\<close>. Shown: the phase decision, that
    \<open>Reconcile\<close> refines an abstract step of the group, convergence of a created group whose
    pods succeed, and which pod events create a group. The server is one that keeps what a client
    writes (\<open>api_laws\<close>), or, where a lemma says so, a part of the status (\<open>kept_laws\<close>).
  \<^item> \<open>Controller_Loop\<close>: the work queue around \<open>Reconcile\<close> (\<open>requeue_loop\<close>) and the states the
    stored groups reach through reconciliations and pod events (\<open>creachable\<close>). Shown:
    exactly when the loop ends, and that stored groups are well formed at all times.
  \<^item> \<open>Controller_Life\<close>: the phases of a stored group from its creation to its deletion (\<open>phase_step\<close>).
    Shown: the controller refines them, and no group ever gets a schedule start time; and that on a server
    with the definition of the resource that the repository ships (\<open>crd_status\<close>: the schema has no
    creation time), no group gets beyond its first reconciliation.
  \<^item> \<open>Controller_Server\<close>: \<open>cmd/controller/app/server.go\<close>, \<open>SetupWithManager\<close> and
    \<open>NewMutatingWebhook\<close>. Shown: what the manager has been given when it is started.
  \<^item> \<open>Flux_Messages\<close>, \<open>Podspec\<close>, \<open>Jobspec\<close>: the gRPC messages (\<open>fluxcli-grpc\<close>),
    \<open>pkg/fluence/podspec/podspec.go\<close>, and \<open>src/fluence/jobspec\<close>. Shown: exact sums within the
    integer widths, the demand of a jobspec, independence of the order of Go's maps.
  \<^item> \<open>JSON\<close>: a decoder and encoder of JSON as Go's \<open>encoding/json\<close> has them, with the proof
    that decoding undoes encoding.
  \<^item> \<open>JGF\<close>, \<open>Cluster_Graph\<close>: \<open>src/fluence/jgf\<close> and \<open>utils.go\<close> up to \<open>computeTotalRequests\<close>. The
    locales \<open>vertex_maker\<close> and \<open>child_maker\<close> are the contract of the operations that add
    a vertex. Shown: the graph invariant, the exact vertices of the cluster graph, and
    when building it fails. The file that is written is part of the state (\<open>files\<close>).
  \<^item> \<open>Resource_JSON\<close>: the JSON forms that the struct tags of \<open>types.go\<close> give to \<open>PodGroup\<close>,
    \<open>ElasticQuota\<close> and their lists. The locale \<open>json_codec\<close> is the contract of writing and reading a
    type, interpreted on every type from integers to groups. Shown: the lists read back, and what is
    left of a group when a server drops the members that the shipped schema does not name (\<open>prune\<close>).
  \<^item> \<open>Graph_JSON\<close>: a reader of the file for Fluxion that goes by the struct tags of \<open>jgf/types.go\<close>,
    \<open>json_codec\<close> interpreted on metadata, vertices and edges. The reader stands for Fluxion, which is not in the
    repository. Shown: it gets the graph back, of any cluster.
  \<^item> \<open>Allocation\<close>: \<open>ParseAllocResult\<close> of \<open>utils.go\<close>, equal to a reference definition.
  \<^item> \<open>Fluxion_Service\<close>: \<open>fluxion.go\<close>, \<open>service.go\<close>, \<open>defaults.go\<close> and the port of \<open>main.go\<close>.
    \<open>InitFluxion\<close> reads the file system that \<open>CreateInClusterJGF\<close> has written. Shown: a match is answered
    with Fluxion's allocation and never divides by zero.
  \<^item> \<open>Sidecar_Main\<close>: the rest of \<open>cmd/main.go\<close>, with the command line and the address. Shown:
    when the sidecar serves and when it crashes.
  \<^item> \<open>PodGroup_Manager\<close>, \<open>Manager_Jobs\<close>, \<open>Manager_Gang\<close>: \<open>pkg/fluence/core/core.go\<close> and
    \<open>flux.go\<close>. The state is the record \<open>PodGroupManager\<close> (job and node tables, two caches)
    beside the state of the sidecar. Shown: the placement of a group, the invariant of
    the job table over all reachable states of the step relation \<open>mstep\<close>, when a job leaks,
    which events free it, and when \<open>Permit\<close> lets a group go.
  \<^item> \<open>Manager_Threads\<close>: \<open>PreFilter\<close> and \<open>AskFlux\<close> again, as the steps of a thread between the
    points where it takes and releases the mutex (\<open>sched_step\<close>), interleaved with the
    pod events of the informer (\<open>istep\<close>, \<open>ireachable\<close>). Shown: undisturbed, the thread computes
    \<open>Manager_PreFilter\<close>; the job table is right at every moment of every interleaving.
  \<^item> \<open>Node_Table\<close>: the table of pods to nodes under the same interleavings. Shown: it agrees with the
    cycle state that \<open>Filter\<close> reads, and no pod event ever writes it.
  \<^item> \<open>Fluence_Plugin\<close>: \<open>pkg/fluence/fluence.go\<close> and \<open>register.go\<close>. The locale \<open>queue_sort\<close> is
    the contract of the queue order, \<open>bookkeeping\<close> that of the cache operations. Shown:
    the order is a strict total order that keeps a group with a start time together, and the
    answers of the extension points.
  \<^item> \<open>Gang_Run\<close>: the plugin over time in the scheduling framework, whose steps are the relation
    \<open>fw_step\<close> (scheduling cycles, waiting pods, rejections, pods that end). Shown: a group
    starts as a whole or not at all, in every reachable state. \<open>schedule_pod\<close> and \<open>schedule_all\<close> are the
    scheduling cycles as a function, whose runs are runs of the relation; from any reachable state
    they start a group that is placed while other groups go on (\<open>gang_starts\<close>).
  \<^item> \<open>Gang_Spec\<close>: gang scheduling as an abstract machine (\<open>gang_step\<close>). Shown: seen from any
    group, the plugin in the framework refines it.
  \<^item> \<open>Scheduler_Command\<close>: \<open>cmd/scheduler/main.go\<close> and the pod event handlers that \<open>New\<close> registers. Shown:
    the command runs Fluence under its name; pod events are handled but for tombstones.
  \<^item> \<open>Logger\<close>: \<open>pkg/logger/logger.go\<close> over files and descriptors, with the formatting it
    uses. The locale \<open>append_log\<close> is the contract of an append-only log, interpreted on the
    log file and on the standard output. Shown: what a sequence of calls writes.
  \<^item> \<open>Logger_Threads\<close>: calls of the logger by several threads, which share its handle without
    a lock (\<open>log_step\<close>, \<open>lstep\<close>). Shown: no line is garbled or invented, but one can be lost.
  \<^item> \<open>System\<close> and this theory: the manager wired to the handlers of the sidecar, and the
    properties that span components: a gang that runs where Fluxion decides and gives everything back, what
    an allocation of the wrong size does, jobs over time, and what the queue makes of the controller's groups.

  \<^bold>\<open>Modelling.\<close> A Go function is a HOL function; a method that changes its receiver takes
  and returns the state. Errors and panics are the left side of a \<open>result\<close>; the code
  returns an error, a panic ends the call. A nil pointer or map is \<open>None\<close>. Times count
  nanoseconds from Go's zero time. Code outside the repository is an argument: the
  Kubernetes API and listers (\<open>env\<close>, \<open>api\<close>, \<open>kube\<close>, \<open>handle\<close>, \<open>decoders\<close>), the expiring
  caches, quantity arithmetic, the YAML encoder and the Fluxion binding (\<open>reapi\<close>). What is assumed
  of them is a named predicate that states their documented behaviour: \<open>reapi_laws\<close>
  (allocations get fresh ids, cancellations free them), \<open>kept_laws\<close> with its case \<open>api_laws\<close> and \<open>create_law\<close> (the
  API server, its status subresource, and its dropping of members outside the schema), \<open>lister_laws\<close> and \<open>cache_laws\<close>, \<open>resource_laws\<close> (metadata, quantities and
  times read back) and \<open>registry_laws\<close> (the scheduler's plugin registry). \<open>fluxion_laws\<close>, which the
  manager's theories assume of the sidecar, is proved for the sidecar's handlers in \<open>System\<close>.
  \<open>manager_laws\<close> states what controller-runtime documents of its manager.
  In \<open>Manager_Jobs\<close> a call is one step, in \<open>Manager_Threads\<close> what runs under the mutex or between
  two holds of it; between steps the cluster changes freely. No fuel is used: every loop
  of the sources runs over a finite list, and \<open>requeue_loop\<close>, which may run forever, is
  a partial function with the value \<open>None\<close> when it does.

  \<^bold>\<open>Not modelled.\<close> What the components print or log, beyond the logger itself, since no
  result depends on it; generated gRPC and deep-copy code; the fields of Kubernetes objects that no
  code of the repository reads or writes; \<open>utils/types.go\<close>, which no code uses; the formatting
  verbs and flags that the sources do not use, and failing writes to an open log file; in JSON texts, what
  Go's encoder does to characters outside ASCII (names of Kubernetes objects have none).
  Two threads inside the plugin are interleaved at the manager's mutex; of the node table, which
  \<open>GetPodNode\<close> reads without it, \<open>Node_Table\<close> shows that the thread of the pod events never writes it.
\<close>

section \<open>Scheduling a group, from the plugin to Fluxion\<close>

text \<open>
  C3. A gang runs where Fluxion decides, and gives everything back. All pods of a group, as
  many as it needs, are in the scheduling queue, in any order, and none of them is placed; the group has no
  job, and Fluxion allocates one node of the cluster per pod. Then the scheduling cycles of the queue
  (\<open>schedule_all\<close>) go through without a failure and end with the whole gang let go, each pod to its
  node of Fluxion's allocation, the group's job recorded and live, and nothing else changed in the job table
  or among the live jobs. The pods of other groups
  go on waiting and running; this holds from any state that the framework can be in. As soon as a pod
  of the gang then succeeds or fails, the job table and the live jobs of Fluxion are what they were
  before. This runs from the framework's cycles through the plugin's extension points, the manager, the
  gRPC handlers and the jobspec to Fluxion, and back through the parsing of the allocation.
\<close>

theorem system_gang_starts:
  assumes "reapi_laws live R" and "cancels_live_jobs live R" and "\<And>F. reliable (E F)"
    and "groups_ok G" and "cluster G (\<lambda>F. connect R (E F)) H" and "f_scheduleTimeout f = Some timeout"
    and "whole_gang G ns g pg pods F0" and "fw_reachable G f F0" and "fw_world F0 = st"
    and "mset queue = mset pods" and "GetPodNode (mgr st) (hd queue) = ''''" and "groupToJobId (mgr st) name = None"
    and "scheduleTimeout (mgr st) = Some timeout'"
    and "asks_fluxion (connect R (E F0)) (hd queue) st = Some (name, pg, pods)"
    and "yaml_Marshal R (make_JobSpec (PreparePodJobSpec (map_order (E F0) (pod_Labels (hd pods))) (hd pods) name)
           (MinMember (Spec pg))) = Inr spec"
    and "MatchAllocate R False spec (remote st) = ((allocated, job, None), w')" and "allocated \<noteq> ''''"
    and "allocation_json allocated vs" and "nodes = map snd (filter (\<lambda>v. fst v = NodeType) vs)"
    and "length nodes = length pods" and "set nodes \<subseteq> set all" and "'''' \<notin> set all"
  shows "\<exists>w ps. schedule_all (\<lambda>F. connect R (E F)) H f all queue F0 =
        Inr (F0\<lparr>fw_world := w, running := ps @ running F0, started := ps @ started F0\<rparr>)
    \<and> mset ps = mset (map2 on_node pods nodes)
    \<and> groupToJobId (mgr w) = (groupToJobId (mgr st))(name \<mapsto> job) \<and> live (remote w) = insert job (live (remote st))
    \<and> (\<forall>E' p q pg'. reliable E' \<and> GetPodGroup (connect R E') p = (name, Some pg') \<and> pod_Phase q \<in> {PodSucceeded, PodFailed} \<longrightarrow>
         groupToJobId (mgr (UpdatePod (connect R E') p q w)) = groupToJobId (mgr st)
         \<and> live (remote (UpdatePod (connect R E') p q w)) = live (remote st))"
proof -
  have "AskFlux (connect R (E F0)) (hd pods) pg name st = (Inr nodes,
      st\<lparr>mgr := (mgr st)\<lparr>groupToJobId := (groupToJobId (mgr st))(name \<mapsto> job)\<rparr>, remote := w'\<rparr>)"
    using AskFlux_connect [OF assms(1,3,12,15-18)] assms(19) by simp
  from gang_starts [OF assms(4-11,14) this assms(20-22)] assms(13) obtain w ps where
    run: "schedule_all (\<lambda>F. connect R (E F)) H f all queue F0 =
        Inr (F0\<lparr>fw_world := w, running := ps @ running F0, started := ps @ started F0\<rparr>)"
      "mset ps = mset (map2 on_node pods nodes)"
    and table: "groupToJobId (mgr w) = (groupToJobId (mgr st))(name \<mapsto> job)" and rem: "remote w = w'" by auto
  have fresh: "job \<notin> live (remote st)" and live: "live w' = insert job (live (remote st))"
    using reapi_lawsD(1) [OF assms(1,16,17)] by simp_all
  have "groupToJobId (mgr (UpdatePod (connect R E') p q w)) = groupToJobId (mgr st)
      \<and> live (remote (UpdatePod (connect R E') p q w)) = live (remote st)"
    if "reliable E'" "GetPodGroup (connect R E') p = (name, Some pg')" "pod_Phase q \<in> {PodSucceeded, PodFailed}" for E' p q pg'
  proof -
    have laws: "fluxion_laws live (connect R E')" using connect_laws [OF assms(1) reliable_dials [OF that(1)]] .
    have "grpc_Dial (connect R E') (remote w) = (Inr (), w')" using that(1) by (simp add: reliable_def rem)
    moreover obtain resp w2 where "grpc_Cancel (connect R E') \<lparr>creq_JobID = int64_of_jobid job\<rparr> w' = (Inr resp, w2)" "cres_Error resp = 0"
      using Cancel_live [OF assms(2), of job w'] live by auto
    ultimately have "groupToJobId (mgr (UpdatePod (connect R E') p q w)) = (groupToJobId (mgr w))(name := None)"
      "live (remote (UpdatePod (connect R E') p q w)) = live (remote w) - {job}"
      using UpdatePod_releases_job [OF laws that(2) _ that(3)] table by simp_all
    then show ?thesis using table fresh live rem assms(12) by (simp add: fun_upd_idem)
  qed
  with run table rem live show ?thesis by blast
qed

theorem system_gang_starts_witness:
  "\<exists>w ps. schedule_all (\<lambda>F. connect pair_reapi (demo_sight F)) demo_hold demo_plugin [''u'', ''v'', ''w''] demo_pods demo_empty =
       Inr (demo_empty\<lparr>fw_world := w, running := ps, started := ps\<rparr>)
     \<and> mset ps = {#on_node (demo_pods ! 0) ''w'', on_node (demo_pods ! 1) ''v''#} \<and> fst (remote w) \<noteq> []
     \<and> fst (remote (UpdatePod (connect pair_reapi (demo_sight demo_empty)) (hd demo_pods) ((hd demo_pods)\<lparr>pod_Phase := PodFailed\<rparr>) w)) = []"
proof -
  have rel: "reliable (demo_sight F)" for F by (simp add: reliable_def demo_sight_def demo_env_def)
  have cl: "cluster demo_groups (\<lambda>F. connect pair_reapi (demo_sight F)) demo_hold"
    using demo_cluster by (simp add: cluster_def sees_def)
  have asks: "asks_fluxion (connect pair_reapi (demo_sight demo_empty)) (hd demo_pods) demo_start = Some (''ns/g'', demo_group, demo_pods)"
    by (simp add: asks_fluxion_def GetPodGroup_def demo_sight_def demo_groups_def)
  have yaml: "yaml_Marshal pair_reapi js = Inr ''spec''" for js by (simp add: pair_reapi_def demo_reapi_def)
  have alloc: "MatchAllocate pair_reapi False ''spec'' (remote demo_start) = ((encodedJGF pair_graph, 1, None), [1], 2)"
    by (simp add: pair_reapi_def demo_start_def)
  have grp: "GetPodGroup (connect pair_reapi (demo_sight demo_empty)) (hd demo_pods) = (''ns/g'', Some demo_group)"
    by (simp add: GetPodGroup_def demo_sight_def demo_groups_def)
  let ?E = "connect pair_reapi (demo_sight demo_empty)" and ?q = "(hd demo_pods)\<lparr>pod_Phase := PodFailed\<rparr>"
  have start: "fst (remote demo_start) = []" by (simp add: demo_start_def)
  obtain w ps where run: "schedule_all (\<lambda>F. connect pair_reapi (demo_sight F)) demo_hold demo_plugin [''u'', ''v'', ''w''] demo_pods demo_empty =
       Inr (demo_empty\<lparr>fw_world := w, running := ps, started := ps\<rparr>)"
    and ps: "mset ps = mset (map2 on_node demo_pods [''w'', ''v''])" and live: "set (fst (remote w)) = {1}"
    and freed: "\<And>E' p q pg'. reliable E' \<Longrightarrow> GetPodGroup (connect pair_reapi E') p = (''ns/g'', Some pg') \<Longrightarrow> pod_Phase q \<in> {PodSucceeded, PodFailed}
      \<Longrightarrow> set (fst (remote (UpdatePod (connect pair_reapi E') p q w))) = {}"
    using system_gang_starts [OF pair_reapi_laws pair_cancels rel demo_groups_ok cl demo_timeout demo_whole_gang demo_empty_reachable _ refl _ _ _
        asks yaml alloc pair_graph_allocation(2,1) refl, where timeout' = "300 * Second" and all = "[''u'', ''v'', ''w'']"]
    by (auto simp: GetPodNode_def start)
  have "fst (remote (UpdatePod ?E (hd demo_pods) ?q w)) = []" using freed [OF rel grp, of ?q] by simp
  moreover have "fst (remote w) \<noteq> []" using live by auto
  moreover have "mset ps = {#on_node (demo_pods ! 0) ''w'', on_node (demo_pods ! 1) ''v''#}" using ps unfolding demo_two_nodes by simp
  ultimately show ?thesis using run by (intro exI conjI)
qed

text \<open>
  A group is placed as Fluxion decides. When \<open>PreFilter\<close> asks for a group that holds
  no job, and Fluxion allocates as many nodes as the group has pods, then the pods of
  the group get, in order, exactly the node vertices of Fluxion's allocation; the group
  is recorded with the id of the job that Fluxion made, and that job is live. This runs
  through the request built by the plugin, the jobspec and the parsing of the
  allocation in the sidecar, and the job id carried as a signed integer in between.
\<close>

theorem system_places_gang:
  assumes "reapi_laws live R" and "reliable E" and "groupToJobId (mgr st) g = None"
    and "asks_fluxion (connect R E) pod st = Some (g, pg, pods)" and "pods \<noteq> []"
    and "yaml_Marshal R (make_JobSpec (PreparePodJobSpec (map_order E (pod_Labels (hd pods))) (hd pods) g)
           (MinMember (Spec pg))) = Inr spec"
    and "MatchAllocate R False spec (remote st) = ((allocated, job, None), w')" and "allocated \<noteq> ''''"
    and "allocation_json allocated vs" and "nodes = map snd (filter (\<lambda>v. fst v = NodeType) vs)"
    and "length nodes = length pods" and "distinct (map pod_Name pods)"
    and "scheduleTimeout (mgr st) = Some timeout"
  shows "\<exists>state' st'. Manager_PreFilter (connect R E) pod state st = (Inr (), state', st')
    \<and> map (GetPodNode (mgr st')) pods = nodes
    \<and> groupToJobId (mgr st') g = Some job \<and> job \<in> live (remote st')"
proof -
  let ?E = "connect R E"
  let ?st1 = "st\<lparr>mgr := (mgr st)\<lparr>groupToJobId := (groupToJobId (mgr st))(g \<mapsto> job)\<rparr>, remote := w'\<rparr>"
  have ask: "AskFlux ?E (hd pods) pg g st = (Inr nodes, ?st1)"
    using AskFlux_connect [OF assms(1-3,6-9)] assms(10) by simp
  obtain r state' st' where run: "Manager_PreFilter ?E pod state st = (r, state', st')"
    by (metis surj_pair)
  have timeout: "scheduleTimeout (mgr ?st1) = Some timeout" using assms(13) by simp
  note placed = PreFilter_assigns [OF assms(4,5) ask assms(11,12) timeout run]
  have "map (GetPodNode (mgr st')) pods = nodes"
    using placed assms(11) by (auto intro!: nth_equalityI)
  moreover have "remote st' = w'"
    using PreFilter_asking_hd [OF assms(4,5) ask, of state] run admit_group_exact [OF assms(11) timeout] by simp
  moreover have "job \<in> live w'" using reapi_lawsD(1) [OF assms(1,7,8)] by simp
  ultimately show ?thesis using run placed by auto
qed

theorem system_places_gang_witness:
  "\<exists>state' st'. Manager_PreFilter (connect demo_reapi solo_env) (hd demo_pods) Map.empty demo_start = (Inr (), state', st')
     \<and> GetPodNode (mgr st') (hd demo_pods) = ''w'' \<and> groupToJobId (mgr st') ''ns/g'' = Some 1"
  using system_places_gang [OF demo_reapi_laws solo_reliable _ solo_asks _ solo_allocates small_graph_allocation(2,1) refl,
      of "300 * Second" Map.empty]
  by auto

text \<open>
  C13. The wrong number of nodes. When Fluxion's allocation does not list one node per pod, for instance because two pods
  share a node, \<open>PreFilter\<close> cancels the job it has just got and goes on all the same: with fewer nodes
  than pods it admits the group and sends its first pods to these nodes, which Fluxion does not
  hold for them any more; with more nodes than pods it panics.
\<close>

theorem system_wrong_node_count:
  assumes "reapi_laws live R" and "cancels_live_jobs live R" and "reliable E" and "groupToJobId (mgr st) g = None"
    and "asks_fluxion (connect R E) pod st = Some (g, pg, pods)" and "pods \<noteq> []"
    and "yaml_Marshal R (make_JobSpec (PreparePodJobSpec (map_order E (pod_Labels (hd pods))) (hd pods) g)
           (MinMember (Spec pg))) = Inr spec"
    and "MatchAllocate R False spec (remote st) = ((allocated, job, None), w')" and "allocated \<noteq> ''''"
    and "allocation_json allocated vs" and "nodes = map snd (filter (\<lambda>v. fst v = NodeType) vs)"
    and "length nodes \<noteq> length pods" and "distinct (map pod_Name pods)" and "scheduleTimeout (mgr st) = Some timeout"
    and "Manager_PreFilter (connect R E) pod state st = (r, state', st')"
  shows "groupToJobId (mgr st') g = None \<and> live (remote st') = live (remote st)
    \<and> (if length pods < length nodes then r = Inl (Panic IndexOutOfRange)
       else r = Inr () \<and> permittedpodGroup (mgr st') = cache_Add E (permittedpodGroup (mgr st)) g timeout
         \<and> (\<forall>i < length nodes. GetPodNode (mgr st') (pods ! i) = nodes ! i
              \<and> Filter state' (pods ! i) (nodes ! i) = Inr (CodeSuccess, '''')))"
proof -
  let ?E = "connect R E"
  let ?st1 = "st\<lparr>mgr := (mgr st)\<lparr>groupToJobId := (groupToJobId (mgr st))(g \<mapsto> job)\<rparr>, remote := w'\<rparr>"
  have ask: "AskFlux ?E (hd pods) pg g st = (Inr nodes, ?st1)"
    using AskFlux_connect [OF assms(1,3,4,7-10)] assms(11) by simp
  have admit: "admit_group ?E g pods (hd pods) nodes state ?st1 = (r, state', st')"
    using PreFilter_asking_hd [OF assms(5,6) ask] assms(15) by simp
  have fresh: "job \<notin> live (remote st)" "live w' = insert job (live (remote st))"
    using reapi_lawsD(1) [OF assms(1,8,9)] by simp_all
  then obtain w2 where cancel: "cancelFluxJob ?E g (hd pods) ?st1 =
      (Inr (), ?st1\<lparr>mgr := cleanup ?E (hd pods) g (mgr ?st1), remote := w2\<rparr>)" and "live w2 = live (remote st)"
    using cancel_connect [OF assms(1-3), of ?st1 g job "hd pods"] by auto
  with admit_group_wrong_count [OF assms(12,13) _ admit, of timeout] assms(14) show ?thesis
    by (simp add: cancel)
qed

theorem system_wrong_node_count_witness:
  "\<exists>state' st'. Manager_PreFilter (connect demo_reapi demo_env) (hd demo_pods) Map.empty demo_start = (Inr (), state', st')
     \<and> GetPodNode (mgr st') (hd demo_pods) = ''w'' \<and> groupToJobId (mgr st') ''ns/g'' = None \<and> fst (remote st') = []"
proof -
  have asks: "asks_fluxion (connect demo_reapi demo_env) (hd demo_pods) demo_start = Some (''ns/g'', demo_group, demo_pods)"
    by (simp add: asks_fluxion_def GetPodGroup_def)
  have rel: "reliable demo_env" by (simp add: reliable_def demo_env_def)
  obtain r state' st' where run: "Manager_PreFilter (connect demo_reapi demo_env) (hd demo_pods) Map.empty demo_start = (r, state', st')"
    by (metis surj_pair)
  have "fst (remote demo_start) = []" by (simp add: demo_start_def)
  with system_wrong_node_count [OF demo_reapi_laws demo_cancels rel _ asks _ solo_allocates small_graph_allocation(2,1) refl,
      where timeout = "300 * Second", OF _ _ _ _ _ run]
  have "r = Inr ()" "GetPodNode (mgr st') (hd demo_pods) = ''w''" "groupToJobId (mgr st') ''ns/g'' = None" "fst (remote st') = []"
    by (auto simp: hd_conv_nth)
  with run show ?thesis by blast
qed

section \<open>The groups of the controller in the scheduler's queue\<close>

definition created_env :: "(string list, jobid list \<times> jobid) env" where
  "created_env = demo_env\<lparr>client_Get := \<lambda>ns n. case store_objects demo_created (ns, n) of None \<Rightarrow> Inl (Err ''not found'') | Some pg \<Rightarrow> Inr pg\<rparr>"

text \<open>
  C15. The queue does not see gangs, and a gang never times out. Whatever the controller does, the groups it
  creates never get a schedule start time, so the scheduler, which reads that time, orders the pods of
  equal priority by their own first attempts alone, whatever groups they are in, and panics when it compares a pod that was
  never attempted; and the controller's limit of 48 hours for groups that are not scheduled is never exceeded.
\<close>

theorem system_queue_ignores_gangs:
  assumes "creachable stored (\<lambda>A. api_laws stored A \<and> create_law stored A) k"
    and "\<And>ns n pg. client_Get E ns n = Inr pg \<Longrightarrow> stored k (ns, n) = Some pg"
    and "PodPriority H (qpi_Pod a) = PodPriority H (qpi_Pod b)"
  shows "Less E H a b =
      (case (InitialAttemptTimestamp a, InitialAttemptTimestamp b) of
         (Some t, Some u) \<Rightarrow> Inr (t < u \<or> t = u \<and> GetNamespacedName (qpi_Pod a) < GetNamespacedName (qpi_Pod b))
       | _ \<Rightarrow> Inl (Panic NilDereference))
    \<and> (\<forall>key pg. stored k key = Some pg \<and> 0 \<le> pg_CreationTimestamp pg \<longrightarrow> \<not> twoDaysOld pg)"
proof
  note zero = start_time_zero [OF assms(1)]
  have "ScheduleStartTime (Status pg) = 0" if "client_Get E ns n = Inr pg" for ns n pg
    using assms(2) [OF that] zero by blast
  then have time: "GetCreationTimestamp name (snd (GetPodGroup E (qpi_Pod info))) info = deref (InitialAttemptTimestamp info)" for name info
    by (auto simp: GetCreationTimestamp_def GetPodGroup_def IsZero_def Let_def split: option.split sum.split)
  show "Less E H a b =
      (case (InitialAttemptTimestamp a, InitialAttemptTimestamp b) of
         (Some t, Some u) \<Rightarrow> Inr (t < u \<or> t = u \<and> GetNamespacedName (qpi_Pod a) < GetNamespacedName (qpi_Pod b))
       | _ \<Rightarrow> Inl (Panic NilDereference))"
    using time [of _ a] time [of _ b] assms(3)
    by (auto simp: Less_def Let_def deref_def split: prod.split option.split)
  have "\<not> twoDaysOld pg" if "stored k key = Some pg" "0 \<le> pg_CreationTimestamp pg" for key pg
  proof -
    have "ScheduleStartTime (Status pg) = 0" using zero that(1) by blast
    then show ?thesis using that(2) by (simp add: twoDaysOld_def time_Sub_def Second_def)
  qed
  then show "\<forall>key pg. stored k key = Some pg \<and> 0 \<le> pg_CreationTimestamp pg \<longrightarrow> \<not> twoDaysOld pg" by blast
qed

theorem system_queue_ignores_gangs_witness:
  "let pod = \<lambda>n g. plain_pod ''ns'' n (Some [PodGroupLabel \<mapsto> g]) in
   Less created_env demo_handle (demo_queued (pod ''a'' ''g'') 1) (demo_queued (pod ''b'' ''h'') 2) = Inr True
   \<and> Less created_env demo_handle (demo_queued (pod ''b'' ''h'') 2) (demo_queued (pod ''c'' ''g'') 3) = Inr True
   \<and> Less created_env demo_handle (demo_queued (pod ''a'' ''g'') 1) \<lparr>qpi_Pod = pod ''c'' ''g'', InitialAttemptTimestamp = None\<rparr>
       = Inl (Panic NilDereference)"
proof -
  have get: "client_Get created_env ns n = Inr pg \<Longrightarrow> store_objects demo_created (ns, n) = Some pg" for ns n pg
    by (simp add: created_env_def split: option.splits)
  have prio: "PodPriority demo_handle (qpi_Pod a) = PodPriority demo_handle (qpi_Pod b)" for a b
    by (simp add: demo_handle_def)
  note queue = system_queue_ignores_gangs [where stored = store_objects, OF demo_created_reachable get prio]
  show ?thesis unfolding Let_def
    by (intro conjI; subst conjunct1 [OF queue]; simp add: demo_queued_def)
qed

section \<open>Jobs over time\<close>

text \<open>
  No job is leaked while cancellations go through. Over every sequence of
  scheduling cycles, pod updates, pod deletions and cache expiries, with the cluster
  changing freely in between, the jobs live in Fluxion are exactly the jobs in the
  manager's table, one per group, provided the sidecar can be reached and Fluxion
  cancels the jobs it knows.
\<close>

theorem system_jobs_conserved:
  fixes st :: "('c, 'f) world"
  assumes "reapi_laws live R" and "cancels_live_jobs live R"
    and "reachable live (\<lambda>E. \<exists>E0. E = connect R E0 \<and> reliable E0) st"
  shows "live (remote st) = ran (groupToJobId (mgr st))
    \<and> inj_on (groupToJobId (mgr st)) (dom (groupToJobId (mgr st)))"
proof -
  have laws: "fluxion_laws live E" if "\<exists>E0. E = connect R E0 \<and> reliable E0" for E :: "('c, 'f) env"
    using that connect_laws [OF assms(1) reliable_dials] by blast
  have "live (remote st) = ran (groupToJobId (mgr st))"
    by (rule reachable_no_leak [OF assms(3) laws]) (auto intro: released_connect [OF assms(2)])
  moreover have "jobs_ok live st" by (rule reachable_jobs_ok [OF assms(3) laws])
  ultimately show ?thesis by (simp add: jobs_ok_def)
qed

theorem system_jobs_conserved_witness:
  "\<exists>st :: (string list, jobid list \<times> jobid) world. groupToJobId (mgr st) = [''ns/g'' \<mapsto> 1] \<and> set (fst (remote st)) = {1}
     \<and> reachable (set \<circ> fst) (\<lambda>E. \<exists>E0. E = connect demo_reapi E0 \<and> reliable E0) st"
proof -
  let ?P = "\<lambda>E. \<exists>E0. E = connect demo_reapi E0 \<and> reliable E0" and ?E = "connect demo_reapi solo_env"
  obtain r state' st' where run: "Manager_PreFilter ?E (hd demo_pods) Map.empty demo_start = (r, state', st')"
    by (metis surj_pair)
  have P: "?P ?E" using solo_reliable by blast
  have "reachable (set \<circ> fst) ?P demo_start"
    unfolding solo_start [symmetric] by (rule reachable.start [where P = ?P, OF P]) simp
  from reachable.step [OF this mstep.prefilter [where P = ?P, OF P run]]
  have reach: "reachable (set \<circ> fst) ?P st'" .
  have "groupToJobId (mgr st') = [''ns/g'' \<mapsto> 1]" by (rule solo_recorded [OF run])
  with reach system_jobs_conserved [OF demo_reapi_laws demo_cancels reach] show ?thesis by auto
qed

text \<open>
  C4. No job is leaked while cancellations go through, however the threads run. At
  every moment of every interleaving of \<open>PreFilter\<close> with pod updates, pod deletions and
  cache expiries, with the cluster changing freely in between, the jobs live in Fluxion
  are exactly the jobs in the manager's table, one per group, and the job that Fluxion
  has just handed out and the scheduling thread is about to store, provided the sidecar
  can be reached and Fluxion cancels the jobs it knows.
\<close>

theorem system_jobs_conserved_interleaved:
  fixes st :: "('c, 'f) world"
  assumes "reapi_laws live R" and "cancels_live_jobs live R"
    and "ireachable live (\<lambda>E. \<exists>E0. E = connect R E0 \<and> reliable E0) (th, st)"
  shows "live (remote st) = ran (groupToJobId (mgr st)) \<union> pending th
    \<and> ran (groupToJobId (mgr st)) \<inter> pending th = {}
    \<and> inj_on (groupToJobId (mgr st)) (dom (groupToJobId (mgr st)))"
proof -
  have laws: "fluxion_laws live E" if "\<exists>E0. E = connect R E0 \<and> reliable E0" for E :: "('c, 'f) env"
    using that connect_laws [OF assms(1) reliable_dials] by blast
  have "none_lost live (th, st)"
    by (rule ireachable_none_lost [OF assms(3) laws]) (auto intro: released_connect [OF assms(2)])
  moreover have "threads_ok live (th, st)" by (rule ireachable_threads_ok [OF assms(3) laws])
  ultimately show ?thesis by (auto simp: none_lost_def threads_ok_def jobs_ok_def)
qed

theorem system_jobs_conserved_interleaved_witness:
  "\<exists>th (st :: (string list, jobid list \<times> jobid) world). groupToJobId (mgr st) = [''ns/g'' \<mapsto> 1]
     \<and> set (fst (remote st)) = {1} \<union> pending th
     \<and> ireachable (set \<circ> fst) (\<lambda>E. \<exists>E0. E = connect demo_reapi E0 \<and> reliable E0) (th, st)"
proof -
  let ?P = "\<lambda>E. \<exists>E0. E = connect demo_reapi E0 \<and> reliable E0" and ?E = "connect demo_reapi solo_env"
  obtain r state' st' where run: "Manager_PreFilter ?E (hd demo_pods) Map.empty demo_start = (r, state', st')"
    by (metis surj_pair)
  have P: "?P ?E" using solo_reliable by blast
  have "ireachable (set \<circ> fst) ?P (Begin (hd demo_pods) Map.empty, demo_start)"
    unfolding solo_start [symmetric] by (rule ireachable.start [where P = ?P, OF P]) simp
  from ireachable_runs [where P = ?P, OF this P PreFilter_runs [OF run]]
  have reach: "ireachable (set \<circ> fst) ?P (Returned r state', st')" .
  with system_jobs_conserved_interleaved [OF demo_reapi_laws demo_cancels reach] solo_recorded [OF run]
  show ?thesis by (intro exI [of _ "Returned r state'"] exI [of _ st']) simp
qed

section \<open>The size of a group, from the webhook to the request\<close>

text \<open>
  C16. The size of a job reaches Fluxion. For a job whose labels leave the size to the
  webhook, the first pending pod made from its template makes the controller create
  the group with the job's parallelism (0 counting as 1) as its minimum, which is part of the
  specification and so, against the comments at the code, stays (\<open>create_law\<close>), and the
  plugin's request for that group asks for that many slots: cores, memory and GPUs of
  the representative pod times the size.
\<close>

theorem system_job_size:
  assumes "EnsureGroupOnJob job = Inr job'" and "Parallelism job = Some n" and "in_int32 n"
    and "label (job_Labels job) PodGroupSizeLabel = None" and "label (job_TemplateLabels job) PodGroupSizeLabel = None"
    and "job_group_name job \<noteq> ''''"
    and "pod_Labels pod = job_TemplateLabels job'" and "pod_Phase pod = PodPending" and "\<not> terminating pod"
    and "api_laws stored A" and "create_law stored A" and "util_PodGroupLabel A pod = GetPodGroupLabel pod"
    and "stored k ('''', '''') = None" and "stored k (pod_Namespace pod, job_group_name job) = None"
    and "ensurePodGroup A now pod k = (reqs, k')" and "sz = (if n = 0 then 1 else n)"
  shows "\<exists>pg. stored k' (pod_Namespace pod, job_group_name job) = Some pg \<and> MinMember (Spec pg) = sz
    \<and> (let ps = mr_Ps (match_request E rep pg g);
           rs = v_Resources (js_Version (make_JobSpec ps (mr_Count (match_request E rep pg g))))
       in total_demand ''core'' rs = sz * ps_Cpu ps
        \<and> total_demand ''memory'' rs = sz * max 0 (ps_Memory ps div 2 ^ 20)
        \<and> total_demand ''gpu'' rs = sz * max 0 (ps_Gpu ps))"
proof -
  note labels = job_ensurer.pod_of_template [OF assms(1,7)]
  have "label_or_empty (pod_Labels pod) PodGroupSizeLabel = size_label n"
    using labels(2) assms(2,4,5) by (simp add: GetPodGroupSize_def job_group_size_def getJobLabel_def)
  then have "ParseInt 32 (label_or_empty (pod_Labels pod) PodGroupSizeLabel) = Some sz"
    using assms(3,16) by (simp add: size_label_def ParseInt32_fmt_d in_int32_def)
  then have "creates A (stored k) pod = Some sz"
    using labels(1) assms(6,8,9,12,14) by (simp add: creates_def)
  with ensurePodGroup_stored [OF assms(10,11,13) refl assms(15)] labels(1) assms(12) obtain pg where
    "stored k' = (stored k)((pod_Namespace pod, job_group_name job) \<mapsto> pg)" "MinMember (Spec pg) = sz" by auto
  then show ?thesis
    by (intro exI [of _ pg])
      (simp add: match_request_def make_JobSpec_def createResources_demand createSocketResources_demand drop_bit_eq_div)
qed

theorem system_job_size_witness:
  "let pod = plain_pod ''default'' ''pi-0'' (Some [PodGroupLabel \<mapsto> ''fluence-group-default-pi'', PodGroupSizeLabel \<mapsto> ''10''])
   in \<exists>pg. store_objects (snd (ensurePodGroup (store_api []) 9 pod Map.empty)) (''default'', ''fluence-group-default-pi'') = Some pg
        \<and> MinMember (Spec pg) = 10"
proof -
  let ?pod = "plain_pod ''default'' ''pi-0'' (Some [PodGroupLabel \<mapsto> ''fluence-group-default-pi'', PodGroupSizeLabel \<mapsto> ''10''])"
  have job: "Parallelism example_job = Some 10" "in_int32 10" "label (job_Labels example_job) PodGroupSizeLabel = None"
      "label (job_TemplateLabels example_job) PodGroupSizeLabel = None" "job_group_name example_job = ''fluence-group-default-pi''"
    by (simp_all add: example_job_def in_int32_def job_group_name_def getJobLabel_def)
  have pod: "pod_Labels ?pod = job_TemplateLabels (example_job\<lparr>job_Labels := Some Map.empty,
      job_TemplateLabels := Some [PodGroupLabel \<mapsto> ''fluence-group-default-pi'', PodGroupSizeLabel \<mapsto> ''10'']\<rparr>)"
      "pod_Phase ?pod = PodPending" "\<not> terminating ?pod" "pod_Namespace ?pod = ''default''"
    by (simp_all add: plain_pod_def terminating_def)
  have store: "util_PodGroupLabel (store_api []) ?pod = GetPodGroupLabel ?pod" "store_objects Map.empty k = None" for k
    by (simp_all add: store_api_def store_objects_def)
  have name: "job_group_name example_job \<noteq> ''''" using job(5) by simp
  from system_job_size [where stored = store_objects and k = Map.empty and now = 9 and E = demo_env,
      OF example_job_ensured job(1-4) name pod(1-3) store_api_laws store_create_law store(1) store(2) store(2) surjective_pairing refl]
  show ?thesis using job(5) pod(4) by (auto simp: Let_def)
qed

section \<open>The graph Fluxion starts from\<close>

text \<open>
  C17. Fluxion is initialised with the cluster. Whatever file an earlier run has left, when the graph is
  built and the system lets the file be written and read, the sidecar writes the graph of
  the schedulable nodes, initialises Fluxion with a text that a reader decodes to exactly that
  graph, and from then on serves this text at its external service. When building the graph fails
  with an error, Fluxion is left without a context, no file is written, and an old file goes on being served.
\<close>

theorem sidecar_starts_with_cluster_graph:
  assumes "Nodes_List K = Inr nodes" and "\<forall>node \<in> set nodes. gpus_typed node" and "int (length nodes) < 2 ^ 63"
    and "\<And>path. os_Create K path = Inr ()" and "\<And>path text. file_Write K path text = Inr ()" and "\<And>path. os_Open R path = Inr ()"
    and "InitFluxion K R policy skipLabel fs = (r, fs')"
  shows "case cluster_graph K skipLabel of
      Inl (Panic p) \<Rightarrow> r = Inl (Panic p) \<and> fs' = fs
    | Inl (Err e) \<Rightarrow> r = Inr (NewReapiClient R) \<and> fs' = fs
        \<and> (\<forall>old. fs KubernetesJsonGraphFormat = Some old \<longrightarrow> GetResources R fs' = Inr \<lparr>rr_Graph = old\<rparr>)
    | Inr st \<Rightarrow> \<exists>text. r = Inr (InitContext R text (matcher_policy policy) (NewReapiClient R))
        \<and> decodedJGF text = Some (Graph (fluxgraph st))
        \<and> compute_nodes (fluxgraph st) = map cn_Name (filter (schedulable skipLabel) nodes)
        \<and> fs' = fs(KubernetesJsonGraphFormat \<mapsto> text) \<and> GetResources R fs' = Inr \<lparr>rr_Graph = text\<rparr>"
proof (cases "cluster_graph K skipLabel")
  case (Inl e)
  with assms(6,7) show ?thesis
    by (cases e) (auto simp: InitFluxion_def CreateInClusterJGF_def GetResources_def os_ReadFile_def)
next
  case (Inr st)
  have "decodedJGF (encodedJGF (fluxgraph st)) = Some (Graph (fluxgraph st))"
    by (rule decodedJGF_encoded [OF cluster_graph_ok [OF Inr assms(1-3)]])
  moreover have "compute_nodes (fluxgraph st) = map cn_Name (filter (schedulable skipLabel) nodes)"
    using cluster_graph_counts [OF Inr assms(1)] by blast
  moreover have "r = Inr (InitContext R (encodedJGF (fluxgraph st)) (matcher_policy policy) (NewReapiClient R))"
    "fs' = fs(KubernetesJsonGraphFormat \<mapsto> encodedJGF (fluxgraph st))"
    using assms(4-7) Inr by (auto simp: InitFluxion_def CreateInClusterJGF_def WriteJGF_def os_ReadFile_def Let_def)
  ultimately show ?thesis using assms(6) Inr by (auto simp: GetResources_def os_ReadFile_def)
qed

text \<open>A Fluxion that remembers the graph and the policy it is given, beside the file of an earlier run.\<close>

definition recorder :: "(string \<times> string) reapi" where
  "recorder = \<lparr>NewReapiClient = ('''', ''''), InitContext = (\<lambda>jgf policy _. (jgf, policy)),
     MatchAllocate = (\<lambda>_ _ w. (('''', 0, None), w)), reapi_Cancel = (\<lambda>_ _ w. (None, w)),
     yaml_Marshal = (\<lambda>_. Inr ''spec''), os_Open = (\<lambda>_. Inr ())\<rparr>"

theorem sidecar_starts_with_cluster_graph_witness:
  "\<exists>g policy fs'. InitFluxion example_kube recorder ''lonode'' '''' [KubernetesJsonGraphFormat \<mapsto> ''old''] = (Inr (g, policy), fs')
     \<and> map_option (\<lambda>g. map (\<lambda>n. Basename (Metadata n)) (filter (\<lambda>n. md_Type (Metadata n) = NodeType) (Nodes g))) (decodedJGF g) = Some [''w1'']
     \<and> GetResources recorder fs' = Inr \<lparr>rr_Graph = g\<rparr>"
proof -
  obtain st where st: "cluster_graph example_kube '''' = Inr st" using example_cluster_graph by blast
  obtain r fs' where run: "InitFluxion example_kube recorder ''lonode'' '''' [KubernetesJsonGraphFormat \<mapsto> ''old''] = (r, fs')"
    by (meson surj_pair)
  have os: "os_Create example_kube path = Inr ()" "file_Write example_kube path jgf = Inr ()" "os_Open recorder path = Inr ()" for path jgf
    by (simp_all add: example_kube_def recorder_def)
  have typed: "\<forall>node \<in> set (projr (Nodes_List example_kube)). gpus_typed node" "int (length (projr (Nodes_List example_kube))) < 2 ^ 63"
    by (simp_all add: example_kube_def gpus_typed_def)
  from sidecar_starts_with_cluster_graph [OF example_nodes(1) typed os run] obtain jgf where
    r: "r = Inr (InitContext recorder jgf (matcher_policy ''lonode'') (NewReapiClient recorder))"
    and jgf: "decodedJGF jgf = Some (Graph (fluxgraph st))" "compute_nodes (fluxgraph st) = [''w1'']"
      "GetResources recorder fs' = Inr \<lparr>rr_Graph = jgf\<rparr>"
    unfolding st example_nodes(2) by auto
  have "InitContext recorder jgf p c = (jgf, p)" for p c by (simp add: recorder_def)
  with run r jgf show ?thesis by (auto simp: compute_nodes_def)
qed

end
